theory Spec2Isabelle
  imports Complex_Main
begin

section \<open>Numbers of the program\<close>

text \<open>
  Prices and sizes are Python \<^verbatim>\<open>Decimal\<close> values. A finite \<^verbatim>\<open>Decimal\<close> is a rational
  number \<open>c * 10^e\<close>, and every comparison the program makes (\<^verbatim>\<open><=\<close>, \<^verbatim>\<open>>\<close>, \<^verbatim>\<open>==\<close>)
  compares values, so a decimal is modelled by its value, a \<^typ>\<open>rat\<close>. The arithmetic
  operators of \<^verbatim>\<open>Decimal\<close> are not exact: each result is rounded to the precision of the
  default context, 28 significant digits, half to even (\<^verbatim>\<open>prec=28, ROUND_HALF_EVEN\<close>).
  The operators below round in the same way. The exponent limits of the context
  (\<open>10^\<plusminus>999999\<close>) and the special values (NaN, infinities) are outside the model.

  The favored price in cents is a Python \<^verbatim>\<open>float\<close>. The program only compares it with
  the literals of the strategy table and converts it with \<^verbatim>\<open>Decimal(str(x))\<close>, which
  yields the decimal number that \<^verbatim>\<open>str\<close> prints. A float is therefore modelled by
  that decimal number, again a \<^typ>\<open>rat\<close>: the literal \<^verbatim>\<open>63.99\<close> is \<open>6399 / 100\<close>, the
  comparison of two floats is the comparison of the numbers printed, and
  \<^verbatim>\<open>Decimal(str(x))\<close> is the identity.
\<close>

type_synonym decimal = rat

text \<open>The number of decimal digits of a positive integer (\<^verbatim>\<open>len(str(n))\<close>).\<close>

function ndigits :: "int \<Rightarrow> int" where
  "ndigits n = (if n < 10 then 1 else 1 + ndigits (n div 10))"
  by pat_completeness auto
termination
  by (relation "measure nat") auto

declare ndigits.simps [simp del]

text \<open>The precision of the default decimal context.\<close>

definition prec :: int where
  "prec = 28"

text \<open>
  The adjusted exponent of a nonzero number \<open>x\<close>: the exponent of its first significant
  digit, \<open>\<lfloor>log\<^sub>1\<^sub>0 \<bar>x\<bar>\<rfloor>\<close>, computed from the digit counts of numerator and denominator.
\<close>

definition adjusted :: "rat \<Rightarrow> int" where
  "adjusted x =
     (let (a, b) = quotient_of \<bar>x\<bar>;
          k = ndigits a - ndigits b
      in if 10 powi k \<le> \<bar>x\<bar> then k else k - 1)"

definition round_half_even :: "rat \<Rightarrow> int" where
  "round_half_even m =
     (let f = \<lfloor>m\<rfloor>; r = m - of_int f
      in if r < 1 / 2 then f
         else if 1 / 2 < r then f + 1
         else if even f then f else f + 1)"

text \<open>Rounding to \<open>prec\<close> significant digits, half to even.\<close>

definition dec_round :: "rat \<Rightarrow> decimal" where
  "dec_round x =
     (if x = 0 then 0
      else let e = adjusted x - (prec - 1)
           in of_int (round_half_even (x / 10 powi e)) * 10 powi e)"

definition dec_add :: "decimal \<Rightarrow> decimal \<Rightarrow> decimal" where
  "dec_add a b = dec_round (a + b)"

definition dec_sub :: "decimal \<Rightarrow> decimal \<Rightarrow> decimal" where
  "dec_sub a b = dec_round (a - b)"

definition dec_mul :: "decimal \<Rightarrow> decimal \<Rightarrow> decimal" where
  "dec_mul a b = dec_round (a * b)"

text \<open>Division by a nonzero decimal (division by zero raises, and is handled at the call).\<close>

definition dec_div :: "decimal \<Rightarrow> decimal \<Rightarrow> decimal" where
  "dec_div a b = dec_round (a / b)"

text \<open>\<^verbatim>\<open>xs[:k]\<close> for a Python integer \<open>k\<close>: a negative \<open>k\<close> counts from the end.\<close>

definition py_prefix :: "int \<Rightarrow> 'a list \<Rightarrow> 'a list" where
  "py_prefix k xs = (if 0 \<le> k then take (nat k) xs else take (length xs - nat (- k)) xs)"


section \<open>Entry strategy (\<^verbatim>\<open>src/strategy/entry_strategy.py\<close>)\<close>

text \<open>\<^verbatim>\<open>STRATEGY_TABLE\<close>: \<open>(min_price, max_price) \<rightarrow> (entry1, entry2)\<close>, in the order written.\<close>

definition STRATEGY_TABLE :: "((rat \<times> rat) \<times> (int \<times> int)) list" where
  "STRATEGY_TABLE =
     [((61, 6399 / 100), (42, 27)),
      ((64, 6699 / 100), (44, 31)),
      ((67, 6999 / 100), (45, 33)),
      ((70, 7499 / 100), (52, 38)),
      ((75, 7999 / 100), (58, 42)),
      ((80, 100), (68, 55))]"

record entry_config =
  entry1_cents :: int
  entry1_price :: decimal
  entry2_cents :: int
  entry2_price :: decimal
  entry_size_usd :: decimal

text \<open>
  The loop of \<^verbatim>\<open>get_entry_prices\<close> over the items of a table: the first range that
  contains the price decides. \<open>self_entry_size_usd\<close> is \<^verbatim>\<open>self.entry_size_usd\<close>.
\<close>

fun entry_prices_in :: "((rat \<times> rat) \<times> (int \<times> int)) list \<Rightarrow> decimal \<Rightarrow> rat \<Rightarrow> entry_config option" where
  "entry_prices_in [] self_entry_size_usd strong_team_price_cents = None"
| "entry_prices_in (((min_price, max_price), (entry1, entry2)) # items) self_entry_size_usd
       strong_team_price_cents =
     (if min_price \<le> strong_team_price_cents \<and> strong_team_price_cents \<le> max_price
      then Some \<lparr>entry1_cents = entry1,
                 entry1_price = dec_div (of_int entry1) 100,
                 entry2_cents = entry2,
                 entry2_price = dec_div (of_int entry2) 100,
                 entry_size_usd = self_entry_size_usd\<rparr>
      else entry_prices_in items self_entry_size_usd strong_team_price_cents)"

definition get_entry_prices :: "decimal \<Rightarrow> rat \<Rightarrow> entry_config option" where
  "get_entry_prices self_entry_size_usd strong_team_price_cents =
     entry_prices_in STRATEGY_TABLE self_entry_size_usd strong_team_price_cents"

text \<open>A market as the scanner supplies it (the keys the strategy reads).\<close>

record team =
  team_token_id :: string
  team_name :: string
  team_price_cents :: rat

record market =
  slug :: string
  question :: string
  strong_team :: team

text \<open>An order specification, the dictionary \<^verbatim>\<open>calculate_orders\<close> builds.\<close>

record order_spec =
  order_type :: string
  spec_token_id :: string
  spec_team_name :: string
  spec_price :: decimal
  spec_price_cents :: int
  amount_usd :: decimal
  spec_entry_number :: int
  market_question :: string
  spec_market_slug :: string

definition calculate_orders :: "decimal \<Rightarrow> market \<Rightarrow> order_spec list option" where
  "calculate_orders self_entry_size_usd market =
     (let strong_price_cents = team_price_cents (strong_team market)
      in case get_entry_prices self_entry_size_usd strong_price_cents of
           None \<Rightarrow> None
         | Some entry_config \<Rightarrow>
             (let strong_team_token_id = team_token_id (strong_team market)
              in Some
                [\<lparr>order_type = ''limit_buy'',
                  spec_token_id = strong_team_token_id,
                  spec_team_name = team_name (strong_team market),
                  spec_price = entry1_price entry_config,
                  spec_price_cents = entry1_cents entry_config,
                  amount_usd = self_entry_size_usd,
                  spec_entry_number = 1,
                  market_question = question market,
                  spec_market_slug = slug market\<rparr>,
                 \<lparr>order_type = ''limit_buy'',
                  spec_token_id = strong_team_token_id,
                  spec_team_name = team_name (strong_team market),
                  spec_price = entry2_price entry_config,
                  spec_price_cents = entry2_cents entry_config,
                  amount_usd = self_entry_size_usd,
                  spec_entry_number = 2,
                  market_question = question market,
                  spec_market_slug = slug market\<rparr>]))"

text \<open>A filled entry (\<^verbatim>\<open>entry_number\<close>, \<^verbatim>\<open>price\<close>) and a take-profit order specification.\<close>

record filled_entry =
  fe_entry_number :: int
  fe_price :: decimal

record tp_order =
  tp_price :: decimal
  tp_size :: decimal
  tp_label :: string

text \<open>
  The loop that reads the entry prices off the filled orders, for entry 1: the last filled
  entry numbered 1 decides, \<open>None\<close> when there is none.
\<close>

fun entry1_price_of :: "filled_entry list \<Rightarrow> decimal option \<Rightarrow> decimal option" where
  "entry1_price_of [] e1_price = e1_price"
| "entry1_price_of (entry # filled_entries) e1_price =
     entry1_price_of filled_entries
       (if fe_entry_number entry = 1 then Some (fe_price entry) else e1_price)"

text \<open>
  \<^verbatim>\<open>calculate_take_profit_orders\<close>. The function also assigns \<^verbatim>\<open>entry2_price\<close> and never
  reads it. In the second branch \<open>1 \<in> entry_numbers\<close>, so the loop above has assigned
  \<^verbatim>\<open>entry1_price\<close> (here \<open>e1_price\<close>): its \<open>None\<close> case cannot be reached.
\<close>

definition calculate_take_profit_orders :: "filled_entry list \<Rightarrow> rat \<Rightarrow> decimal \<Rightarrow> tp_order list" where
  "calculate_take_profit_orders filled_entries strong_team_start_price_cents total_position_size =
     (let entry_numbers = set (map fe_entry_number filled_entries);
          e1_price = entry1_price_of filled_entries None;
          strong_start_decimal = dec_div strong_team_start_price_cents 100;
          half_position = dec_div total_position_size 2
      in if 1 \<in> entry_numbers \<and> 2 \<notin> entry_numbers then
           [\<lparr>tp_price = strong_start_decimal, tp_size = half_position,
             tp_label = ''TP1 (50% at start price)''\<rparr>,
            \<lparr>tp_price = 96 / 100, tp_size = half_position,
             tp_label = ''TP2 (50% at 0.96)''\<rparr>]
         else if 1 \<in> entry_numbers \<and> 2 \<in> entry_numbers then
           (case e1_price of
              Some e1 \<Rightarrow>
                [\<lparr>tp_price = e1, tp_size = half_position,
                  tp_label = ''TP1 (50% at Entry1 price)''\<rparr>,
                 \<lparr>tp_price = strong_start_decimal, tp_size = half_position,
                  tp_label = ''TP2 (50% at start price)''\<rparr>]
            | None \<Rightarrow> [])
         else if 2 \<in> entry_numbers \<and> 1 \<notin> entry_numbers then
           [\<lparr>tp_price = strong_start_decimal, tp_size = half_position,
             tp_label = ''TP1 (50% at start price)''\<rparr>,
            \<lparr>tp_price = 96 / 100, tp_size = half_position,
             tp_label = ''TP2 (50% at 0.96)''\<rparr>]
         else [])"


section \<open>Trade executor (\<^verbatim>\<open>src/execution/trade_executor.py\<close>)\<close>

subsection \<open>Data\<close>

text \<open>
  The dictionary of a tracked order, as the order monitor returns it and as the arguments of
  \<^verbatim>\<open>add_order\<close> give it. An absent \<^verbatim>\<open>entry_number\<close> or \<^verbatim>\<open>strong_team_price_cents\<close>
  is \<open>None\<close>. \<^verbatim>\<open>side\<close> is the string the code compares with \<^verbatim>\<open>'BUY'\<close>.
\<close>

record order_data =
  order_id :: string
  token_id :: string
  market_slug :: string
  side :: string
  price :: decimal
  size :: decimal
  entry_number :: "int option"
  strong_team_price_cents :: "rat option"

text \<open>An open order as the exchange lists it; the code reads every key with \<^verbatim>\<open>.get\<close>.\<close>

record open_order =
  oo_id :: "string option"
  oo_asset_id :: "string option"
  oo_side :: "string option"
  oo_original_size :: "decimal option"

text \<open>
  A call of a collaborator either raises or returns. A placement response either carries
  an \<^verbatim>\<open>orderID\<close> or does not (an empty response, or one without the key).
\<close>

datatype 'a outcome = Raises | Returns 'a

datatype response = NoOrderId | OrderId string

subsection \<open>Collaborators\<close>

text \<open>
  The exchange client, the order monitor, the market scanner and the market queue are the
  objects the executor is constructed with. Their code is not part of the executor, so they
  are parameters of the model: the client, the scanner and the queue act on an exchange
  state \<open>'w\<close>, the monitor on a ledger \<open>'l\<close>, and nothing is assumed about what they do.
  Every call of the client, the scanner and the queue may raise, and so may every call of
  the monitor that changes the ledger; a call of the monitor that raises leaves the ledger
  as it was. The reads of the ledger return.
\<close>

record 'w polymarket_client =
  get_open_orders :: "'w \<Rightarrow> open_order list outcome \<times> 'w"
  get_token_balance :: "string \<Rightarrow> 'w \<Rightarrow> decimal outcome \<times> 'w"
  place_limit_buy :: "string \<Rightarrow> decimal \<Rightarrow> decimal \<Rightarrow> 'w \<Rightarrow> response outcome \<times> 'w"
  place_limit_sell :: "string \<Rightarrow> decimal \<Rightarrow> decimal \<Rightarrow> 'w \<Rightarrow> response outcome \<times> 'w"

record 'l order_monitor =
  tracked_orders_keys :: "'l \<Rightarrow> string list"
  update_order_status :: "string \<Rightarrow> bool \<Rightarrow> 'l \<Rightarrow> 'l outcome"
  get_disappeared_orders :: "'l \<Rightarrow> order_data list"
  remove_order :: "string \<Rightarrow> 'l \<Rightarrow> 'l outcome"
  mark_order_filled :: "string \<Rightarrow> 'l \<Rightarrow> 'l outcome"
  add_order :: "order_data \<Rightarrow> 'l \<Rightarrow> 'l outcome"
  mark_order_recreated :: "string \<Rightarrow> string \<Rightarrow> 'l \<Rightarrow> 'l outcome"
  get_markets_with_orders :: "'l \<Rightarrow> string list"
  get_active_orders_by_market :: "string \<Rightarrow> 'l \<Rightarrow> order_data list"

text \<open>\<^verbatim>\<open>self\<close>: the scanner (\<^verbatim>\<open>is_market_active\<close>) and the queue (\<^verbatim>\<open>remove_market\<close>) are optional.\<close>

record ('l, 'w) trade_executor =
  client :: "'w polymarket_client"
  order_monitor :: "'l order_monitor"
  market_scanner :: "(string \<Rightarrow> 'w \<Rightarrow> bool outcome \<times> 'w) option"
  market_queue :: "(string \<Rightarrow> 'w \<Rightarrow> unit outcome \<times> 'w) option"

text \<open>
  The state the executor works on: the monitor's ledger, the exchange, and the list of the
  calls made so far on the collaborators (every call of the client, the scanner and the
  queue, and every call that changes the ledger, whether it returned or raised), in the
  order they were made.
\<close>

datatype call =
    GetOpenOrders
  | GetTokenBalance string
  | PlaceLimitBuy string decimal decimal
  | PlaceLimitSell string decimal decimal
  | IsMarketActive string
  | RemoveMarket string
  | UpdateOrderStatus string bool
  | RemoveOrder string
  | MarkOrderFilled string
  | AddOrder order_data
  | MarkOrderRecreated string string

record ('l, 'w) state =
  ledger :: 'l
  world :: 'w
  calls :: "call list"

definition logged :: "call \<Rightarrow> ('l, 'w) state \<Rightarrow> ('l, 'w) state" where
  "logged c st = st\<lparr>calls := calls st @ [c]\<rparr>"

text \<open>A call of the client, the scanner or the queue.\<close>

definition call_client :: "call \<Rightarrow> ('w \<Rightarrow> 'a outcome \<times> 'w) \<Rightarrow> ('l, 'w) state \<Rightarrow> 'a outcome \<times> ('l, 'w) state" where
  "call_client c f st = (let (r, w) = f (world st) in (r, logged c (st\<lparr>world := w\<rparr>)))"

text \<open>A call of the monitor that changes the ledger: when it raises, the ledger is as before.\<close>

definition call_monitor :: "call \<Rightarrow> ('l \<Rightarrow> 'l outcome) \<Rightarrow> ('l, 'w) state \<Rightarrow> unit outcome \<times> ('l, 'w) state" where
  "call_monitor c f st =
     (case f (ledger st) of
        Raises \<Rightarrow> (Raises, logged c st)
      | Returns l \<Rightarrow> (Returns (), logged c (st\<lparr>ledger := l\<rparr>)))"

definition call_add_order :: "('l, 'w) trade_executor \<Rightarrow> order_data \<Rightarrow> ('l, 'w) state \<Rightarrow> unit outcome \<times> ('l, 'w) state" where
  "call_add_order self args st =
     call_monitor (AddOrder args) (add_order (order_monitor self) args) st"

subsection \<open>\<^verbatim>\<open>place_entry_orders\<close>\<close>

text \<open>
  One pass of the loop body, inside its \<^verbatim>\<open>try\<close>: every exception ends the pass and the loop
  goes on. The size \<^verbatim>\<open>amount_usd / price\<close> raises when the price is zero, after the order
  id has been appended.
\<close>

definition place_entry_order :: "('l, 'w) trade_executor \<Rightarrow> rat option \<Rightarrow> order_spec \<Rightarrow> string list \<times> ('l, 'w) state \<Rightarrow> string list \<times> ('l, 'w) state" where
  "place_entry_order self strong_price order_spec acc =
     (let (placed_order_ids, st) = acc
      in case call_client (PlaceLimitBuy (spec_token_id order_spec) (spec_price order_spec) (amount_usd order_spec))
                (place_limit_buy (client self) (spec_token_id order_spec) (spec_price order_spec) (amount_usd order_spec)) st of
           (Raises, st1) \<Rightarrow> (placed_order_ids, st1)
         | (Returns NoOrderId, st1) \<Rightarrow> (placed_order_ids, st1)
         | (Returns (OrderId oid), st1) \<Rightarrow>
             if spec_price order_spec = 0 then (placed_order_ids @ [oid], st1)
             else (placed_order_ids @ [oid],
                   snd (call_add_order self
                     \<lparr>order_id = oid,
                      token_id = spec_token_id order_spec,
                      market_slug = spec_market_slug order_spec,
                      side = ''BUY'',
                      price = spec_price order_spec,
                      size = dec_div (amount_usd order_spec) (spec_price order_spec),
                      entry_number = Some (spec_entry_number order_spec),
                      strong_team_price_cents = strong_price\<rparr> st1)))"

definition place_entry_orders :: "('l, 'w) trade_executor \<Rightarrow> order_spec list \<Rightarrow> rat option \<Rightarrow> ('l, 'w) state \<Rightarrow> string list \<times> ('l, 'w) state" where
  "place_entry_orders self orders strong_price st =
     foldl (\<lambda>acc order_spec. place_entry_order self strong_price order_spec acc) ([], st) orders"

subsection \<open>\<^verbatim>\<open>place_take_profit_orders\<close>\<close>

definition place_take_profit_orders :: "('l, 'w) trade_executor \<Rightarrow> string \<Rightarrow> string \<Rightarrow> string \<Rightarrow> decimal \<Rightarrow> decimal \<Rightarrow> ('l, 'w) state \<Rightarrow> string option \<times> ('l, 'w) state" where
  "place_take_profit_orders self tok mslug team_nm tp_pr position_size st =
     (case call_client (PlaceLimitSell tok tp_pr position_size)
             (place_limit_sell (client self) tok tp_pr position_size) st of
        (Raises, st1) \<Rightarrow> (None, st1)
      | (Returns NoOrderId, st1) \<Rightarrow> (None, st1)
      | (Returns (OrderId oid), st1) \<Rightarrow>
          (case call_add_order self
                  \<lparr>order_id = oid, token_id = tok, market_slug = mslug, side = ''SELL'',
                   price = tp_pr, size = position_size,
                   entry_number = None, strong_team_price_cents = None\<rparr> st1 of
             (Raises, st2) \<Rightarrow> (None, st2)
           | (Returns _, st2) \<Rightarrow> (Some oid, st2)))"

subsection \<open>\<^verbatim>\<open>check_and_recreate_orders\<close>\<close>

text \<open>\<^verbatim>\<open>{order.get('id') for order in open_orders if order.get('id')}\<close>\<close>

definition open_order_ids_of :: "open_order list \<Rightarrow> string list" where
  "open_order_ids_of open_orders =
     List.map_filter (\<lambda>order. case oo_id order of
                                None \<Rightarrow> None
                              | Some i \<Rightarrow> if i = [] then None else Some i) open_orders"

text \<open>
  The status update of every tracked order, over the list of the keys taken before the
  loop. The loop is not inside a \<^verbatim>\<open>try\<close>: when \<^verbatim>\<open>update_order_status\<close> raises, the function
  raises.
\<close>

fun update_statuses :: "('l, 'w) trade_executor \<Rightarrow> string list \<Rightarrow> string list \<Rightarrow> ('l, 'w) state \<Rightarrow> unit outcome \<times> ('l, 'w) state" where
  "update_statuses self open_order_ids [] st = (Returns (), st)"
| "update_statuses self open_order_ids (oid # keys) st =
     (let still_exists = oid \<in> set open_order_ids
      in case call_monitor (UpdateOrderStatus oid still_exists)
                (update_order_status (order_monitor self) oid still_exists) st of
           (Raises, st1) \<Rightarrow> (Raises, st1)
         | (Returns _, st1) \<Rightarrow> update_statuses self open_order_ids keys st1)"

text \<open>
  The batch check: one query of the scanner for each market of \<open>unique_markets\<close>; the
  markets it reports inactive are the ended markets. The loop is not inside a \<^verbatim>\<open>try\<close>:
  when a query raises, the function raises and the remaining markets are not queried.
\<close>

fun batch_check :: "(string \<Rightarrow> 'w \<Rightarrow> bool outcome \<times> 'w) \<Rightarrow> string list \<Rightarrow> ('l, 'w) state \<Rightarrow> string list outcome \<times> ('l, 'w) state" where
  "batch_check scanner [] st = (Returns [], st)"
| "batch_check scanner (mslug # unique_markets) st =
     (case call_client (IsMarketActive mslug) (scanner mslug) st of
        (Raises, st1) \<Rightarrow> (Raises, st1)
      | (Returns active, st1) \<Rightarrow>
          (case batch_check scanner unique_markets st1 of
             (Raises, st2) \<Rightarrow> (Raises, st2)
           | (Returns ended_markets, st2) \<Rightarrow>
               (Returns (if \<not> active then mslug # ended_markets else ended_markets), st2)))"

text \<open>
  The set \<^verbatim>\<open>unique_markets\<close>. Python leaves the order in which a set is walked open; the
  model walks the distinct markets in the order of the disappeared orders.
\<close>

definition unique_markets_of :: "order_data list \<Rightarrow> string list" where
  "unique_markets_of disappeared = remdups (map market_slug disappeared)"

text \<open>\<^verbatim>\<open>ended_markets\<close>: empty when no scanner is configured.\<close>

definition ended_markets_of :: "('l, 'w) trade_executor \<Rightarrow> order_data list \<Rightarrow> ('l, 'w) state \<Rightarrow> string list outcome \<times> ('l, 'w) state" where
  "ended_markets_of self disappeared st =
     (case market_scanner self of
        None \<Rightarrow> (Returns [], st)
      | Some scanner \<Rightarrow> batch_check scanner (unique_markets_of disappeared) st)"

text \<open>
  The placement that recreates a disappeared order: a BUY is placed with the notional
  \<^verbatim>\<open>price * size\<close>, any other side with \<^verbatim>\<open>place_limit_sell\<close> and the size.
\<close>

definition resubmit_order :: "('l, 'w) trade_executor \<Rightarrow> order_data \<Rightarrow> ('l, 'w) state \<Rightarrow> response outcome \<times> ('l, 'w) state" where
  "resubmit_order self od st =
     (if side od = ''BUY'' then
        call_client (PlaceLimitBuy (token_id od) (price od) (dec_mul (price od) (size od)))
          (place_limit_buy (client self) (token_id od) (price od) (dec_mul (price od) (size od))) st
      else
        call_client (PlaceLimitSell (token_id od) (price od) (size od))
          (place_limit_sell (client self) (token_id od) (price od) (size od)) st)"

text \<open>
  The arguments of the \<^verbatim>\<open>add_order\<close> call that tracks the new order:
  \<^verbatim>\<open>strong_team_price_cents\<close> is not passed, so it takes its default.
\<close>

definition replacement_order :: "order_data \<Rightarrow> string \<Rightarrow> order_data" where
  "replacement_order od new_order_id =
     \<lparr>order_id = new_order_id,
      token_id = token_id od,
      market_slug = market_slug od,
      side = side od,
      price = price od,
      size = size od,
      entry_number = entry_number od,
      strong_team_price_cents = None\<rparr>"

text \<open>
  The body of the loop over the disappeared orders, on the executor's state and the two
  counters \<open>(recreated_count, skipped_ended_markets)\<close>. Everything is inside the \<^verbatim>\<open>try\<close>:
  a raise of any call ends the pass with what has been done so far, and the loop goes on.
  \<^verbatim>\<open>skipped_ended_markets\<close> is incremented before \<^verbatim>\<open>remove_order\<close> is called.
\<close>

definition recreate_order :: "('l, 'w) trade_executor \<Rightarrow> string list \<Rightarrow> order_data \<Rightarrow> ('l, 'w) state \<times> nat \<times> nat \<Rightarrow> ('l, 'w) state \<times> nat \<times> nat" where
  "recreate_order self ended_markets od acc =
     (let (st, recreated_count, skipped_ended_markets) = acc
      in if market_slug od \<in> set ended_markets then
           (case call_monitor (RemoveOrder (order_id od))
                   (remove_order (order_monitor self) (order_id od)) st of
              (Raises, st1) \<Rightarrow> (st1, recreated_count, skipped_ended_markets + 1)
            | (Returns _, st1) \<Rightarrow>
                (case market_queue self of
                   None \<Rightarrow> (st1, recreated_count, skipped_ended_markets + 1)
                 | Some queue \<Rightarrow>
                     (snd (call_client (RemoveMarket (market_slug od)) (queue (market_slug od)) st1),
                      recreated_count, skipped_ended_markets + 1)))
         else
           (case call_client (GetTokenBalance (token_id od))
                   (get_token_balance (client self) (token_id od)) st of
              (Raises, st1) \<Rightarrow> (st1, recreated_count, skipped_ended_markets)
            | (Returns existing_balance, st1) \<Rightarrow>
                if existing_balance > 1 / 10 then
                  (snd (call_monitor (MarkOrderFilled (order_id od))
                          (mark_order_filled (order_monitor self) (order_id od)) st1),
                   recreated_count, skipped_ended_markets)
                else
                  (case resubmit_order self od st1 of
                     (Raises, st2) \<Rightarrow> (st2, recreated_count, skipped_ended_markets)
                   | (Returns NoOrderId, st2) \<Rightarrow> (st2, recreated_count, skipped_ended_markets)
                   | (Returns (OrderId new_order_id), st2) \<Rightarrow>
                       (case call_add_order self (replacement_order od new_order_id) st2 of
                          (Raises, st3) \<Rightarrow> (st3, recreated_count, skipped_ended_markets)
                        | (Returns _, st3) \<Rightarrow>
                            (case call_monitor (MarkOrderRecreated (order_id od) new_order_id)
                                    (mark_order_recreated (order_monitor self) (order_id od)
                                       new_order_id) st3 of
                               (Raises, st4) \<Rightarrow> (st4, recreated_count, skipped_ended_markets)
                             | (Returns _, st4) \<Rightarrow>
                                 (st4, recreated_count + 1, skipped_ended_markets))))))"

definition recreate_loop :: "('l, 'w) trade_executor \<Rightarrow> string list \<Rightarrow> order_data list \<Rightarrow> ('l, 'w) state \<times> nat \<times> nat \<Rightarrow> ('l, 'w) state \<times> nat \<times> nat" where
  "recreate_loop self ended_markets disappeared acc =
     foldl (\<lambda>a od. recreate_order self ended_markets od a) acc disappeared"

text \<open>The function from the list of the disappeared orders on.\<close>

definition recreate_disappeared :: "('l, 'w) trade_executor \<Rightarrow> order_data list \<Rightarrow> ('l, 'w) state \<Rightarrow> nat outcome \<times> ('l, 'w) state" where
  "recreate_disappeared self disappeared st =
     (if disappeared = [] then (Returns 0, st)
      else
        (case ended_markets_of self disappeared st of
           (Raises, st3) \<Rightarrow> (Raises, st3)
         | (Returns ended_markets, st3) \<Rightarrow>
             (let (st4, recreated_count, skipped_ended_markets) =
                    recreate_loop self ended_markets disappeared (st3, 0, 0)
              in (Returns recreated_count, st4))))"

definition check_and_recreate_orders :: "('l, 'w) trade_executor \<Rightarrow> ('l, 'w) state \<Rightarrow> nat outcome \<times> ('l, 'w) state" where
  "check_and_recreate_orders self st =
     (case call_client GetOpenOrders (get_open_orders (client self)) st of
        (Raises, st1) \<Rightarrow> (Raises, st1)
      | (Returns open_orders, st1) \<Rightarrow>
          (case update_statuses self (open_order_ids_of open_orders)
                  (tracked_orders_keys (order_monitor self) (ledger st1)) st1 of
             (Raises, st2) \<Rightarrow> (Raises, st2)
           | (Returns _, st2) \<Rightarrow>
               recreate_disappeared self
                 (get_disappeared_orders (order_monitor self) (ledger st2)) st2))"

text \<open>
  An order is successfully recreated by the pass that starts in state \<open>st\<close> when the pass
  reaches its last line: the market has not ended, the balance query returns at most 0.1,
  the placement returns an order id, and \<^verbatim>\<open>add_order\<close> and \<^verbatim>\<open>mark_order_recreated\<close> return.
\<close>

definition successfully_recreated :: "('l, 'w) trade_executor \<Rightarrow> string list \<Rightarrow> order_data \<Rightarrow> ('l, 'w) state \<Rightarrow> bool" where
  "successfully_recreated self ended_markets od st =
     (market_slug od \<notin> set ended_markets \<and>
      (case call_client (GetTokenBalance (token_id od))
              (get_token_balance (client self) (token_id od)) st of
         (Raises, st1) \<Rightarrow> False
       | (Returns existing_balance, st1) \<Rightarrow>
           existing_balance \<le> 1 / 10 \<and>
           (case resubmit_order self od st1 of
              (Raises, st2) \<Rightarrow> False
            | (Returns NoOrderId, st2) \<Rightarrow> False
            | (Returns (OrderId new_order_id), st2) \<Rightarrow>
                (case add_order (order_monitor self) (replacement_order od new_order_id) (ledger st2) of
                   Raises \<Rightarrow> False
                 | Returns l \<Rightarrow>
                     mark_order_recreated (order_monitor self) (order_id od) new_order_id l
                       \<noteq> Raises))))"

subsection \<open>\<^verbatim>\<open>check_filled_positions_and_set_tp\<close>\<close>

text \<open>
  \<^verbatim>\<open>tokens_in_market\<close>: the tracked BUY orders of a market grouped by token, a dictionary in
  insertion order. A token's group is created by its first BUY order and takes the
  \<^verbatim>\<open>strong_team_price_cents\<close> of that order; later orders are appended to \<^verbatim>\<open>buy_orders\<close>.
\<close>

type_synonym token_group = "string \<times> order_data list \<times> rat option"

definition add_buy_order :: "order_data \<Rightarrow> token_group list \<Rightarrow> token_group list" where
  "add_buy_order od tokens =
     (if side od \<noteq> ''BUY'' then tokens
      else
        (let tokens1 =
               (if token_id od \<notin> fst ` set tokens
                then tokens @ [(token_id od, [], strong_team_price_cents od)]
                else tokens)
         in map (\<lambda>(tok, buy_orders, strong_price).
                   if tok = token_id od then (tok, buy_orders @ [od], strong_price)
                   else (tok, buy_orders, strong_price)) tokens1))"

definition tokens_in_market :: "order_data list \<Rightarrow> token_group list" where
  "tokens_in_market market_orders = foldl (\<lambda>tokens od. add_buy_order od tokens) [] market_orders"

text \<open>The number of the token's BUY orders in the exchange's list of open orders.\<close>

definition open_buy_count :: "open_order list \<Rightarrow> string \<Rightarrow> nat" where
  "open_buy_count all_open_orders tok =
     length (filter (\<lambda>order. oo_asset_id order = Some tok \<and> oo_side order = Some ''BUY'')
               all_open_orders)"

text \<open>\<^verbatim>\<open>filled_entries_count = total_entries - open_buy_count\<close>, a Python integer.\<close>

definition filled_entries_count :: "order_data list \<Rightarrow> open_order list \<Rightarrow> string \<Rightarrow> int" where
  "filled_entries_count buy_orders all_open_orders tok =
     int (length buy_orders) - int (open_buy_count all_open_orders tok)"

text \<open>
  The sum of the sizes of the token's open SELL orders (\<^verbatim>\<open>original_size\<close>, 0 when the key
  is absent): \<^verbatim>\<open>sum\<close> adds from the left, starting at 0.
\<close>

definition existing_sell_size :: "open_order list \<Rightarrow> string \<Rightarrow> decimal" where
  "existing_sell_size all_open_orders tok =
     foldl dec_add 0
       (map (\<lambda>order. case oo_original_size order of None \<Rightarrow> 0 | Some s \<Rightarrow> s)
          (filter (\<lambda>order. oo_asset_id order = Some tok \<and> oo_side order = Some ''SELL'')
             all_open_orders))"

text \<open>
  The list \<^verbatim>\<open>filled_entries\<close> built from the orders taken as filled:
  \<^verbatim>\<open>order_data.get('entry_number', i + 1)\<close> and the order's price.
\<close>

definition filled_entries_of :: "order_data list \<Rightarrow> filled_entry list" where
  "filled_entries_of orders =
     map (\<lambda>(i, od). \<lparr>fe_entry_number = (case entry_number od of None \<Rightarrow> int i + 1 | Some n \<Rightarrow> n),
                      fe_price = price od\<rparr>)
       (enumerate 0 orders)"

text \<open>
  The loop that marks the orders taken as filled. It is not inside a \<^verbatim>\<open>try\<close>: when
  \<^verbatim>\<open>mark_order_filled\<close> raises, the function raises.
\<close>

fun mark_filled_orders :: "('l, 'w) trade_executor \<Rightarrow> order_data list \<Rightarrow> ('l, 'w) state \<Rightarrow> unit outcome \<times> ('l, 'w) state" where
  "mark_filled_orders self [] st = (Returns (), st)"
| "mark_filled_orders self (od # orders) st =
     (case call_monitor (MarkOrderFilled (order_id od))
             (mark_order_filled (order_monitor self) (order_id od)) st of
        (Raises, st1) \<Rightarrow> (Raises, st1)
      | (Returns _, st1) \<Rightarrow> mark_filled_orders self orders st1)"

text \<open>The loop that places the take-profit orders; \<^verbatim>\<open>if tp_order_id:\<close> counts a non-empty id.\<close>

definition place_tp_specs :: "('l, 'w) trade_executor \<Rightarrow> string \<Rightarrow> string \<Rightarrow> tp_order list \<Rightarrow> ('l, 'w) state \<times> nat \<Rightarrow> ('l, 'w) state \<times> nat" where
  "place_tp_specs self tok mslug tp_specs acc =
     foldl (\<lambda>(st, tp_placed) tp_spec.
              case place_take_profit_orders self tok mslug (tp_label tp_spec) (tp_price tp_spec)
                     (tp_size tp_spec) st of
                (None, st1) \<Rightarrow> (st1, tp_placed)
              | (Some tp_order_id, st1) \<Rightarrow>
                  (st1, if tp_order_id = [] then tp_placed else tp_placed + 1))
       acc tp_specs"

text \<open>
  The body of the loop over the tokens of a market. \<^verbatim>\<open>get_token_balance\<close> and
  \<^verbatim>\<open>mark_order_filled\<close> are not inside a \<^verbatim>\<open>try\<close> here: when one of them raises, the function
  raises. \<^verbatim>\<open>if strong_team_price_cents:\<close> is false for an absent price and for the price 0.
\<close>

definition check_token :: "('l, 'w) trade_executor \<Rightarrow> open_order list \<Rightarrow> string \<Rightarrow> token_group \<Rightarrow> ('l, 'w) state \<times> nat \<Rightarrow> nat outcome \<times> ('l, 'w) state" where
  "check_token self all_open_orders mslug token_data acc =
     (let (st, tp_placed) = acc;
          (tok, buy_orders, strong_price) = token_data;
          filled_count = filled_entries_count buy_orders all_open_orders tok
      in case call_client (GetTokenBalance tok) (get_token_balance (client self) tok) st of
           (Raises, st1) \<Rightarrow> (Raises, st1)
         | (Returns position_size, st1) \<Rightarrow>
             if position_size \<le> 0 then (Returns tp_placed, st1)
             else
               (let unsold_position = dec_sub position_size (existing_sell_size all_open_orders tok)
                in if unsold_position \<le> 1 / 100 then (Returns tp_placed, st1)
                   else
                     (let filled_orders = py_prefix filled_count buy_orders;
                          filled_entries = filled_entries_of filled_orders
                      in case mark_filled_orders self filled_orders st1 of
                           (Raises, st2) \<Rightarrow> (Raises, st2)
                         | (Returns _, st2) \<Rightarrow>
                             (case strong_price of
                                None \<Rightarrow> (Returns tp_placed, st2)
                              | Some strong_cents \<Rightarrow>
                                  if strong_cents = 0 then (Returns tp_placed, st2)
                                  else
                                    (let tp_specs = calculate_take_profit_orders filled_entries
                                                      strong_cents unsold_position;
                                         (st3, tp_placed') = place_tp_specs self tok mslug tp_specs
                                                                (st2, tp_placed)
                                     in (Returns tp_placed', st3))))))"

text \<open>The loop over the tokens of a market, and the loop over the markets.\<close>

fun check_tokens :: "('l, 'w) trade_executor \<Rightarrow> open_order list \<Rightarrow> string \<Rightarrow> token_group list \<Rightarrow> ('l, 'w) state \<times> nat \<Rightarrow> nat outcome \<times> ('l, 'w) state" where
  "check_tokens self all_open_orders mslug [] acc = (Returns (snd acc), fst acc)"
| "check_tokens self all_open_orders mslug (token_data # tokens) acc =
     (case check_token self all_open_orders mslug token_data acc of
        (Raises, st1) \<Rightarrow> (Raises, st1)
      | (Returns tp_placed, st1) \<Rightarrow> check_tokens self all_open_orders mslug tokens (st1, tp_placed))"

fun check_markets :: "('l, 'w) trade_executor \<Rightarrow> string set \<Rightarrow> open_order list \<Rightarrow> string list \<Rightarrow> ('l, 'w) state \<times> nat \<Rightarrow> nat outcome \<times> ('l, 'w) state" where
  "check_markets self already_profitable_markets all_open_orders [] acc = (Returns (snd acc), fst acc)"
| "check_markets self already_profitable_markets all_open_orders (mslug # markets) acc =
     (if mslug \<in> already_profitable_markets
      then check_markets self already_profitable_markets all_open_orders markets acc
      else
        (let market_orders = get_active_orders_by_market (order_monitor self) mslug (ledger (fst acc))
         in case check_tokens self all_open_orders mslug (tokens_in_market market_orders) acc of
              (Raises, st1) \<Rightarrow> (Raises, st1)
            | (Returns tp_placed, st1) \<Rightarrow>
                check_markets self already_profitable_markets all_open_orders markets (st1, tp_placed)))"

definition check_filled_positions_and_set_tp :: "('l, 'w) trade_executor \<Rightarrow> string set \<Rightarrow> ('l, 'w) state \<Rightarrow> nat outcome \<times> ('l, 'w) state" where
  "check_filled_positions_and_set_tp self already_profitable_markets st =
     (case call_client GetOpenOrders (get_open_orders (client self)) st of
        (Raises, st1) \<Rightarrow> (Raises, st1)
      | (Returns all_open_orders, st1) \<Rightarrow>
          check_markets self already_profitable_markets all_open_orders
            (get_markets_with_orders (order_monitor self) (ledger st1)) (st1, 0))"


subsection \<open>Reading the list of calls\<close>

text \<open>
  The markets the scanner was asked about, the orders marked as recreated (old id, new id),
  the orders marked as filled, and the placements, each in the order of the calls.
\<close>

definition scanner_queries :: "call list \<Rightarrow> string list" where
  "scanner_queries cs = List.map_filter (\<lambda>c. case c of IsMarketActive m \<Rightarrow> Some m | _ \<Rightarrow> None) cs"

definition recreations :: "call list \<Rightarrow> (string \<times> string) list" where
  "recreations cs =
     List.map_filter (\<lambda>c. case c of MarkOrderRecreated a b \<Rightarrow> Some (a, b) | _ \<Rightarrow> None) cs"

definition filled_marks :: "call list \<Rightarrow> string list" where
  "filled_marks cs = List.map_filter (\<lambda>c. case c of MarkOrderFilled a \<Rightarrow> Some a | _ \<Rightarrow> None) cs"

definition placements :: "call list \<Rightarrow> call list" where
  "placements cs =
     filter (\<lambda>c. case c of PlaceLimitBuy _ _ _ \<Rightarrow> True | PlaceLimitSell _ _ _ \<Rightarrow> True | _ \<Rightarrow> False) cs"

text \<open>
  The calls that open a pass of the loop over the disappeared orders: \<^verbatim>\<open>remove_order\<close> for an
  order of an ended market, \<^verbatim>\<open>get_token_balance\<close> for any other order.
\<close>

definition pass_starts :: "call list \<Rightarrow> call list" where
  "pass_starts cs =
     filter (\<lambda>c. case c of RemoveOrder _ \<Rightarrow> True | GetTokenBalance _ \<Rightarrow> True | _ \<Rightarrow> False) cs"

text \<open>
  What the grouping loop establishes for a token group of a market's orders: its
  \<^verbatim>\<open>buy_orders\<close> are the BUY orders of the token in the order of the list, there is at
  least one, and its price is the \<^verbatim>\<open>strong_team_price_cents\<close> of the first of them.
\<close>

definition group_ok :: "order_data list \<Rightarrow> token_group \<Rightarrow> bool" where
  "group_ok xs g = (case g of (tok, bo, sp) \<Rightarrow>
      bo = filter (\<lambda>od. side od = ''BUY'' \<and> token_id od = tok) xs \<and> bo \<noteq> []
      \<and> sp = strong_team_price_cents (hd bo))"

section \<open>The order ledger of the specification\<close>

text \<open>
  The executor's theorems hold for every order monitor. The examples need one to run on;
  the class \<^verbatim>\<open>OrderMonitor\<close> (\<^verbatim>\<open>src/monitor/order_monitor.py\<close>) is not among the sources,
  so the ledger below follows section 4.2 of the specification (OrderLedger), with the
  statuses of its section 3. The ledger keeps the orders in the order they were added.
\<close>

datatype order_status = OPEN | FILLED | DISAPPEARED | RECREATED | REMOVED

record tracked_order =
  data :: order_data
  status :: order_status
  replaced_by :: "string option"

type_synonym order_ledger = "tracked_order list"

text \<open>
  Modelled from the spec: \<^verbatim>\<open>OrderMonitor.add_order\<close> is missing from the sources.
  \<open>add(order)\<close> fails if the order id is already present; otherwise the order is recorded
  as OPEN.
\<close>

definition ledger_add_order :: "order_data \<Rightarrow> order_ledger \<Rightarrow> order_ledger outcome" where
  "ledger_add_order args l =
     (if order_id args \<in> set (map (order_id \<circ> data) l) then Raises
      else Returns (l @ [\<lparr>data = args, status = OPEN, replaced_by = None\<rparr>]))"

text \<open>
  Modelled from the spec: \<^verbatim>\<open>OrderMonitor.update_order_status\<close> is missing from the sources.
  \<open>setPresence(order_id, stillOpenOnExchange)\<close>: if not present and the order is currently
  OPEN, it becomes DISAPPEARED.
\<close>

definition ledger_update_order_status :: "string \<Rightarrow> bool \<Rightarrow> order_ledger \<Rightarrow> order_ledger" where
  "ledger_update_order_status oid still_exists l =
     map (\<lambda>t. if order_id (data t) = oid \<and> \<not> still_exists \<and> status t = OPEN
               then t\<lparr>status := DISAPPEARED\<rparr> else t) l"

text \<open>
  Modelled from the spec: \<^verbatim>\<open>OrderMonitor.get_disappeared_orders\<close> is missing from the
  sources. \<open>disappeared()\<close>: the list of the orders whose status is DISAPPEARED.
\<close>

definition ledger_get_disappeared_orders :: "order_ledger \<Rightarrow> order_data list" where
  "ledger_get_disappeared_orders l = map data (filter (\<lambda>t. status t = DISAPPEARED) l)"

text \<open>
  Modelled from the spec: \<^verbatim>\<open>OrderMonitor.remove_order\<close> is missing from the sources.
  \<open>remove(order_id)\<close>: the order is dropped from the ledger entirely.
\<close>

definition ledger_remove_order :: "string \<Rightarrow> order_ledger \<Rightarrow> order_ledger" where
  "ledger_remove_order oid l = filter (\<lambda>t. order_id (data t) \<noteq> oid) l"

text \<open>
  Modelled from the spec: \<^verbatim>\<open>OrderMonitor.mark_order_filled\<close> is missing from the sources.
  \<open>markFilled(order_id)\<close>: the order's status becomes FILLED.
\<close>

definition ledger_mark_order_filled :: "string \<Rightarrow> order_ledger \<Rightarrow> order_ledger" where
  "ledger_mark_order_filled oid l =
     map (\<lambda>t. if order_id (data t) = oid then t\<lparr>status := FILLED\<rparr> else t) l"

text \<open>
  Modelled from the spec: \<^verbatim>\<open>OrderMonitor.mark_order_recreated\<close> is missing from the
  sources. \<open>markRecreated(oldId, newId)\<close> sets \<open>old.status = RECREATED\<close> and
  \<open>old.replaced_by = newId\<close>.
\<close>

definition ledger_mark_order_recreated :: "string \<Rightarrow> string \<Rightarrow> order_ledger \<Rightarrow> order_ledger" where
  "ledger_mark_order_recreated old_id new_id l =
     map (\<lambda>t. if order_id (data t) = old_id
               then t\<lparr>status := RECREATED, replaced_by := Some new_id\<rparr> else t) l"

text \<open>
  Modelled from the spec: \<^verbatim>\<open>OrderMonitor.get_markets_with_orders\<close> is missing from the
  sources. \<open>marketsWithOrders()\<close>: the set of the slugs of the tracked orders.
\<close>

definition ledger_get_markets_with_orders :: "order_ledger \<Rightarrow> string list" where
  "ledger_get_markets_with_orders l = remdups (map (market_slug \<circ> data) l)"

text \<open>
  Modelled from the spec: \<^verbatim>\<open>OrderMonitor.get_active_orders_by_market\<close> is missing from the
  sources. \<open>activeByMarket(slug)\<close>: the non-terminal orders of the market (FILLED,
  RECREATED and REMOVED are terminal).
\<close>

definition ledger_get_active_orders_by_market :: "string \<Rightarrow> order_ledger \<Rightarrow> order_data list" where
  "ledger_get_active_orders_by_market mslug l =
     map data (filter (\<lambda>t. market_slug (data t) = mslug
                          \<and> (status t = OPEN \<or> status t = DISAPPEARED)) l)"

text \<open>
  Modelled from the spec: the class \<^verbatim>\<open>OrderMonitor\<close> is missing from the sources; this is
  the order monitor made of the operations above (\<^verbatim>\<open>tracked_orders.keys()\<close> are the ids in
  insertion order). The specification documents a failure for \<open>add\<close> only; the other
  operations of this ledger return.
\<close>

definition ledger_monitor :: "order_ledger order_monitor" where
  "ledger_monitor =
     \<lparr>tracked_orders_keys = map (order_id \<circ> data),
      update_order_status = (\<lambda>oid still_exists l. Returns (ledger_update_order_status oid still_exists l)),
      get_disappeared_orders = ledger_get_disappeared_orders,
      remove_order = (\<lambda>oid l. Returns (ledger_remove_order oid l)),
      mark_order_filled = (\<lambda>oid l. Returns (ledger_mark_order_filled oid l)),
      add_order = ledger_add_order,
      mark_order_recreated = (\<lambda>old_id new_id l. Returns (ledger_mark_order_recreated old_id new_id l)),
      get_markets_with_orders = ledger_get_markets_with_orders,
      get_active_orders_by_market = ledger_get_active_orders_by_market\<rparr>"

section \<open>A scripted exchange for the examples\<close>

text \<open>
  An exchange whose state is the number of placements made so far: it lists the given open
  orders, answers balances from a table, and answers the \<open>n\<close>-th placement from a script.
  Its scanner reports the listed markets inactive; its queue accepts every removal.
\<close>

definition scripted_client :: "open_order list \<Rightarrow> (string \<Rightarrow> decimal outcome) \<Rightarrow> (nat \<Rightarrow> response outcome) \<Rightarrow> nat polymarket_client" where
  "scripted_client open_orders balance placement =
     \<lparr>get_open_orders = (\<lambda>w. (Returns open_orders, w)),
      get_token_balance = (\<lambda>tok w. (balance tok, w)),
      place_limit_buy = (\<lambda>tok p a w. (placement w, Suc w)),
      place_limit_sell = (\<lambda>tok p s w. (placement w, Suc w))\<rparr>"

definition scripted_executor :: "open_order list \<Rightarrow> (string \<Rightarrow> decimal outcome) \<Rightarrow> (nat \<Rightarrow> response outcome) \<Rightarrow> string list \<Rightarrow> (order_ledger, nat) trade_executor" where
  "scripted_executor open_orders balance placement inactive_markets =
     \<lparr>client = scripted_client open_orders balance placement,
      order_monitor = ledger_monitor,
      market_scanner = Some (\<lambda>mslug w. (Returns (mslug \<notin> set inactive_markets), w)),
      market_queue = Some (\<lambda>mslug w. (Returns (), w))\<rparr>"

text \<open>Orders and open-order listings for the examples.\<close>

definition entry_order :: "string \<Rightarrow> int \<Rightarrow> decimal \<Rightarrow> rat option \<Rightarrow> order_data" where
  "entry_order oid n p strong_price =
     \<lparr>order_id = oid, token_id = ''T'', market_slug = ''m'', side = ''BUY'',
      price = p, size = 10, entry_number = Some n, strong_team_price_cents = strong_price\<rparr>"

definition order_in :: "string \<Rightarrow> string \<Rightarrow> string \<Rightarrow> order_data" where
  "order_in mslug tok oid =
     \<lparr>order_id = oid, token_id = tok, market_slug = mslug, side = ''BUY'',
      price = 44 / 100, size = 10, entry_number = Some 1, strong_team_price_cents = Some 65\<rparr>"

definition tracked :: "order_data \<Rightarrow> order_status \<Rightarrow> tracked_order" where
  "tracked od s = \<lparr>data = od, status = s, replaced_by = None\<rparr>"

definition listed_buy :: "string \<Rightarrow> open_order" where
  "listed_buy oid =
     \<lparr>oo_id = Some oid, oo_asset_id = Some ''T'', oo_side = Some ''BUY'',
      oo_original_size = Some 10\<rparr>"

definition start_state :: "order_ledger \<Rightarrow> (order_ledger, nat) state" where
  "start_state l = \<lparr>ledger = l, world = 0, calls = []\<rparr>"


text \<open>A market and the ladder of a band, for stating results.\<close>

definition example_market :: "rat \<Rightarrow> market" where
  "example_market p =
     \<lparr>slug = ''m'', question = ''Who wins?'',
      strong_team = \<lparr>team_token_id = ''T'', team_name = ''Strong'', team_price_cents = p\<rparr>\<rparr>"

abbreviation ladder :: "int \<Rightarrow> int \<Rightarrow> decimal \<Rightarrow> entry_config" where
  "ladder e1 e2 s \<equiv>
     \<lparr>entry1_cents = e1, entry1_price = of_int e1 / 100,
      entry2_cents = e2, entry2_price = of_int e2 / 100, entry_size_usd = s\<rparr>"


section \<open>Decimal arithmetic: when rounding is exact\<close>

lemma ndigits_pos: "1 \<le> ndigits n"
proof (induction n rule: ndigits.induct)
  case (1 n)
  show ?case
  proof (cases "n < 10")
    case True
    then show ?thesis by (simp add: ndigits.simps)
  next
    case False
    with 1 have "1 \<le> ndigits (n div 10)" by simp
    with False show ?thesis by (subst ndigits.simps) simp
  qed
qed

lemma ndigits_bounds:
  "0 < n \<Longrightarrow> 10 ^ nat (ndigits n - 1) \<le> n \<and> n < 10 ^ nat (ndigits n)"
proof (induction n rule: ndigits.induct)
  case (1 n)
  show ?case
  proof (cases "n < 10")
    case True
    with 1(2) show ?thesis by (simp add: ndigits.simps)
  next
    case False
    let ?m = "n div 10"
    let ?d = "ndigits ?m"
    from False have mpos: "0 < ?m" by simp
    with 1(1) False have IH: "10 ^ nat (?d - 1) \<le> ?m \<and> ?m < 10 ^ nat ?d" by simp
    have dpos: "1 \<le> ?d" by (rule ndigits_pos)
    have nd: "ndigits n = 1 + ?d" using False by (subst ndigits.simps) simp
    have e1: "nat (ndigits n - 1) = Suc (nat (?d - 1))" using nd dpos by simp
    have e2: "nat (ndigits n) = Suc (nat ?d)" using nd dpos by simp
    have "10 * ?m \<le> n" by simp
    moreover have "n < 10 * (?m + 1)" by simp
    ultimately show ?thesis using IH unfolding e1 e2 by simp
  qed
qed

lemma adjusted_lower:
  assumes "x \<noteq> 0"
  shows "10 powi (adjusted x) \<le> \<bar>x\<bar>"
proof -
  obtain a b where q: "quotient_of \<bar>x\<bar> = (a, b)" by (cases "quotient_of \<bar>x\<bar>")
  have bpos: "0 < b" using q quotient_of_denom_pos by blast
  have xab: "\<bar>x\<bar> = of_int a / of_int b" using q quotient_of_div by blast
  have "0 < \<bar>x\<bar>" using assms by simp
  then have apos: "0 < a" using xab bpos by (simp add: zero_less_divide_iff)
  let ?k = "ndigits a - ndigits b"
  show ?thesis
  proof (cases "10 powi ?k \<le> \<bar>x\<bar>")
    case True
    then show ?thesis by (simp add: adjusted_def q)
  next
    case False
    then have adj: "adjusted x = ?k - 1" by (simp add: adjusted_def q)
    have da: "1 \<le> ndigits a" and db: "1 \<le> ndigits b" by (rule ndigits_pos)+
    have A: "(10::rat) powi (ndigits a - 1) \<le> of_int a"
    proof -
      have "(10::int) ^ nat (ndigits a - 1) \<le> a" using ndigits_bounds[OF apos] by simp
      then have "(of_int ((10::int) ^ nat (ndigits a - 1)) :: rat) \<le> of_int a"
        by (simp only: of_int_le_iff)
      then show ?thesis using da by (simp add: power_int_def)
    qed
    have B: "(of_int b :: rat) \<le> 10 powi (ndigits b)"
    proof -
      have "b \<le> (10::int) ^ nat (ndigits b)" using ndigits_bounds[OF bpos] by simp
      then have "(of_int b :: rat) \<le> of_int ((10::int) ^ nat (ndigits b))"
        by (simp only: of_int_le_iff)
      then show ?thesis using db by (simp add: power_int_def)
    qed
    have "(10::rat) powi (?k - 1) = 10 powi (ndigits a - 1) / 10 powi (ndigits b)"
      using power_int_diff[of "10::rat" "ndigits a - 1" "ndigits b"] by (simp add: algebra_simps)
    also have "\<dots> \<le> of_int a / of_int b"
      using A B bpos apos by (intro frac_le) auto
    finally show ?thesis using adj xab by simp
  qed
qed

lemma round_half_even_of_int: "round_half_even (of_int n) = n"
  by (simp add: round_half_even_def)

lemma dec_round_exact:
  assumes "\<bar>c\<bar> < 10 ^ 28"
  shows "dec_round (of_int c * 10 powi k) = of_int c * 10 powi k"
proof (cases "c = 0")
  case True
  then show ?thesis by (simp add: dec_round_def)
next
  case False
  let ?x = "of_int c * 10 powi k :: rat"
  have xne: "?x \<noteq> 0" using False by simp
  let ?e = "adjusted ?x - (prec - 1)"
  have "10 powi (adjusted ?x) \<le> \<bar>?x\<bar>" by (rule adjusted_lower[OF xne])
  also have "\<bar>?x\<bar> = of_int \<bar>c\<bar> * 10 powi k" by (simp add: abs_mult)
  also have "\<dots> < 10 ^ 28 * 10 powi k"
  proof -
    have "(of_int \<bar>c\<bar> :: rat) < of_int (10 ^ 28)" using assms by (simp only: of_int_less_iff)
    then show ?thesis by simp
  qed
  also have "\<dots> = 10 powi (28 + k)" by (simp add: power_int_add)
  finally have lt: "(10::rat) powi (adjusted ?x) < 10 powi (28 + k)" .
  have "adjusted ?x < 28 + k"
  proof (rule ccontr)
    assume "\<not> adjusted ?x < 28 + k"
    then have "28 + k \<le> adjusted ?x" by simp
    then have "(10::rat) powi (28 + k) \<le> 10 powi (adjusted ?x)"
      by (rule power_int_increasing) simp
    with lt show False by simp
  qed
  then have ek: "?e \<le> k" by (simp add: prec_def)
  then obtain d where d: "k = ?e + int d" by (metis zle_iff_zadd)
  have "?x / 10 powi ?e = of_int c * (10 powi k / 10 powi ?e)" by simp
  also have "10 powi k / 10 powi ?e = (10::rat) powi (k - ?e)" by (simp add: power_int_diff)
  also have "k - ?e = int d" using d by simp
  finally have "?x / 10 powi ?e = of_int (c * 10 ^ d)" by simp
  then have "round_half_even (?x / 10 powi ?e) = c * 10 ^ d"
    by (simp only: round_half_even_of_int)
  then have "dec_round ?x = of_int (c * 10 ^ d) * 10 powi ?e"
    using xne by (simp add: dec_round_def Let_def)
  also have "\<dots> = of_int c * (10 powi (int d) * 10 powi ?e)" by simp
  also have "10 powi (int d) * 10 powi ?e = (10::rat) powi (int d + ?e)"
    by (simp add: power_int_add)
  also have "int d + ?e = k" using d by simp
  finally show ?thesis .
qed

lemma dec_div_100_exact:
  assumes "\<bar>c\<bar> < 10 ^ 28"
  shows "dec_div (of_int c) 100 = of_int c / 100"
proof -
  have "(of_int c :: rat) / 100 = of_int c * 10 powi (- 2)"
    by (simp add: power_int_minus field_simps)
  then show ?thesis using dec_round_exact[OF assms, of "- 2"] by (simp add: dec_div_def)
qed

lemma dec_half_exact:
  assumes "\<bar>c\<bar> < 10 ^ 27"
  shows "dec_div (of_int c * 10 powi k) 2 = of_int c * 10 powi k / 2"
proof -
  have eq: "(of_int c * 10 powi k :: rat) / 2 = of_int (5 * c) * 10 powi (k - 1)"
    by (simp add: power_int_diff field_simps)
  have "\<bar>5 * c\<bar> < 10 ^ 28" using assms by (simp add: abs_mult)
  then have "dec_round (of_int (5 * c) * 10 powi (k - 1)) = of_int (5 * c) * 10 powi (k - 1)"
    by (rule dec_round_exact)
  then show ?thesis unfolding dec_div_def eq .
qed

lemma table_prices:
  "dec_div 42 100 = 42 / 100" "dec_div 27 100 = 27 / 100"
  "dec_div 44 100 = 44 / 100" "dec_div 31 100 = 31 / 100"
  "dec_div 45 100 = 45 / 100" "dec_div 33 100 = 33 / 100"
  "dec_div 52 100 = 52 / 100" "dec_div 38 100 = 38 / 100"
  "dec_div 58 100 = 58 / 100"
  "dec_div 68 100 = 68 / 100" "dec_div 55 100 = 55 / 100"
  using dec_div_100_exact[of 42] dec_div_100_exact[of 27] dec_div_100_exact[of 44]
    dec_div_100_exact[of 31] dec_div_100_exact[of 45] dec_div_100_exact[of 33]
    dec_div_100_exact[of 52] dec_div_100_exact[of 38] dec_div_100_exact[of 58]
    dec_div_100_exact[of 68] dec_div_100_exact[of 55]
  by simp_all


lemma get_entry_prices_unfold:
  "get_entry_prices s p =
     (if 61 \<le> p \<and> p \<le> 6399 / 100 then Some (ladder 42 27 s)
      else if 64 \<le> p \<and> p \<le> 6699 / 100 then Some (ladder 44 31 s)
      else if 67 \<le> p \<and> p \<le> 6999 / 100 then Some (ladder 45 33 s)
      else if 70 \<le> p \<and> p \<le> 7499 / 100 then Some (ladder 52 38 s)
      else if 75 \<le> p \<and> p \<le> 7999 / 100 then Some (ladder 58 42 s)
      else if 80 \<le> p \<and> p \<le> 100 then Some (ladder 68 55 s)
      else None)"
  by (simp add: get_entry_prices_def STRATEGY_TABLE_def table_prices)

section \<open>The entry ladder\<close>

text \<open>
  Claim C2. For every favored price \<open>p\<close>, \<^verbatim>\<open>get_entry_prices\<close> returns a result exactly when
  \<open>p\<close> lies in one of the six closed bands [61, 63.99], [64, 66.99], [67, 69.99],
  [70, 74.99], [75, 79.99], [80, 100]; in a band it returns the entries of the table
  (42/27, 44/31, 45/33, 52/38, 58/42, 68/55 cents); it returns nothing below 61, above 100
  and strictly inside a gap between two bands. At 65 it gives 44/31, at 80 it gives 68/55,
  at 60 nothing, at 63.99 it gives 42/27 and at 64 it gives 44/31.
\<close>

theorem get_entry_prices_bands:
  "((get_entry_prices s p \<noteq> None) =
      (61 \<le> p \<and> p \<le> 6399 / 100 \<or> 64 \<le> p \<and> p \<le> 6699 / 100 \<or> 67 \<le> p \<and> p \<le> 6999 / 100
       \<or> 70 \<le> p \<and> p \<le> 7499 / 100 \<or> 75 \<le> p \<and> p \<le> 7999 / 100 \<or> 80 \<le> p \<and> p \<le> 100))
   \<and> (61 \<le> p \<and> p \<le> 6399 / 100 \<longrightarrow> get_entry_prices s p = Some (ladder 42 27 s))
   \<and> (64 \<le> p \<and> p \<le> 6699 / 100 \<longrightarrow> get_entry_prices s p = Some (ladder 44 31 s))
   \<and> (67 \<le> p \<and> p \<le> 6999 / 100 \<longrightarrow> get_entry_prices s p = Some (ladder 45 33 s))
   \<and> (70 \<le> p \<and> p \<le> 7499 / 100 \<longrightarrow> get_entry_prices s p = Some (ladder 52 38 s))
   \<and> (75 \<le> p \<and> p \<le> 7999 / 100 \<longrightarrow> get_entry_prices s p = Some (ladder 58 42 s))
   \<and> (80 \<le> p \<and> p \<le> 100 \<longrightarrow> get_entry_prices s p = Some (ladder 68 55 s))
   \<and> (p < 61 \<or> 100 < p \<or> 6399 / 100 < p \<and> p < 64 \<or> 6699 / 100 < p \<and> p < 67
        \<or> 6999 / 100 < p \<and> p < 70 \<or> 7499 / 100 < p \<and> p < 75 \<or> 7999 / 100 < p \<and> p < 80
      \<longrightarrow> get_entry_prices s p = None)
   \<and> get_entry_prices s 65 = Some (ladder 44 31 s)
   \<and> get_entry_prices s 80 = Some (ladder 68 55 s)
   \<and> get_entry_prices s 60 = None
   \<and> get_entry_prices s (6399 / 100) = Some (ladder 42 27 s)
   \<and> get_entry_prices s 64 = Some (ladder 44 31 s)"
  unfolding get_entry_prices_unfold by simp

theorem get_entry_prices_bands_witness:
  "get_entry_prices 5 (655 / 10) = Some (ladder 44 31 5)
   \<and> get_entry_prices 5 (69995 / 1000) = None"
  using get_entry_prices_bands [of 5 "655 / 10"] get_entry_prices_bands [of 5 "69995 / 1000"]
  by simp

text \<open>
  Claim C9. When the favored price of a market has an entry configuration (it falls in a
  band), \<^verbatim>\<open>calculate_orders\<close> returns exactly two \<^verbatim>\<open>limit_buy\<close> specifications on the
  token of the favored outcome, priced at entry 1 and entry 2, each with the notional
  \<^verbatim>\<open>entry_size_usd\<close>, numbered 1 and 2; it returns nothing exactly when the price is outside
  all bands.
\<close>

theorem calculate_orders_two_entries:
  "(get_entry_prices s (team_price_cents (strong_team m)) = Some cfg \<longrightarrow>
      calculate_orders s m =
        Some [\<lparr>order_type = ''limit_buy'',
                spec_token_id = team_token_id (strong_team m),
                spec_team_name = team_name (strong_team m),
                spec_price = entry1_price cfg,
                spec_price_cents = entry1_cents cfg,
                amount_usd = s,
                spec_entry_number = 1,
                market_question = question m,
                spec_market_slug = slug m\<rparr>,
              \<lparr>order_type = ''limit_buy'',
                spec_token_id = team_token_id (strong_team m),
                spec_team_name = team_name (strong_team m),
                spec_price = entry2_price cfg,
                spec_price_cents = entry2_cents cfg,
                amount_usd = s,
                spec_entry_number = 2,
                market_question = question m,
                spec_market_slug = slug m\<rparr>])
   \<and> (get_entry_prices s (team_price_cents (strong_team m)) = None \<longrightarrow> calculate_orders s m = None)
   \<and> ((calculate_orders s m = None) =
        (\<not> (61 \<le> team_price_cents (strong_team m) \<and> team_price_cents (strong_team m) \<le> 6399 / 100
            \<or> 64 \<le> team_price_cents (strong_team m) \<and> team_price_cents (strong_team m) \<le> 6699 / 100
            \<or> 67 \<le> team_price_cents (strong_team m) \<and> team_price_cents (strong_team m) \<le> 6999 / 100
            \<or> 70 \<le> team_price_cents (strong_team m) \<and> team_price_cents (strong_team m) \<le> 7499 / 100
            \<or> 75 \<le> team_price_cents (strong_team m) \<and> team_price_cents (strong_team m) \<le> 7999 / 100
            \<or> 80 \<le> team_price_cents (strong_team m) \<and> team_price_cents (strong_team m) \<le> 100)))"
proof -
  let ?p = "team_price_cents (strong_team m)"
  have a: "get_entry_prices s ?p = Some cfg \<longrightarrow> calculate_orders s m = Some
        [\<lparr>order_type = ''limit_buy'',
                spec_token_id = team_token_id (strong_team m),
                spec_team_name = team_name (strong_team m),
                spec_price = entry1_price cfg,
                spec_price_cents = entry1_cents cfg,
                amount_usd = s,
                spec_entry_number = 1,
                market_question = question m,
                spec_market_slug = slug m\<rparr>,
              \<lparr>order_type = ''limit_buy'',
                spec_token_id = team_token_id (strong_team m),
                spec_team_name = team_name (strong_team m),
                spec_price = entry2_price cfg,
                spec_price_cents = entry2_cents cfg,
                amount_usd = s,
                spec_entry_number = 2,
                market_question = question m,
                spec_market_slug = slug m\<rparr>]"
    by (simp add: calculate_orders_def Let_def)
  have b: "get_entry_prices s ?p = None \<longrightarrow> calculate_orders s m = None"
    by (simp add: calculate_orders_def)
  have "(calculate_orders s m = None) = (get_entry_prices s ?p = None)"
    by (simp add: calculate_orders_def Let_def split: option.splits)
  also have "\<dots> = (\<not> (61 \<le> ?p \<and> ?p \<le> 6399 / 100 \<or> 64 \<le> ?p \<and> ?p \<le> 6699 / 100
            \<or> 67 \<le> ?p \<and> ?p \<le> 6999 / 100 \<or> 70 \<le> ?p \<and> ?p \<le> 7499 / 100
            \<or> 75 \<le> ?p \<and> ?p \<le> 7999 / 100 \<or> 80 \<le> ?p \<and> ?p \<le> 100))"
    unfolding get_entry_prices_unfold by simp
  finally show ?thesis using a b by blast
qed

theorem calculate_orders_two_entries_witness:
  "map (\<lambda>sp. (order_type sp, spec_token_id sp, spec_price sp, spec_price_cents sp,
               amount_usd sp, spec_entry_number sp)) (the (calculate_orders 5 (example_market 65)))
     = [(''limit_buy'', ''T'', 44 / 100, 44, 5, 1), (''limit_buy'', ''T'', 31 / 100, 31, 5, 2)]
   \<and> calculate_orders 5 (example_market 60) = None"
  using calculate_orders_two_entries [of 5 "example_market 65" "ladder 44 31 5"]
    calculate_orders_two_entries [of 5 "example_market 60" "ladder 44 31 5"]
  by (simp add: example_market_def get_entry_prices_unfold)



section \<open>Take-profit legs\<close>

lemma entry1_price_of_none:
  "1 \<notin> fe_entry_number ` set es \<Longrightarrow> entry1_price_of es acc = acc"
  by (induction es arbitrary: acc) auto

lemma entry1_price_of_some:
  "1 \<in> fe_entry_number ` set es \<Longrightarrow>
     \<exists>e\<in>set es. fe_entry_number e = 1 \<and> entry1_price_of es acc = Some (fe_price e)"
proof (induction es arbitrary: acc)
  case Nil
  then show ?case by simp
next
  case (Cons x xs)
  show ?case
  proof (cases "1 \<in> fe_entry_number ` set xs")
    case True
    from Cons.IH[OF True] show ?thesis by auto
  next
    case False
    with Cons.prems have x1: "fe_entry_number x = 1" by auto
    then show ?thesis using entry1_price_of_none[OF False] by simp
  qed
qed

lemma tp_only_one:
  assumes "(1 \<in> fe_entry_number ` set es \<and> 2 \<notin> fe_entry_number ` set es)
           \<or> (2 \<in> fe_entry_number ` set es \<and> 1 \<notin> fe_entry_number ` set es)"
  shows "calculate_take_profit_orders es c tot =
           [\<lparr>tp_price = dec_div c 100, tp_size = dec_div tot 2,
              tp_label = ''TP1 (50% at start price)''\<rparr>,
            \<lparr>tp_price = 96 / 100, tp_size = dec_div tot 2,
              tp_label = ''TP2 (50% at 0.96)''\<rparr>]"
  using assms by (auto simp: calculate_take_profit_orders_def Let_def)

lemma tp_both:
  assumes "1 \<in> fe_entry_number ` set es" "2 \<in> fe_entry_number ` set es"
  shows "\<exists>e\<in>set es. fe_entry_number e = 1 \<and> entry1_price_of es None = Some (fe_price e) \<and>
           calculate_take_profit_orders es c tot =
             [\<lparr>tp_price = fe_price e, tp_size = dec_div tot 2,
                tp_label = ''TP1 (50% at Entry1 price)''\<rparr>,
              \<lparr>tp_price = dec_div c 100, tp_size = dec_div tot 2,
                tp_label = ''TP2 (50% at start price)''\<rparr>]"
proof -
  from entry1_price_of_some[OF assms(1), of None]
  obtain e where e: "e \<in> set es" "fe_entry_number e = 1"
      "entry1_price_of es None = Some (fe_price e)" by blast
  have "calculate_take_profit_orders es c tot =
             [\<lparr>tp_price = fe_price e, tp_size = dec_div tot 2,
                tp_label = ''TP1 (50% at Entry1 price)''\<rparr>,
              \<lparr>tp_price = dec_div c 100, tp_size = dec_div tot 2,
                tp_label = ''TP2 (50% at start price)''\<rparr>]"
    using assms e(3) by (simp add: calculate_take_profit_orders_def Let_def)
  with e show ?thesis by blast
qed

lemma tp_neither:
  assumes "1 \<notin> fe_entry_number ` set es" "2 \<notin> fe_entry_number ` set es"
  shows "calculate_take_profit_orders es c tot = []"
  using assms by (simp add: calculate_take_profit_orders_def Let_def)

lemma tp_two_legs:
  assumes "es \<noteq> []" "fe_entry_number ` set es \<subseteq> {1, 2}"
  shows "\<exists>l1 l2. calculate_take_profit_orders es c tot = [l1, l2]
           \<and> tp_size l1 = dec_div tot 2 \<and> tp_size l2 = dec_div tot 2"
proof -
  from assms obtain e where "e \<in> set es" by (cases es) auto
  with assms(2) have some: "1 \<in> fe_entry_number ` set es \<or> 2 \<in> fe_entry_number ` set es"
    by auto
  show ?thesis
  proof (cases "1 \<in> fe_entry_number ` set es \<and> 2 \<in> fe_entry_number ` set es")
    case True
    then show ?thesis using tp_both[of es c tot] by auto
  next
    case False
    with some have "(1 \<in> fe_entry_number ` set es \<and> 2 \<notin> fe_entry_number ` set es)
           \<or> (2 \<in> fe_entry_number ` set es \<and> 1 \<notin> fe_entry_number ` set es)" by blast
    from tp_only_one[OF this, of c tot] show ?thesis by simp
  qed
qed

text \<open>
  Claim C4. \<^verbatim>\<open>calculate_take_profit_orders\<close> returns, with \<open>half = total / 2\<close> (the decimal
  division): when only entry 1 is filled, a leg at the favored start price and a leg at
  0.96; when both entries are filled, a leg at the price of entry 1 and a leg at the favored
  start price; when only entry 2 is filled, the same legs as for entry 1 alone; for no
  filled entry, nothing. So every non-empty set of filled entries (numbered 1 or 2) gives
  exactly two legs, each of size \<open>half\<close>.
\<close>

theorem calculate_take_profit_orders_cases:
  "(1 \<in> fe_entry_number ` set es \<and> 2 \<notin> fe_entry_number ` set es \<longrightarrow>
      calculate_take_profit_orders es c tot =
        [\<lparr>tp_price = dec_div c 100, tp_size = dec_div tot 2,
           tp_label = ''TP1 (50% at start price)''\<rparr>,
         \<lparr>tp_price = 96 / 100, tp_size = dec_div tot 2,
           tp_label = ''TP2 (50% at 0.96)''\<rparr>])
   \<and> (1 \<in> fe_entry_number ` set es \<and> 2 \<in> fe_entry_number ` set es \<longrightarrow>
      (\<exists>e\<in>set es. fe_entry_number e = 1 \<and> entry1_price_of es None = Some (fe_price e) \<and>
         calculate_take_profit_orders es c tot =
           [\<lparr>tp_price = fe_price e, tp_size = dec_div tot 2,
              tp_label = ''TP1 (50% at Entry1 price)''\<rparr>,
            \<lparr>tp_price = dec_div c 100, tp_size = dec_div tot 2,
              tp_label = ''TP2 (50% at start price)''\<rparr>]))
   \<and> (2 \<in> fe_entry_number ` set es \<and> 1 \<notin> fe_entry_number ` set es \<longrightarrow>
      calculate_take_profit_orders es c tot =
        [\<lparr>tp_price = dec_div c 100, tp_size = dec_div tot 2,
           tp_label = ''TP1 (50% at start price)''\<rparr>,
         \<lparr>tp_price = 96 / 100, tp_size = dec_div tot 2,
           tp_label = ''TP2 (50% at 0.96)''\<rparr>])
   \<and> (es = [] \<longrightarrow> calculate_take_profit_orders es c tot = [])
   \<and> (es \<noteq> [] \<and> fe_entry_number ` set es \<subseteq> {1, 2} \<longrightarrow>
      (\<exists>l1 l2. calculate_take_profit_orders es c tot = [l1, l2]
         \<and> tp_size l1 = dec_div tot 2 \<and> tp_size l2 = dec_div tot 2))"
proof (intro conjI impI)
  assume "1 \<in> fe_entry_number ` set es \<and> 2 \<notin> fe_entry_number ` set es"
  then show "calculate_take_profit_orders es c tot =
        [\<lparr>tp_price = dec_div c 100, tp_size = dec_div tot 2,
           tp_label = ''TP1 (50% at start price)''\<rparr>,
         \<lparr>tp_price = 96 / 100, tp_size = dec_div tot 2,
           tp_label = ''TP2 (50% at 0.96)''\<rparr>]"
    by (intro tp_only_one) simp
next
  assume "1 \<in> fe_entry_number ` set es \<and> 2 \<in> fe_entry_number ` set es"
  then show "\<exists>e\<in>set es. fe_entry_number e = 1 \<and> entry1_price_of es None = Some (fe_price e) \<and>
         calculate_take_profit_orders es c tot =
           [\<lparr>tp_price = fe_price e, tp_size = dec_div tot 2,
              tp_label = ''TP1 (50% at Entry1 price)''\<rparr>,
            \<lparr>tp_price = dec_div c 100, tp_size = dec_div tot 2,
              tp_label = ''TP2 (50% at start price)''\<rparr>]"
    using tp_both[of es c tot] by simp
next
  assume "2 \<in> fe_entry_number ` set es \<and> 1 \<notin> fe_entry_number ` set es"
  then show "calculate_take_profit_orders es c tot =
        [\<lparr>tp_price = dec_div c 100, tp_size = dec_div tot 2,
           tp_label = ''TP1 (50% at start price)''\<rparr>,
         \<lparr>tp_price = 96 / 100, tp_size = dec_div tot 2,
           tp_label = ''TP2 (50% at 0.96)''\<rparr>]"
    by (intro tp_only_one) simp
next
  assume "es = []"
  then show "calculate_take_profit_orders es c tot = []"
    by (simp add: tp_neither)
next
  assume "es \<noteq> [] \<and> fe_entry_number ` set es \<subseteq> {1, 2}"
  then show "\<exists>l1 l2. calculate_take_profit_orders es c tot = [l1, l2]
         \<and> tp_size l1 = dec_div tot 2 \<and> tp_size l2 = dec_div tot 2"
    using tp_two_legs[of es c tot] by simp
qed

lemma dec_div_65_100: "dec_div 65 100 = 65 / 100"
  using dec_div_100_exact[of 65] by simp

lemma dec_div_10_2: "dec_div 10 2 = 5"
  using dec_half_exact[of 10 0] by simp

theorem calculate_take_profit_orders_cases_witness:
  "calculate_take_profit_orders [\<lparr>fe_entry_number = 1, fe_price = 44 / 100\<rparr>] 65 10 =
     [\<lparr>tp_price = 65 / 100, tp_size = 5, tp_label = ''TP1 (50% at start price)''\<rparr>,
      \<lparr>tp_price = 96 / 100, tp_size = 5, tp_label = ''TP2 (50% at 0.96)''\<rparr>]
   \<and> calculate_take_profit_orders
        [\<lparr>fe_entry_number = 1, fe_price = 44 / 100\<rparr>, \<lparr>fe_entry_number = 2, fe_price = 31 / 100\<rparr>]
        65 10 =
     [\<lparr>tp_price = 44 / 100, tp_size = 5, tp_label = ''TP1 (50% at Entry1 price)''\<rparr>,
      \<lparr>tp_price = 65 / 100, tp_size = 5, tp_label = ''TP2 (50% at start price)''\<rparr>]
   \<and> calculate_take_profit_orders [\<lparr>fe_entry_number = 2, fe_price = 31 / 100\<rparr>] 65 10 =
     [\<lparr>tp_price = 65 / 100, tp_size = 5, tp_label = ''TP1 (50% at start price)''\<rparr>,
      \<lparr>tp_price = 96 / 100, tp_size = 5, tp_label = ''TP2 (50% at 0.96)''\<rparr>]
   \<and> calculate_take_profit_orders [] 65 10 = []"
  using calculate_take_profit_orders_cases
          [of "[\<lparr>fe_entry_number = 1, fe_price = 44 / 100\<rparr>]" 65 10]
        calculate_take_profit_orders_cases
          [of "[\<lparr>fe_entry_number = 1, fe_price = 44 / 100\<rparr>, \<lparr>fe_entry_number = 2, fe_price = 31 / 100\<rparr>]" 65 10]
        calculate_take_profit_orders_cases
          [of "[\<lparr>fe_entry_number = 2, fe_price = 31 / 100\<rparr>]" 65 10]
        calculate_take_profit_orders_cases [of "[]" 65 10]
  by (simp add: dec_div_65_100 dec_div_10_2)

text \<open>
  Claim C5, as stated, fails: the halves are computed by the decimal division, which rounds
  to 28 significant digits. For the size 3.000000000000000000000000001 (28 digits) each
  leg is 1.5 and the legs sum to 3.
\<close>

theorem take_profit_split_counterexample:
  "sum_list (map tp_size
      (calculate_take_profit_orders [\<lparr>fe_entry_number = 1, fe_price = 44 / 100\<rparr>] 65
         (3000000000000000000000000001 / 1000000000000000000000000000)))
    \<noteq> 3000000000000000000000000001 / 1000000000000000000000000000"
proof -
  have h: "dec_div (3000000000000000000000000001 / 1000000000000000000000000000) 2 = 3 / 2"
    by code_simp
  have "calculate_take_profit_orders [\<lparr>fe_entry_number = 1, fe_price = 44 / 100\<rparr>] 65
          (3000000000000000000000000001 / 1000000000000000000000000000) =
        [\<lparr>tp_price = dec_div 65 100, tp_size = 3 / 2, tp_label = ''TP1 (50% at start price)''\<rparr>,
         \<lparr>tp_price = 96 / 100, tp_size = 3 / 2, tp_label = ''TP2 (50% at 0.96)''\<rparr>]"
    unfolding h[symmetric] by (rule tp_only_one) simp
  then show ?thesis by simp
qed

text \<open>
  Claim C5, amended. For every total size of at most 27 significant digits (\<open>m * 10^k\<close> with
  \<open>\<bar>m\<bar> < 10^27\<close>) and every non-empty set of filled entries (numbered 1 or 2), the two
  legs have exactly half the total size each and their sizes sum exactly to the total.
\<close>

theorem take_profit_split_exact:
  assumes "es \<noteq> []" "fe_entry_number ` set es \<subseteq> {1, 2}" "\<bar>m\<bar> < 10 ^ 27"
  shows "\<exists>l1 l2. calculate_take_profit_orders es c (of_int m * 10 powi k) = [l1, l2]
           \<and> tp_size l1 = of_int m * 10 powi k / 2
           \<and> tp_size l2 = of_int m * 10 powi k / 2
           \<and> tp_size l1 + tp_size l2 = of_int m * 10 powi k"
proof -
  from tp_two_legs[OF assms(1,2), of c "of_int m * 10 powi k"]
  obtain l1 l2 where l: "calculate_take_profit_orders es c (of_int m * 10 powi k) = [l1, l2]"
    "tp_size l1 = dec_div (of_int m * 10 powi k) 2" "tp_size l2 = dec_div (of_int m * 10 powi k) 2"
    by blast
  have "dec_div (of_int m * 10 powi k) 2 = of_int m * 10 powi k / 2"
    by (rule dec_half_exact[OF assms(3)])
  with l show ?thesis by simp
qed

theorem take_profit_split_exact_witness:
  "\<exists>l1 l2. calculate_take_profit_orders [\<lparr>fe_entry_number = 1, fe_price = 44 / 100\<rparr>] 65
               (1190476 / 100000) = [l1, l2]
     \<and> tp_size l1 = 595238 / 100000 \<and> tp_size l2 = 595238 / 100000
     \<and> tp_size l1 + tp_size l2 = 1190476 / 100000"
  using take_profit_split_exact
          [of "[\<lparr>fe_entry_number = 1, fe_price = 44 / 100\<rparr>]" 1190476 65 "- 5"]
  by (simp add: power_int_minus)



section \<open>Recreating disappeared orders\<close>

subsection \<open>Calls of the collaborators\<close>

lemma call_client_eq:
  "f (world st) = (r, w) \<Longrightarrow>
     call_client c f st = (r, st\<lparr>world := w, calls := calls st @ [c]\<rparr>)"
  by (simp add: call_client_def logged_def)

lemma call_client_frame:
  assumes "call_client c f st = (r, st1)"
  shows "ledger st1 = ledger st" "calls st1 = calls st @ [c]"
  using assms by (auto simp: call_client_def logged_def split: prod.splits)

lemma call_monitor_Returns:
  "f (ledger st) = Returns l \<Longrightarrow>
     call_monitor c f st = (Returns (), st\<lparr>ledger := l, calls := calls st @ [c]\<rparr>)"
  by (simp add: call_monitor_def logged_def)

lemma call_monitor_Raises:
  "f (ledger st) = Raises \<Longrightarrow>
     call_monitor c f st = (Raises, st\<lparr>calls := calls st @ [c]\<rparr>)"
  by (simp add: call_monitor_def logged_def)

lemma call_monitor_frame:
  assumes "call_monitor c f st = (r, st1)"
  shows "calls st1 = calls st @ [c]" "world st1 = world st"
    "r = Raises \<Longrightarrow> ledger st1 = ledger st \<and> f (ledger st) = Raises"
    "r = Returns u \<Longrightarrow> f (ledger st) = Returns (ledger st1)"
  using assms by (auto simp: call_monitor_def logged_def split: outcome.splits)

lemma call_add_order_frame:
  assumes "call_add_order self args st = (r, st1)"
  shows "calls st1 = calls st @ [AddOrder args]" "world st1 = world st"
    "r = Raises \<Longrightarrow> ledger st1 = ledger st \<and> add_order (order_monitor self) args (ledger st) = Raises"
    "r = Returns u \<Longrightarrow> add_order (order_monitor self) args (ledger st) = Returns (ledger st1)"
  using assms by (auto simp: call_add_order_def call_monitor_def logged_def split: outcome.splits)

lemma resubmit_order_frame:
  assumes "resubmit_order self od st = (r, st1)"
  shows "ledger st1 = ledger st"
    "calls st1 = calls st @
       [if side od = ''BUY'' then PlaceLimitBuy (token_id od) (price od) (dec_mul (price od) (size od))
        else PlaceLimitSell (token_id od) (price od) (size od)]"
  using assms by (auto simp: resubmit_order_def dest: call_client_frame split: if_splits)

subsection \<open>One pass of the loop\<close>

lemma recreate_order_remove_raises:
  assumes "market_slug od \<in> set ended"
    "remove_order (order_monitor self) (order_id od) (ledger st) = Raises"
  shows "recreate_order self ended od (st, n, k) =
           (st\<lparr>calls := calls st @ [RemoveOrder (order_id od)]\<rparr>, n, k + 1)"
  using assms by (simp add: recreate_order_def call_monitor_Raises)


lemma recreate_order_ended_queue:
  assumes "market_slug od \<in> set ended"
    "remove_order (order_monitor self) (order_id od) (ledger st) = Returns l"
    "market_queue self = Some queue" "queue (market_slug od) (world st) = (r, w)"
  shows "recreate_order self ended od (st, n, k) =
           (st\<lparr>ledger := l, world := w,
               calls := calls st @ [RemoveOrder (order_id od), RemoveMarket (market_slug od)]\<rparr>,
            n, k + 1)"
  using assms by (simp add: recreate_order_def call_monitor_Returns call_client_def logged_def)

lemma recreate_order_balance_raises:
  assumes "market_slug od \<notin> set ended"
    "call_client (GetTokenBalance (token_id od)) (get_token_balance (client self) (token_id od)) st
       = (Raises, st1)"
  shows "recreate_order self ended od (st, n, k) = (st1, n, k)"
  using assms by (simp add: recreate_order_def)


lemma recreate_order_mark_filled_raises:
  assumes "market_slug od \<notin> set ended"
    "call_client (GetTokenBalance (token_id od)) (get_token_balance (client self) (token_id od)) st
       = (Returns b, st1)" "1 / 10 < b"
    "mark_order_filled (order_monitor self) (order_id od) (ledger st1) = Raises"
  shows "recreate_order self ended od (st, n, k) =
           (st1\<lparr>calls := calls st1 @ [MarkOrderFilled (order_id od)]\<rparr>, n, k)"
  using assms by (simp add: recreate_order_def call_monitor_Raises)

lemma recreate_order_placement_fails:
  assumes "market_slug od \<notin> set ended"
    "call_client (GetTokenBalance (token_id od)) (get_token_balance (client self) (token_id od)) st
       = (Returns b, st1)" "b \<le> 1 / 10"
    "resubmit_order self od st1 = (r, st2)" "r = Raises \<or> r = Returns NoOrderId"
  shows "recreate_order self ended od (st, n, k) = (st2, n, k)"
  using assms by (auto simp: recreate_order_def)

lemma recreate_order_add_fails:
  assumes "market_slug od \<notin> set ended"
    "call_client (GetTokenBalance (token_id od)) (get_token_balance (client self) (token_id od)) st
       = (Returns b, st1)" "b \<le> 1 / 10"
    "resubmit_order self od st1 = (Returns (OrderId new_id), st2)"
    "add_order (order_monitor self) (replacement_order od new_id) (ledger st2) = Raises"
  shows "recreate_order self ended od (st, n, k) =
           (st2\<lparr>calls := calls st2 @ [AddOrder (replacement_order od new_id)]\<rparr>, n, k)"
  using assms by (simp add: recreate_order_def call_add_order_def call_monitor_Raises)

lemma recreate_order_recreated:
  assumes "market_slug od \<notin> set ended"
    "call_client (GetTokenBalance (token_id od)) (get_token_balance (client self) (token_id od)) st
       = (Returns b, st1)" "b \<le> 1 / 10"
    "resubmit_order self od st1 = (Returns (OrderId new_id), st2)"
    "add_order (order_monitor self) (replacement_order od new_id) (ledger st2) = Returns l"
    "mark_order_recreated (order_monitor self) (order_id od) new_id l = Returns l'"
  shows "recreate_order self ended od (st, n, k) =
           (st2\<lparr>ledger := l',
               calls := calls st2 @ [AddOrder (replacement_order od new_id),
                                     MarkOrderRecreated (order_id od) new_id]\<rparr>, n + 1, k)"
  using assms
  by (simp add: recreate_order_def call_add_order_def call_monitor_Returns)

lemma recreate_order_link_raises:
  assumes "market_slug od \<notin> set ended"
    "call_client (GetTokenBalance (token_id od)) (get_token_balance (client self) (token_id od)) st
       = (Returns b, st1)" "b \<le> 1 / 10"
    "resubmit_order self od st1 = (Returns (OrderId new_id), st2)"
    "add_order (order_monitor self) (replacement_order od new_id) (ledger st2) = Returns l"
    "mark_order_recreated (order_monitor self) (order_id od) new_id l = Raises"
  shows "recreate_order self ended od (st, n, k) =
           (st2\<lparr>ledger := l,
               calls := calls st2 @ [AddOrder (replacement_order od new_id),
                                     MarkOrderRecreated (order_id od) new_id]\<rparr>, n, k)"
  using assms
  by (simp add: recreate_order_def call_add_order_def call_monitor_Returns call_monitor_Raises)

lemma recreate_order_count:
  "fst (snd (recreate_order self ended od (st, n, k))) =
     n + (if successfully_recreated self ended od st then 1 else 0)"
  by (simp add: recreate_order_def successfully_recreated_def call_add_order_def
        call_monitor_def logged_def
      split: prod.splits outcome.splits response.splits option.splits)

lemma scanner_queries_simps [simp]:
  "scanner_queries [] = []"
  "scanner_queries (c # cs) =
     (case c of IsMarketActive m \<Rightarrow> m # scanner_queries cs | _ \<Rightarrow> scanner_queries cs)"
  by (simp_all add: scanner_queries_def map_filter_def split: call.splits)

lemma scanner_queries_append [simp]:
  "scanner_queries (xs @ ys) = scanner_queries xs @ scanner_queries ys"
  by (simp add: scanner_queries_def map_filter_def)

lemma pass_starts_append [simp]: "pass_starts (xs @ ys) = pass_starts xs @ pass_starts ys"
  by (simp add: pass_starts_def)

lemma recreate_order_calls:
  "\<exists>cs. calls (fst (recreate_order self ended od (st, n, k))) = calls st @ cs
        \<and> scanner_queries cs = []
        \<and> pass_starts cs =
            [if market_slug od \<in> set ended then RemoveOrder (order_id od)
             else GetTokenBalance (token_id od)]"
  by (simp add: recreate_order_def call_add_order_def call_monitor_def call_client_def
        resubmit_order_def logged_def pass_starts_def
      split: prod.splits outcome.splits response.splits option.splits)

subsection \<open>The loop over the disappeared orders\<close>

lemma recreate_fold_split:
  "foldl (\<lambda>a od. recreate_order self ended od a) acc (pre @ od # post) =
     foldl (\<lambda>a od. recreate_order self ended od a)
       (recreate_order self ended od (foldl (\<lambda>a od. recreate_order self ended od a) acc pre)) post"
  by simp

lemma recreate_fold_calls:
  "\<exists>cs. calls (fst (foldl (\<lambda>a od. recreate_order self ended od a) (st, n, k) ds)) = calls st @ cs
        \<and> scanner_queries cs = []
        \<and> pass_starts cs =
            map (\<lambda>od. if market_slug od \<in> set ended then RemoveOrder (order_id od)
                       else GetTokenBalance (token_id od)) ds"
proof (induction ds arbitrary: st n k)
  case Nil
  show ?case by (simp add: pass_starts_def)
next
  case (Cons od rest)
  obtain st' n' k' where r: "recreate_order self ended od (st, n, k) = (st', n', k')"
    by (cases "recreate_order self ended od (st, n, k)")
  from recreate_order_calls[of self ended od st n k] r
  obtain cs where cs: "calls st' = calls st @ cs" "scanner_queries cs = []"
    "pass_starts cs = [if market_slug od \<in> set ended then RemoveOrder (order_id od)
             else GetTokenBalance (token_id od)]" by auto
  from Cons.IH[of st' n' k']
  obtain cs' where cs': "calls (fst (foldl (\<lambda>a od. recreate_order self ended od a) (st', n', k') rest))
      = calls st' @ cs'" "scanner_queries cs' = []"
    "pass_starts cs' = map (\<lambda>od. if market_slug od \<in> set ended then RemoveOrder (order_id od)
                       else GetTokenBalance (token_id od)) rest" by blast
  show ?case using r cs cs' by (intro exI[of _ "cs @ cs'"]) simp
qed

lemma recreate_fold_queries:
  "\<exists>cs. calls (fst (foldl (\<lambda>a od. recreate_order self ended od a) (st, n, k) ds)) = calls st @ cs
        \<and> scanner_queries cs = []"
  using recreate_fold_calls[of self ended st n k ds] by blast

lemma recreate_fold_count:
  "fst (snd (foldl (\<lambda>a od. recreate_order self ended od a) (st, n, k) ds)) =
     n + length (filter
           (\<lambda>i. successfully_recreated self ended (ds ! i)
                  (fst (foldl (\<lambda>a od. recreate_order self ended od a) (st, n, k) (take i ds))))
           [0..<length ds])"
proof (induction ds rule: rev_induct)
  case Nil
  show ?case by simp
next
  case (snoc x xs)
  let ?f = "\<lambda>a od. recreate_order self ended od a"
  obtain s' n' k' where a: "foldl ?f (st, n, k) xs = (s', n', k')"
    by (cases "foldl ?f (st, n, k) xs")
  have same: "filter (\<lambda>i. successfully_recreated self ended ((xs @ [x]) ! i)
                  (fst (foldl ?f (st, n, k) (take i (xs @ [x]))))) [0..<length xs]
      = filter (\<lambda>i. successfully_recreated self ended (xs ! i)
                  (fst (foldl ?f (st, n, k) (take i xs)))) [0..<length xs]"
    by (rule filter_cong) (auto simp: nth_append)
  have step: "fst (snd (foldl ?f (st, n, k) (xs @ [x]))) =
      n' + (if successfully_recreated self ended x s' then 1 else 0)"
    using a recreate_order_count[of self ended x s' n' k'] by simp
  have n': "n' = n + length (filter (\<lambda>i. successfully_recreated self ended (xs ! i)
                  (fst (foldl ?f (st, n, k) (take i xs)))) [0..<length xs])"
    using snoc.IH a by simp
  have last: "successfully_recreated self ended ((xs @ [x]) ! length xs)
                  (fst (foldl ?f (st, n, k) (take (length xs) (xs @ [x]))))
      = successfully_recreated self ended x s'"
    using a by simp
  have "[0..<length (xs @ [x])] = [0..<length xs] @ [length xs]" by simp
  then have "length (filter (\<lambda>i. successfully_recreated self ended ((xs @ [x]) ! i)
                  (fst (foldl ?f (st, n, k) (take i (xs @ [x]))))) [0..<length (xs @ [x])])
      = length (filter (\<lambda>i. successfully_recreated self ended (xs ! i)
                  (fst (foldl ?f (st, n, k) (take i xs)))) [0..<length xs])
        + (if successfully_recreated self ended x s' then 1 else 0)"
    using same last by simp
  then show ?case using step n' by simp
qed

subsection \<open>The status update and the batch check\<close>

lemma update_statuses_queries:
  "\<exists>cs. calls (snd (update_statuses self ids keys st)) = calls st @ cs
        \<and> scanner_queries cs = []"
proof (induction keys arbitrary: st)
  case Nil
  show ?case by simp
next
  case (Cons oid keys)
  obtain r st1 where c: "call_monitor (UpdateOrderStatus oid (oid \<in> set ids))
      (update_order_status (order_monitor self) oid (oid \<in> set ids)) st = (r, st1)"
    by (cases "call_monitor (UpdateOrderStatus oid (oid \<in> set ids))
      (update_order_status (order_monitor self) oid (oid \<in> set ids)) st")
  note f = call_monitor_frame(1)[OF c]
  show ?case
  proof (cases r)
    case Raises
    with c f show ?thesis by simp
  next
    case (Returns u)
    from Cons.IH[of st1]
    obtain cs where cs: "calls (snd (update_statuses self ids keys st1)) = calls st1 @ cs"
      "scanner_queries cs = []" by blast
    show ?thesis using c Returns f cs
      by (intro exI[of _ "UpdateOrderStatus oid (oid \<in> set ids) # cs"]) simp
  qed
qed

lemma scanner_queries_map_IsMarketActive [simp]:
  "scanner_queries (map IsMarketActive ms) = ms"
  by (induction ms) simp_all

lemma batch_check_calls:
  "\<exists>j \<le> length ms. calls (snd (batch_check scanner ms st)) = calls st @ map IsMarketActive (take j ms)
      \<and> (fst (batch_check scanner ms st) \<noteq> Raises \<longrightarrow> j = length ms)"
proof (induction ms arbitrary: st)
  case Nil
  show ?case by simp
next
  case (Cons m ms)
  obtain r st1 where c: "call_client (IsMarketActive m) (scanner m) st = (r, st1)"
    by (cases "call_client (IsMarketActive m) (scanner m) st")
  note f = call_client_frame(2)[OF c]
  show ?case
  proof (cases r)
    case Raises
    with c f show ?thesis by (intro exI[of _ 1]) simp
  next
    case (Returns a)
    from Cons.IH[of st1]
    obtain j where j: "j \<le> length ms"
      "calls (snd (batch_check scanner ms st1)) = calls st1 @ map IsMarketActive (take j ms)"
      "fst (batch_check scanner ms st1) \<noteq> Raises \<longrightarrow> j = length ms" by blast
    show ?thesis using c Returns f j
      by (intro exI[of _ "Suc j"]) (auto split: prod.splits outcome.splits)
  qed
qed


lemma ended_markets_of_Nil: "ended_markets_of self [] st = (Returns [], st)"
  by (simp add: ended_markets_of_def unique_markets_of_def split: option.splits)


lemma ended_markets_of_calls:
  "\<exists>j \<le> length (unique_markets_of ds).
      calls (snd (ended_markets_of self ds st)) = calls st @ map IsMarketActive (take j (unique_markets_of ds))
      \<and> (market_scanner self = None \<longrightarrow> j = 0)
      \<and> (market_scanner self \<noteq> None \<and> fst (ended_markets_of self ds st) \<noteq> Raises
           \<longrightarrow> j = length (unique_markets_of ds))"
proof (cases "market_scanner self")
  case None
  then show ?thesis by (intro exI[of _ 0]) (simp add: ended_markets_of_def)
next
  case (Some scanner)
  from batch_check_calls[of "unique_markets_of ds" scanner st]
  show ?thesis using Some by (auto simp: ended_markets_of_def)
qed

subsection \<open>The whole function\<close>

lemma check_and_recreate_orders_run:
  assumes "call_client GetOpenOrders (get_open_orders (client self)) st = (Returns oo, sa)"
    "update_statuses self (open_order_ids_of oo)
       (tracked_orders_keys (order_monitor self) (ledger sa)) sa = (Returns u, sb)"
    "get_disappeared_orders (order_monitor self) (ledger sb) = ds"
    "ended_markets_of self ds sb = (Returns ended, sc)"
  shows "check_and_recreate_orders self st =
           (Returns (fst (snd (foldl (\<lambda>a od. recreate_order self ended od a) (sc, 0, 0) ds))),
            fst (foldl (\<lambda>a od. recreate_order self ended od a) (sc, 0, 0) ds))"
proof (cases "ds = []")
  case True
  with assms(4) have "sc = sb" by (simp add: ended_markets_of_Nil)
  with True assms(1,2,3) show ?thesis
    by (simp add: check_and_recreate_orders_def recreate_disappeared_def)
next
  case False
  with assms show ?thesis
    by (simp add: check_and_recreate_orders_def recreate_disappeared_def recreate_loop_def
        split: prod.splits)
qed

lemma check_and_recreate_orders_aborts:
  assumes "call_client GetOpenOrders (get_open_orders (client self)) st = (Returns oo, sa)"
    "update_statuses self (open_order_ids_of oo)
       (tracked_orders_keys (order_monitor self) (ledger sa)) sa = (Returns u, sb)"
    "get_disappeared_orders (order_monitor self) (ledger sb) = ds"
    "ended_markets_of self ds sb = (Raises, sc)"
  shows "check_and_recreate_orders self st = (Raises, sc)"
proof -
  from assms(4) have "ds \<noteq> []" by (auto simp: ended_markets_of_Nil)
  with assms show ?thesis
    by (simp add: check_and_recreate_orders_def recreate_disappeared_def)
qed

lemma recreate_disappeared_queries:
  "\<exists>cs j. j \<le> length (unique_markets_of ds)
      \<and> calls (snd (recreate_disappeared self ds st)) = calls st @ cs
      \<and> scanner_queries cs = take j (unique_markets_of ds)
      \<and> (market_scanner self = None \<longrightarrow> j = 0)
      \<and> (market_scanner self \<noteq> None \<and> fst (ended_markets_of self ds st) \<noteq> Raises
           \<longrightarrow> j = length (unique_markets_of ds))"
proof (cases "ds = []")
  case True
  then show ?thesis
    by (intro exI[of _ "[]"] exI[of _ 0]) (simp add: recreate_disappeared_def unique_markets_of_def)
next
  case False
  obtain r st3 where e: "ended_markets_of self ds st = (r, st3)"
    by (cases "ended_markets_of self ds st")
  from ended_markets_of_calls[of ds self st]
  obtain j where j0: "j \<le> length (unique_markets_of ds) \<and>
    calls (snd (ended_markets_of self ds st)) =
       calls st @ map IsMarketActive (take j (unique_markets_of ds)) \<and>
    (market_scanner self = None \<longrightarrow> j = 0) \<and>
    (market_scanner self \<noteq> None \<and> fst (ended_markets_of self ds st) \<noteq> Raises
       \<longrightarrow> j = length (unique_markets_of ds))"
    by (erule exE)
  have j: "j \<le> length (unique_markets_of ds)"
    "calls st3 = calls st @ map IsMarketActive (take j (unique_markets_of ds))"
    "market_scanner self = None \<longrightarrow> j = 0"
    "market_scanner self \<noteq> None \<and> r \<noteq> Raises \<longrightarrow> j = length (unique_markets_of ds)"
    using j0 e by simp_all
  show ?thesis
  proof (cases r)
    case Raises
    then have "recreate_disappeared self ds st = (Raises, st3)"
      using False e by (simp add: recreate_disappeared_def)
    then show ?thesis using j e Raises
      by (intro exI[of _ "map IsMarketActive (take j (unique_markets_of ds))"] exI[of _ j]) simp
  next
    case (Returns ended)
    from recreate_fold_queries[of self ended st3 0 0 ds]
    obtain cs where cs: "calls (fst (foldl (\<lambda>a od. recreate_order self ended od a) (st3, 0, 0) ds))
        = calls st3 @ cs" "scanner_queries cs = []" by blast
    have "snd (recreate_disappeared self ds st) =
        fst (foldl (\<lambda>a od. recreate_order self ended od a) (st3, 0, 0) ds)"
      using False e Returns
      by (simp add: recreate_disappeared_def recreate_loop_def split: prod.splits)
    then show ?thesis using j e Returns cs
      by (intro exI[of _ "map IsMarketActive (take j (unique_markets_of ds)) @ cs"] exI[of _ j])
         simp
  qed
qed

lemma count_list_distinct:
  "distinct xs \<Longrightarrow> count_list xs m = (if m \<in> set xs then 1 else 0)"
  by (induction xs) auto

lemma check_and_recreate_orders_queries:
  assumes "call_client GetOpenOrders (get_open_orders (client self)) st = (Returns oo, sa)"
    "update_statuses self (open_order_ids_of oo)
       (tracked_orders_keys (order_monitor self) (ledger sa)) sa = (Returns u, sb)"
    "get_disappeared_orders (order_monitor self) (ledger sb) = ds"
  shows "\<exists>cs j. j \<le> length (unique_markets_of ds)
      \<and> calls (snd (check_and_recreate_orders self st)) = calls st @ cs
      \<and> scanner_queries cs = take j (unique_markets_of ds)
      \<and> (market_scanner self = None \<longrightarrow> j = 0)
      \<and> (market_scanner self \<noteq> None \<and> fst (ended_markets_of self ds sb) \<noteq> Raises
           \<longrightarrow> j = length (unique_markets_of ds))"
proof -
  have e: "check_and_recreate_orders self st = recreate_disappeared self ds sb"
    using assms by (simp add: check_and_recreate_orders_def)
  from update_statuses_queries[of self "open_order_ids_of oo"
         "tracked_orders_keys (order_monitor self) (ledger sa)" sa] assms(2)
  obtain cu where cu: "calls sb = calls sa @ cu" "scanner_queries cu = []" by auto
  note f = call_client_frame(2)[OF assms(1)]
  from recreate_disappeared_queries[of ds self sb]
  obtain cs j where cs: "j \<le> length (unique_markets_of ds)"
    "calls (snd (recreate_disappeared self ds sb)) = calls sb @ cs"
    "scanner_queries cs = take j (unique_markets_of ds)"
    "market_scanner self = None \<longrightarrow> j = 0"
    "market_scanner self \<noteq> None \<and> fst (ended_markets_of self ds sb) \<noteq> Raises
           \<longrightarrow> j = length (unique_markets_of ds)"
    by (elim exE conjE)
  show ?thesis unfolding e using cs cu f
    by (intro exI[of _ "[GetOpenOrders] @ cu @ cs"] exI[of _ j]) simp
qed

lemma check_and_recreate_orders_queries_distinct:
  "\<exists>cs. calls (snd (check_and_recreate_orders self st)) = calls st @ cs
        \<and> distinct (scanner_queries cs)"
proof -
  obtain r sa where g: "call_client GetOpenOrders (get_open_orders (client self)) st = (r, sa)"
    by (cases "call_client GetOpenOrders (get_open_orders (client self)) st")
  note f = call_client_frame(2)[OF g]
  show ?thesis
  proof (cases r)
    case Raises
    with g have "check_and_recreate_orders self st = (Raises, sa)"
      by (simp add: check_and_recreate_orders_def)
    then show ?thesis using f by simp
  next
    case (Returns oo)
    obtain r2 sb where us: "update_statuses self (open_order_ids_of oo)
       (tracked_orders_keys (order_monitor self) (ledger sa)) sa = (r2, sb)"
      by (cases "update_statuses self (open_order_ids_of oo)
       (tracked_orders_keys (order_monitor self) (ledger sa)) sa")
    show ?thesis
    proof (cases r2)
      case Raises
      from update_statuses_queries[of self "open_order_ids_of oo"
         "tracked_orders_keys (order_monitor self) (ledger sa)" sa] us
      obtain cu where cu: "calls sb = calls sa @ cu" "scanner_queries cu = []" by auto
      have "check_and_recreate_orders self st = (Raises, sb)"
        using g \<open>r = Returns oo\<close> us Raises by (simp add: check_and_recreate_orders_def)
      then show ?thesis using f cu by simp
    next
      case r2: (Returns u)
      from check_and_recreate_orders_queries[OF g[unfolded Returns] us[unfolded r2] refl]
      obtain cs j where "calls (snd (check_and_recreate_orders self st)) = calls st @ cs"
        "scanner_queries cs =
           take j (unique_markets_of (get_disappeared_orders (order_monitor self) (ledger sb)))"
        by (elim exE conjE)
      then show ?thesis by (auto simp: unique_markets_of_def)
    qed
  qed
qed

lemmas run_defs =
  scripted_executor_def scripted_client_def ledger_monitor_def ledger_add_order_def
  ledger_update_order_status_def ledger_get_disappeared_orders_def ledger_remove_order_def
  ledger_mark_order_filled_def ledger_mark_order_recreated_def
  ledger_get_markets_with_orders_def ledger_get_active_orders_by_market_def
  entry_order_def order_in_def tracked_def listed_buy_def start_state_def
  call_client_def call_monitor_def call_add_order_def
  logged_def resubmit_order_def replacement_order_def

text \<open>
  Claim C6, as stated, fails when the executor is built without a market scanner: the
  disappeared order \<open>o1\<close> of the market \<open>m\<close> is processed (and recreated) and the scanner
  is not queried at all.
\<close>

theorem market_liveness_counterexample:
  "check_and_recreate_orders
       ((scripted_executor [] (\<lambda>t. Returns 0) (\<lambda>i. Returns (OrderId ''n0'')) [])
          \<lparr>market_scanner := None\<rparr>)
       (start_state [tracked (entry_order ''o1'' 1 (44 / 100) (Some 65)) OPEN])
     = (Returns 1,
        \<lparr>ledger = [\<lparr>data = entry_order ''o1'' 1 (44 / 100) (Some 65), status = RECREATED,
                     replaced_by = Some ''n0''\<rparr>,
                   tracked (entry_order ''n0'' 1 (44 / 100) None) OPEN],
         world = 1,
         calls = [GetOpenOrders, UpdateOrderStatus ''o1'' False, GetTokenBalance ''T'',
                  PlaceLimitBuy ''T'' (44 / 100) (dec_mul (44 / 100) 10),
                  AddOrder (entry_order ''n0'' 1 (44 / 100) None),
                  MarkOrderRecreated ''o1'' ''n0'']\<rparr>)
   \<and> scanner_queries
        [GetOpenOrders, UpdateOrderStatus ''o1'' False, GetTokenBalance ''T'',
         PlaceLimitBuy ''T'' (44 / 100) (dec_mul (44 / 100) 10),
         AddOrder (entry_order ''n0'' 1 (44 / 100) None),
         MarkOrderRecreated ''o1'' ''n0''] = []"
  by (simp add: run_defs check_and_recreate_orders_def recreate_disappeared_def
      recreate_loop_def recreate_order_def ended_markets_of_def open_order_ids_of_def
      List.map_filter_def)

text \<open>
  Claim C6, amended. In a run of \<^verbatim>\<open>check_and_recreate_orders\<close> in which the open orders are
  fetched and the statuses updated, let \<open>ds\<close> be the disappeared orders the monitor then
  lists. When a market scanner is configured and its queries return, the scanner is asked
  exactly once for each distinct market of \<open>ds\<close>, not once for each order. When no scanner
  is configured it is not asked at all, and when a query raises the function raises with
  the remaining markets unqueried. In every case no market of \<open>ds\<close> is asked about twice and
  no other market is asked about, so the number of queries is at most the number of
  distinct markets, which is at most the number of disappeared orders.
\<close>

theorem market_liveness_queried_once:
  "(call_client GetOpenOrders (get_open_orders (client self)) st = (Returns oo, sa)
     \<and> update_statuses self (open_order_ids_of oo)
         (tracked_orders_keys (order_monitor self) (ledger sa)) sa = (Returns u, sb)
     \<and> get_disappeared_orders (order_monitor self) (ledger sb) = ds \<longrightarrow>
       (\<exists>cs. calls (snd (check_and_recreate_orders self st)) = calls st @ cs
          \<and> (\<forall>m. count_list (scanner_queries cs) m
                  \<le> (if m \<in> market_slug ` set ds then 1 else 0))
          \<and> length (scanner_queries cs) \<le> card (market_slug ` set ds)
          \<and> card (market_slug ` set ds) \<le> length ds
          \<and> (market_scanner self \<noteq> None \<and> fst (ended_markets_of self ds sb) \<noteq> Raises \<longrightarrow>
               (\<forall>m. count_list (scanner_queries cs) m
                      = (if m \<in> market_slug ` set ds then 1 else 0))
               \<and> length (scanner_queries cs) = card (market_slug ` set ds))
          \<and> (market_scanner self = None \<longrightarrow> scanner_queries cs = []))
       \<and> (ended_markets_of self ds sb = (Raises, sc) \<longrightarrow>
            check_and_recreate_orders self st = (Raises, sc)))
   \<and> (\<exists>cs. calls (snd (check_and_recreate_orders self st)) = calls st @ cs
         \<and> distinct (scanner_queries cs))"
proof (intro conjI impI)
  assume a: "call_client GetOpenOrders (get_open_orders (client self)) st = (Returns oo, sa)
     \<and> update_statuses self (open_order_ids_of oo)
         (tracked_orders_keys (order_monitor self) (ledger sa)) sa = (Returns u, sb)
     \<and> get_disappeared_orders (order_monitor self) (ledger sb) = ds"
  then have h1: "call_client GetOpenOrders (get_open_orders (client self)) st = (Returns oo, sa)"
    and h2: "update_statuses self (open_order_ids_of oo)
         (tracked_orders_keys (order_monitor self) (ledger sa)) sa = (Returns u, sb)"
    and h3: "get_disappeared_orders (order_monitor self) (ledger sb) = ds" by simp_all
  let ?U = "unique_markets_of ds"
  from check_and_recreate_orders_queries[OF h1 h2 h3]
  obtain cs j where cs: "j \<le> length ?U"
    "calls (snd (check_and_recreate_orders self st)) = calls st @ cs"
    "scanner_queries cs = take j ?U"
    "market_scanner self = None \<longrightarrow> j = 0"
    "market_scanner self \<noteq> None \<and> fst (ended_markets_of self ds sb) \<noteq> Raises
           \<longrightarrow> j = length ?U"
    by (elim exE conjE)
  have d: "distinct ?U" and s: "set ?U = market_slug ` set ds"
    and len: "length ?U = card (market_slug ` set ds)"
    by (simp_all add: unique_markets_of_def length_remdups_card_conv)
  have dt: "distinct (take j ?U)" using d by simp
  have sub: "set (take j ?U) \<subseteq> market_slug ` set ds" using s set_take_subset by fastforce
  have c1: "\<forall>m. count_list (scanner_queries cs) m \<le> (if m \<in> market_slug ` set ds then 1 else 0)"
    unfolding cs(3) using count_list_distinct[OF dt] sub by auto
  have c2: "length (scanner_queries cs) \<le> card (market_slug ` set ds)"
    unfolding cs(3) using len by simp
  have c3: "card (market_slug ` set ds) \<le> length ds"
    by (metis card_length length_map list.set_map)
  have c4: "market_scanner self \<noteq> None \<and> fst (ended_markets_of self ds sb) \<noteq> Raises \<longrightarrow>
               (\<forall>m. count_list (scanner_queries cs) m
                      = (if m \<in> market_slug ` set ds then 1 else 0))
               \<and> length (scanner_queries cs) = card (market_slug ` set ds)"
  proof
    assume "market_scanner self \<noteq> None \<and> fst (ended_markets_of self ds sb) \<noteq> Raises"
    with cs(5) have "j = length ?U" by simp
    then have "scanner_queries cs = ?U" using cs(3) by simp
    then show "(\<forall>m. count_list (scanner_queries cs) m
                      = (if m \<in> market_slug ` set ds then 1 else 0))
               \<and> length (scanner_queries cs) = card (market_slug ` set ds)"
      using count_list_distinct[OF d] s len by simp
  qed
  have c5: "market_scanner self = None \<longrightarrow> scanner_queries cs = []"
    using cs(3,4) by simp
  show "\<exists>cs. calls (snd (check_and_recreate_orders self st)) = calls st @ cs
          \<and> (\<forall>m. count_list (scanner_queries cs) m
                  \<le> (if m \<in> market_slug ` set ds then 1 else 0))
          \<and> length (scanner_queries cs) \<le> card (market_slug ` set ds)
          \<and> card (market_slug ` set ds) \<le> length ds
          \<and> (market_scanner self \<noteq> None \<and> fst (ended_markets_of self ds sb) \<noteq> Raises \<longrightarrow>
               (\<forall>m. count_list (scanner_queries cs) m
                      = (if m \<in> market_slug ` set ds then 1 else 0))
               \<and> length (scanner_queries cs) = card (market_slug ` set ds))
          \<and> (market_scanner self = None \<longrightarrow> scanner_queries cs = [])"
    using cs(2) c1 c2 c3 c4 c5 by (intro exI[of _ cs] conjI)
  assume "ended_markets_of self ds sb = (Raises, sc)"
  then show "check_and_recreate_orders self st = (Raises, sc)"
    by (rule check_and_recreate_orders_aborts[OF h1 h2 h3])
next
  show "\<exists>cs. calls (snd (check_and_recreate_orders self st)) = calls st @ cs
         \<and> distinct (scanner_queries cs)"
    by (rule check_and_recreate_orders_queries_distinct)
qed

theorem market_liveness_queried_once_witness:
  "scanner_queries (calls (snd (check_and_recreate_orders
       (scripted_executor [] (\<lambda>t. Returns 5) (\<lambda>i. Returns NoOrderId) [])
       (start_state [tracked (entry_order ''o1'' 1 (44 / 100) (Some 65)) OPEN,
                     tracked (entry_order ''o2'' 2 (31 / 100) (Some 65)) OPEN]))))
     = [''m'']"
proof -
  let ?ex = "scripted_executor [] (\<lambda>t. Returns 5) (\<lambda>i. Returns NoOrderId) []"
  let ?o1 = "entry_order ''o1'' 1 (44 / 100) (Some 65)"
  let ?o2 = "entry_order ''o2'' 2 (31 / 100) (Some 65)"
  let ?st = "start_state [tracked ?o1 OPEN, tracked ?o2 OPEN]"
  let ?sa = "\<lparr>ledger = [tracked ?o1 OPEN, tracked ?o2 OPEN], world = 0::nat,
               calls = [GetOpenOrders]\<rparr>"
  let ?sb = "\<lparr>ledger = [tracked ?o1 DISAPPEARED, tracked ?o2 DISAPPEARED], world = 0::nat,
               calls = [GetOpenOrders, UpdateOrderStatus ''o1'' False,
                        UpdateOrderStatus ''o2'' False]\<rparr>"
  note t = market_liveness_queried_once
             [where self = ?ex and st = ?st and oo = "[]" and sa = ?sa and u = "()"
                and sb = ?sb and ds = "[?o1, ?o2]" and sc = ?sb]
  have p: "call_client GetOpenOrders (get_open_orders (client ?ex)) ?st = (Returns [], ?sa)
     \<and> update_statuses ?ex (open_order_ids_of [])
         (tracked_orders_keys (order_monitor ?ex) (ledger ?sa)) ?sa = (Returns (), ?sb)
     \<and> get_disappeared_orders (order_monitor ?ex) (ledger ?sb) = [?o1, ?o2]"
    by (simp add: run_defs open_order_ids_of_def List.map_filter_def)
  have q: "market_scanner ?ex \<noteq> None \<and> fst (ended_markets_of ?ex [?o1, ?o2] ?sb) \<noteq> Raises"
    by (simp add: run_defs ended_markets_of_def unique_markets_of_def)
  have s: "market_slug ` set [?o1, ?o2] = {''m''}" by (simp add: entry_order_def)
  from t p q obtain cs where cs:
    "calls (snd (check_and_recreate_orders ?ex ?st)) = calls ?st @ cs"
    "\<forall>m. count_list (scanner_queries cs) m = (if m \<in> market_slug ` set [?o1, ?o2] then 1 else 0)"
    "length (scanner_queries cs) = card (market_slug ` set [?o1, ?o2])"
    by blast
  from cs(2) s have "count_list (scanner_queries cs) ''m'' = 1" by simp
  moreover from cs(3) s have "length (scanner_queries cs) = 1" by simp
  ultimately have "scanner_queries cs = [''m'']"
    by (cases "scanner_queries cs") (auto split: if_splits)
  with cs(1) show ?thesis by (simp add: start_state_def)
qed




text \<open>
  Claim C7, as stated, fails for a failure that comes after a change of the ledger. When
  the market queue raises in \<^verbatim>\<open>remove_market\<close>, the order of the ended market has already
  been removed from the ledger. When \<^verbatim>\<open>mark_order_recreated\<close> raises, the replacement has
  already been added by \<^verbatim>\<open>add_order\<close>: the old order stays unmarked next to its
  replacement and the recreation is not counted.
\<close>

theorem recreate_failure_counterexample:
  "check_and_recreate_orders
       ((scripted_executor [] (\<lambda>t. Returns 0) (\<lambda>i. Returns NoOrderId) [''m''])
          \<lparr>market_queue := Some (\<lambda>mslug w. (Raises, w))\<rparr>)
       (start_state [tracked (entry_order ''o1'' 1 (44 / 100) (Some 65)) OPEN])
     = (Returns 0,
        \<lparr>ledger = [], world = 0,
         calls = [GetOpenOrders, UpdateOrderStatus ''o1'' False, IsMarketActive ''m'',
                  RemoveOrder ''o1'', RemoveMarket ''m'']\<rparr>)
   \<and> check_and_recreate_orders
       ((scripted_executor [] (\<lambda>t. Returns 0) (\<lambda>i. Returns (OrderId ''n0'')) [])
          \<lparr>order_monitor := ledger_monitor\<lparr>mark_order_recreated := (\<lambda>old_id new_id l. Raises)\<rparr>\<rparr>)
       (start_state [tracked (entry_order ''o1'' 1 (44 / 100) (Some 65)) OPEN])
     = (Returns 0,
        \<lparr>ledger = [tracked (entry_order ''o1'' 1 (44 / 100) (Some 65)) DISAPPEARED,
                   tracked (entry_order ''n0'' 1 (44 / 100) None) OPEN],
         world = 1,
         calls = [GetOpenOrders, UpdateOrderStatus ''o1'' False, IsMarketActive ''m'',
                  GetTokenBalance ''T'',
                  PlaceLimitBuy ''T'' (44 / 100) (dec_mul (44 / 100) 10),
                  AddOrder (entry_order ''n0'' 1 (44 / 100) None),
                  MarkOrderRecreated ''o1'' ''n0'']\<rparr>)"
  by (simp add: run_defs check_and_recreate_orders_def recreate_disappeared_def
      recreate_loop_def recreate_order_def ended_markets_of_def open_order_ids_of_def
      unique_markets_of_def List.map_filter_def)

text \<open>
  Claim C7, amended. A run of \<^verbatim>\<open>check_and_recreate_orders\<close> in which the open orders are
  fetched, the statuses updated and the batch check returns, returns a count whatever
  happens in the passes: every disappeared order gets its pass, from the state the passes
  before it left, also after a pass that failed, so the calls that open a pass
  (\<^verbatim>\<open>remove_order\<close> for an order of an ended market, \<^verbatim>\<open>get_token_balance\<close> for any other) are
  made once for each disappeared order, in the order of the list. A pass that fails before it has changed
  the ledger (the balance call or the placement raises, the placement returns no order id,
  or \<^verbatim>\<open>remove_order\<close>, \<^verbatim>\<open>mark_order_filled\<close> or \<^verbatim>\<open>add_order\<close> raises) leaves the ledger as it
  was, so the order is not marked as recreated and no replacement is tracked, and leaves
  the count as it was. A pass that fails after a change keeps the change: when
  \<^verbatim>\<open>remove_market\<close> raises the order stays removed, and when \<^verbatim>\<open>mark_order_recreated\<close> raises
  the replacement stays in the ledger, the old order is not linked and the count is as it
  was. The count returned is the number of the orders successfully recreated.
\<close>

theorem recreate_failure_is_isolated:
  "(call_client GetOpenOrders (get_open_orders (client self)) st0 = (Returns oo, sa)
     \<and> update_statuses self (open_order_ids_of oo)
         (tracked_orders_keys (order_monitor self) (ledger sa)) sa = (Returns u, sb)
     \<and> get_disappeared_orders (order_monitor self) (ledger sb) = ds
     \<and> ended_markets_of self ds sb = (Returns ended, sc) \<longrightarrow>
       check_and_recreate_orders self st0 =
         (Returns (fst (snd (foldl (\<lambda>a od. recreate_order self ended od a) (sc, 0, 0) ds))),
          fst (foldl (\<lambda>a od. recreate_order self ended od a) (sc, 0, 0) ds))
       \<and> (\<exists>cs. calls (snd (check_and_recreate_orders self st0)) = calls sc @ cs
             \<and> pass_starts cs =
                 map (\<lambda>od. if market_slug od \<in> set ended then RemoveOrder (order_id od)
                            else GetTokenBalance (token_id od)) ds))
   \<and> foldl (\<lambda>a od. recreate_order self ended od a) acc (pre @ od # post) =
       foldl (\<lambda>a od. recreate_order self ended od a)
         (recreate_order self ended od (foldl (\<lambda>a od. recreate_order self ended od a) acc pre))
         post
   \<and> (market_slug od \<notin> set ended \<longrightarrow>
        (call_client (GetTokenBalance (token_id od))
           (get_token_balance (client self) (token_id od)) st = (Raises, st1) \<longrightarrow>
           recreate_order self ended od (st, n, k) = (st1, n, k) \<and> ledger st1 = ledger st)
      \<and> (call_client (GetTokenBalance (token_id od))
           (get_token_balance (client self) (token_id od)) st = (Returns b, st1) \<and> 1 / 10 < b
           \<and> mark_order_filled (order_monitor self) (order_id od) (ledger st1) = Raises \<longrightarrow>
           recreate_order self ended od (st, n, k) =
             (st1\<lparr>calls := calls st1 @ [MarkOrderFilled (order_id od)]\<rparr>, n, k)
           \<and> ledger st1 = ledger st)
      \<and> (call_client (GetTokenBalance (token_id od))
           (get_token_balance (client self) (token_id od)) st = (Returns b, st1) \<and> b \<le> 1 / 10 \<longrightarrow>
           (resubmit_order self od st1 = (Raises, st2)
              \<or> resubmit_order self od st1 = (Returns NoOrderId, st2) \<longrightarrow>
              recreate_order self ended od (st, n, k) = (st2, n, k) \<and> ledger st2 = ledger st)
         \<and> (resubmit_order self od st1 = (Returns (OrderId new_id), st2)
              \<and> add_order (order_monitor self) (replacement_order od new_id) (ledger st2) = Raises \<longrightarrow>
              recreate_order self ended od (st, n, k) =
                (st2\<lparr>calls := calls st2 @ [AddOrder (replacement_order od new_id)]\<rparr>, n, k)
              \<and> ledger st2 = ledger st)
         \<and> (resubmit_order self od st1 = (Returns (OrderId new_id), st2)
              \<and> add_order (order_monitor self) (replacement_order od new_id) (ledger st2) = Returns l
              \<and> mark_order_recreated (order_monitor self) (order_id od) new_id l = Raises \<longrightarrow>
              recreate_order self ended od (st, n, k) =
                (st2\<lparr>ledger := l,
                     calls := calls st2 @ [AddOrder (replacement_order od new_id),
                                           MarkOrderRecreated (order_id od) new_id]\<rparr>, n, k))))
   \<and> (market_slug od \<in> set ended \<longrightarrow>
        (remove_order (order_monitor self) (order_id od) (ledger st) = Raises \<longrightarrow>
           recreate_order self ended od (st, n, k) =
             (st\<lparr>calls := calls st @ [RemoveOrder (order_id od)]\<rparr>, n, k + 1))
      \<and> (remove_order (order_monitor self) (order_id od) (ledger st) = Returns l
           \<and> market_queue self = Some queue
           \<and> queue (market_slug od) (world st) = (Raises, w) \<longrightarrow>
           recreate_order self ended od (st, n, k) =
             (st\<lparr>ledger := l, world := w,
                 calls := calls st @ [RemoveOrder (order_id od), RemoveMarket (market_slug od)]\<rparr>,
              n, k + 1)))
   \<and> fst (snd (foldl (\<lambda>a od. recreate_order self ended od a) (st, n, k) ds')) =
       n + length (filter
             (\<lambda>i. successfully_recreated self ended (ds' ! i)
                    (fst (foldl (\<lambda>a od. recreate_order self ended od a) (st, n, k) (take i ds'))))
             [0..<length ds'])"
proof (intro conjI impI)
  assume a: "call_client GetOpenOrders (get_open_orders (client self)) st0 = (Returns oo, sa)
     \<and> update_statuses self (open_order_ids_of oo)
         (tracked_orders_keys (order_monitor self) (ledger sa)) sa = (Returns u, sb)
     \<and> get_disappeared_orders (order_monitor self) (ledger sb) = ds
     \<and> ended_markets_of self ds sb = (Returns ended, sc)"
  then have h1: "call_client GetOpenOrders (get_open_orders (client self)) st0 = (Returns oo, sa)"
    and h2: "update_statuses self (open_order_ids_of oo)
         (tracked_orders_keys (order_monitor self) (ledger sa)) sa = (Returns u, sb)"
    and h3: "get_disappeared_orders (order_monitor self) (ledger sb) = ds"
    and h4: "ended_markets_of self ds sb = (Returns ended, sc)" by simp_all
  show "check_and_recreate_orders self st0 =
         (Returns (fst (snd (foldl (\<lambda>a od. recreate_order self ended od a) (sc, 0, 0) ds))),
          fst (foldl (\<lambda>a od. recreate_order self ended od a) (sc, 0, 0) ds))"
    by (rule check_and_recreate_orders_run[OF h1 h2 h3 h4])
  from recreate_fold_calls[of self ended sc 0 0 ds]
  show "\<exists>cs. calls (snd (check_and_recreate_orders self st0)) = calls sc @ cs
             \<and> pass_starts cs =
                 map (\<lambda>od. if market_slug od \<in> set ended then RemoveOrder (order_id od)
                            else GetTokenBalance (token_id od)) ds"
    unfolding check_and_recreate_orders_run[OF h1 h2 h3 h4] by auto
next
  show "foldl (\<lambda>a od. recreate_order self ended od a) acc (pre @ od # post) =
       foldl (\<lambda>a od. recreate_order self ended od a)
         (recreate_order self ended od (foldl (\<lambda>a od. recreate_order self ended od a) acc pre))
         post"
    by (rule recreate_fold_split)
next
  assume ne: "market_slug od \<notin> set ended"
    and bal: "call_client (GetTokenBalance (token_id od))
         (get_token_balance (client self) (token_id od)) st = (Raises, st1)"
  show "recreate_order self ended od (st, n, k) = (st1, n, k)"
    by (rule recreate_order_balance_raises[OF ne bal])
  show "ledger st1 = ledger st" by (rule call_client_frame(1)[OF bal])
next
  assume ne: "market_slug od \<notin> set ended"
    and bal: "call_client (GetTokenBalance (token_id od))
           (get_token_balance (client self) (token_id od)) st = (Returns b, st1) \<and> 1 / 10 < b
           \<and> mark_order_filled (order_monitor self) (order_id od) (ledger st1) = Raises"
  from bal have b1: "call_client (GetTokenBalance (token_id od))
           (get_token_balance (client self) (token_id od)) st = (Returns b, st1)"
    and b2: "1 / 10 < b"
    and b3: "mark_order_filled (order_monitor self) (order_id od) (ledger st1) = Raises"
    by simp_all
  show "recreate_order self ended od (st, n, k) =
             (st1\<lparr>calls := calls st1 @ [MarkOrderFilled (order_id od)]\<rparr>, n, k)"
    by (rule recreate_order_mark_filled_raises[OF ne b1 b2 b3])
  show "ledger st1 = ledger st" by (rule call_client_frame(1)[OF b1])
next
  assume ne: "market_slug od \<notin> set ended"
    and bal: "call_client (GetTokenBalance (token_id od))
         (get_token_balance (client self) (token_id od)) st = (Returns b, st1) \<and> b \<le> 1 / 10"
    and pl: "resubmit_order self od st1 = (Raises, st2)
            \<or> resubmit_order self od st1 = (Returns NoOrderId, st2)"
  from pl obtain r where r: "resubmit_order self od st1 = (r, st2)" "r = Raises \<or> r = Returns NoOrderId"
    by blast
  show "recreate_order self ended od (st, n, k) = (st2, n, k)"
    by (rule recreate_order_placement_fails[OF ne conjunct1[OF bal] conjunct2[OF bal] r])
  show "ledger st2 = ledger st"
    using resubmit_order_frame(1)[OF r(1)] call_client_frame(1)[OF conjunct1[OF bal]] by simp
next
  assume ne: "market_slug od \<notin> set ended"
    and bal: "call_client (GetTokenBalance (token_id od))
         (get_token_balance (client self) (token_id od)) st = (Returns b, st1) \<and> b \<le> 1 / 10"
    and pl: "resubmit_order self od st1 = (Returns (OrderId new_id), st2)
            \<and> add_order (order_monitor self) (replacement_order od new_id) (ledger st2) = Raises"
  show "recreate_order self ended od (st, n, k) =
              (st2\<lparr>calls := calls st2 @ [AddOrder (replacement_order od new_id)]\<rparr>, n, k)"
    by (rule recreate_order_add_fails[OF ne conjunct1[OF bal] conjunct2[OF bal]
          conjunct1[OF pl] conjunct2[OF pl]])
  show "ledger st2 = ledger st"
    using resubmit_order_frame(1)[OF conjunct1[OF pl]] call_client_frame(1)[OF conjunct1[OF bal]]
    by simp
next
  assume ne: "market_slug od \<notin> set ended"
    and bal: "call_client (GetTokenBalance (token_id od))
         (get_token_balance (client self) (token_id od)) st = (Returns b, st1) \<and> b \<le> 1 / 10"
    and pl: "resubmit_order self od st1 = (Returns (OrderId new_id), st2)
              \<and> add_order (order_monitor self) (replacement_order od new_id) (ledger st2) = Returns l
              \<and> mark_order_recreated (order_monitor self) (order_id od) new_id l = Raises"
  from pl have p1: "resubmit_order self od st1 = (Returns (OrderId new_id), st2)"
    and p2: "add_order (order_monitor self) (replacement_order od new_id) (ledger st2) = Returns l"
    and p3: "mark_order_recreated (order_monitor self) (order_id od) new_id l = Raises"
    by simp_all
  show "recreate_order self ended od (st, n, k) =
                (st2\<lparr>ledger := l,
                     calls := calls st2 @ [AddOrder (replacement_order od new_id),
                                           MarkOrderRecreated (order_id od) new_id]\<rparr>, n, k)"
    by (rule recreate_order_link_raises[OF ne conjunct1[OF bal] conjunct2[OF bal] p1 p2 p3])
next
  assume e: "market_slug od \<in> set ended"
    and r: "remove_order (order_monitor self) (order_id od) (ledger st) = Raises"
  show "recreate_order self ended od (st, n, k) =
             (st\<lparr>calls := calls st @ [RemoveOrder (order_id od)]\<rparr>, n, k + 1)"
    by (rule recreate_order_remove_raises[OF e r])
next
  assume e: "market_slug od \<in> set ended"
    and r: "remove_order (order_monitor self) (order_id od) (ledger st) = Returns l
           \<and> market_queue self = Some queue
           \<and> queue (market_slug od) (world st) = (Raises, w)"
  from r have r1: "remove_order (order_monitor self) (order_id od) (ledger st) = Returns l"
    and r2: "market_queue self = Some queue"
    and r3: "queue (market_slug od) (world st) = (Raises, w)" by simp_all
  show "recreate_order self ended od (st, n, k) =
             (st\<lparr>ledger := l, world := w,
                 calls := calls st @ [RemoveOrder (order_id od), RemoveMarket (market_slug od)]\<rparr>,
              n, k + 1)"
    by (rule recreate_order_ended_queue[OF e r1 r2 r3])
next
  show "fst (snd (foldl (\<lambda>a od. recreate_order self ended od a) (st, n, k) ds')) =
       n + length (filter
             (\<lambda>i. successfully_recreated self ended (ds' ! i)
                    (fst (foldl (\<lambda>a od. recreate_order self ended od a) (st, n, k) (take i ds'))))
             [0..<length ds'])"
    by (rule recreate_fold_count)
qed

theorem recreate_failure_is_isolated_witness:
  "check_and_recreate_orders
       (scripted_executor [] (\<lambda>t. Returns 0)
          (\<lambda>i. if i = 0 then Returns NoOrderId else Returns (OrderId ''n1'')) [])
       (start_state [tracked (entry_order ''o1'' 1 (44 / 100) (Some 65)) OPEN,
                     tracked (entry_order ''o2'' 2 (31 / 100) (Some 65)) OPEN])
     = (Returns 1,
        \<lparr>ledger = [tracked (entry_order ''o1'' 1 (44 / 100) (Some 65)) DISAPPEARED,
                   \<lparr>data = entry_order ''o2'' 2 (31 / 100) (Some 65), status = RECREATED,
                     replaced_by = Some ''n1''\<rparr>,
                   tracked (entry_order ''n1'' 2 (31 / 100) None) OPEN],
         world = 2,
         calls = [GetOpenOrders, UpdateOrderStatus ''o1'' False, UpdateOrderStatus ''o2'' False,
                  IsMarketActive ''m'',
                  GetTokenBalance ''T'',
                  PlaceLimitBuy ''T'' (44 / 100) (dec_mul (44 / 100) 10),
                  GetTokenBalance ''T'',
                  PlaceLimitBuy ''T'' (31 / 100) (dec_mul (31 / 100) 10),
                  AddOrder (entry_order ''n1'' 2 (31 / 100) None),
                  MarkOrderRecreated ''o2'' ''n1'']\<rparr>)"
proof -
  let ?ex = "scripted_executor [] (\<lambda>t. Returns 0)
          (\<lambda>i. if i = 0 then Returns NoOrderId else Returns (OrderId ''n1'')) []"
  let ?o1 = "entry_order ''o1'' 1 (44 / 100) (Some 65)"
  let ?o2 = "entry_order ''o2'' 2 (31 / 100) (Some 65)"
  let ?st = "start_state [tracked ?o1 OPEN, tracked ?o2 OPEN]"
  let ?sa = "\<lparr>ledger = [tracked ?o1 OPEN, tracked ?o2 OPEN], world = 0::nat,
               calls = [GetOpenOrders]\<rparr>"
  let ?sb = "\<lparr>ledger = [tracked ?o1 DISAPPEARED, tracked ?o2 DISAPPEARED], world = 0::nat,
               calls = [GetOpenOrders, UpdateOrderStatus ''o1'' False,
                        UpdateOrderStatus ''o2'' False]\<rparr>"
  let ?sc = "\<lparr>ledger = [tracked ?o1 DISAPPEARED, tracked ?o2 DISAPPEARED], world = 0::nat,
               calls = [GetOpenOrders, UpdateOrderStatus ''o1'' False,
                        UpdateOrderStatus ''o2'' False, IsMarketActive ''m'']\<rparr>"
  let ?s1b = "\<lparr>ledger = [tracked ?o1 DISAPPEARED, tracked ?o2 DISAPPEARED], world = 0::nat,
               calls = [GetOpenOrders, UpdateOrderStatus ''o1'' False,
                        UpdateOrderStatus ''o2'' False, IsMarketActive ''m'',
                        GetTokenBalance ''T'']\<rparr>"
  let ?s1 = "\<lparr>ledger = [tracked ?o1 DISAPPEARED, tracked ?o2 DISAPPEARED], world = 1::nat,
               calls = [GetOpenOrders, UpdateOrderStatus ''o1'' False,
                        UpdateOrderStatus ''o2'' False, IsMarketActive ''m'',
                        GetTokenBalance ''T'',
                        PlaceLimitBuy ''T'' (44 / 100) (dec_mul (44 / 100) 10)]\<rparr>"
  note t = recreate_failure_is_isolated
             [where self = ?ex and ?st0.0 = ?st and oo = "[]" and sa = ?sa and u = "()"
                and sb = ?sb and ds = "[?o1, ?o2]" and ended = "[]" and sc = ?sc
                and acc = "(?sc, 0, 0)" and pre = "[]" and od = ?o1 and post = "[?o2]"
                and st = ?sc and n = 0 and k = 0 and b = 0 and ?st1.0 = ?s1b and ?st2.0 = ?s1
                and new_id = "''n1''" and l = "[]" and queue = "\<lambda>m w. (Returns (), w)"
                and w = 0 and ds' = "[]"]
  have p: "call_client GetOpenOrders (get_open_orders (client ?ex)) ?st = (Returns [], ?sa)
     \<and> update_statuses ?ex (open_order_ids_of [])
         (tracked_orders_keys (order_monitor ?ex) (ledger ?sa)) ?sa = (Returns (), ?sb)
     \<and> get_disappeared_orders (order_monitor ?ex) (ledger ?sb) = [?o1, ?o2]
     \<and> ended_markets_of ?ex [?o1, ?o2] ?sb = (Returns [], ?sc)"
    by (simp add: run_defs open_order_ids_of_def List.map_filter_def ended_markets_of_def
        unique_markets_of_def)
  from t p have run: "check_and_recreate_orders ?ex ?st =
         (Returns (fst (snd (foldl (\<lambda>a od. recreate_order ?ex [] od a) (?sc, 0, 0) [?o1, ?o2]))),
          fst (foldl (\<lambda>a od. recreate_order ?ex [] od a) (?sc, 0, 0) [?o1, ?o2]))"
    by blast
  from t have split: "foldl (\<lambda>a od. recreate_order ?ex [] od a) (?sc, 0, 0) ([] @ ?o1 # [?o2]) =
       foldl (\<lambda>a od. recreate_order ?ex [] od a)
         (recreate_order ?ex [] ?o1 (foldl (\<lambda>a od. recreate_order ?ex [] od a) (?sc, 0, 0) []))
         [?o2]"
    by blast
  have q: "market_slug ?o1 \<notin> set []
      \<and> call_client (GetTokenBalance (token_id ?o1))
           (get_token_balance (client ?ex) (token_id ?o1)) ?sc = (Returns 0, ?s1b)
      \<and> (0::rat) \<le> 1 / 10
      \<and> resubmit_order ?ex ?o1 ?s1b = (Returns NoOrderId, ?s1)"
    by (simp add: run_defs)
  from t q have e1: "recreate_order ?ex [] ?o1 (?sc, 0, 0) = (?s1, 0, 0)"
    by blast
  have fold: "foldl (\<lambda>a od. recreate_order ?ex [] od a) (?sc, 0, 0) [?o1, ?o2] =
      recreate_order ?ex [] ?o2 (?s1, 0, 0)"
    using split e1 by simp
  show ?thesis unfolding run fold by (simp add: run_defs recreate_order_def)
qed

section \<open>Filled positions and take-profit orders\<close>

lemma filled_marks_simps [simp]:
  "filled_marks [] = []"
  "filled_marks (c # cs) =
     (case c of MarkOrderFilled a \<Rightarrow> a # filled_marks cs | _ \<Rightarrow> filled_marks cs)"
  by (simp_all add: filled_marks_def map_filter_def split: call.splits)

lemma filled_marks_append [simp]:
  "filled_marks (xs @ ys) = filled_marks xs @ filled_marks ys"
  by (simp add: filled_marks_def map_filter_def)

lemma placements_simps [simp]:
  "placements [] = []"
  "placements (c # cs) =
     (case c of PlaceLimitBuy _ _ _ \<Rightarrow> c # placements cs
              | PlaceLimitSell _ _ _ \<Rightarrow> c # placements cs
              | _ \<Rightarrow> placements cs)"
  by (simp_all add: placements_def split: call.splits)

lemma placements_append [simp]: "placements (xs @ ys) = placements xs @ placements ys"
  by (simp add: placements_def)

lemma filled_marks_map_MarkOrderFilled [simp]:
  "filled_marks (map (\<lambda>od. MarkOrderFilled (f od)) xs) = map f xs"
  by (induction xs) simp_all

lemma placements_map_MarkOrderFilled [simp]:
  "placements (map (\<lambda>od. MarkOrderFilled (f od)) xs) = []"
  by (induction xs) simp_all

lemma mark_filled_orders_calls:
  "\<exists>j \<le> length orders.
      calls (snd (mark_filled_orders self orders st)) =
        calls st @ map (\<lambda>od. MarkOrderFilled (order_id od)) (take j orders)
      \<and> (fst (mark_filled_orders self orders st) \<noteq> Raises \<longrightarrow> j = length orders)"
proof (induction orders arbitrary: st)
  case Nil
  show ?case by simp
next
  case (Cons od orders)
  obtain r st1 where c: "call_monitor (MarkOrderFilled (order_id od))
      (mark_order_filled (order_monitor self) (order_id od)) st = (r, st1)"
    by (cases "call_monitor (MarkOrderFilled (order_id od))
      (mark_order_filled (order_monitor self) (order_id od)) st")
  note f = call_monitor_frame(1)[OF c]
  show ?case
  proof (cases r)
    case Raises
    with c f show ?thesis by (intro exI[of _ 1]) simp
  next
    case (Returns u)
    from Cons.IH[of st1]
    obtain j where j: "j \<le> length orders \<and>
      calls (snd (mark_filled_orders self orders st1)) =
        calls st1 @ map (\<lambda>od. MarkOrderFilled (order_id od)) (take j orders) \<and>
      (fst (mark_filled_orders self orders st1) \<noteq> Raises \<longrightarrow> j = length orders)"
      by (erule exE)
    show ?thesis using c Returns f j
      by (intro exI[of _ "Suc j"]) simp
  qed
qed

lemma mark_filled_orders_returns:
  assumes "mark_filled_orders self orders st = (Returns u, st')"
  shows "calls st' = calls st @ map (\<lambda>od. MarkOrderFilled (order_id od)) orders"
proof -
  from mark_filled_orders_calls[of orders self st]
  obtain j where j: "j \<le> length orders \<and>
      calls (snd (mark_filled_orders self orders st)) =
        calls st @ map (\<lambda>od. MarkOrderFilled (order_id od)) (take j orders) \<and>
      (fst (mark_filled_orders self orders st) \<noteq> Raises \<longrightarrow> j = length orders)"
    by (erule exE)
  with assms show ?thesis by simp
qed

lemma place_take_profit_orders_frame:
  "\<exists>cs. calls (snd (place_take_profit_orders self tok m lbl p sz st)) = calls st @ cs
        \<and> filled_marks cs = []"
proof -
  obtain r st1 where c: "call_client (PlaceLimitSell tok p sz)
      (place_limit_sell (client self) tok p sz) st = (r, st1)"
    by (cases "call_client (PlaceLimitSell tok p sz) (place_limit_sell (client self) tok p sz) st")
  note f1 = call_client_frame(2)[OF c]
  show ?thesis
  proof (cases "\<exists>oid. r = Returns (OrderId oid)")
    case False
    then have "place_take_profit_orders self tok m lbl p sz st = (None, st1)"
      using c by (auto simp: place_take_profit_orders_def split: outcome.splits response.splits)
    then show ?thesis using f1 by simp
  next
    case True
    then obtain oid where r: "r = Returns (OrderId oid)" by blast
    let ?args = "\<lparr>order_id = oid, token_id = tok, market_slug = m, side = ''SELL'',
                   price = p, size = sz, entry_number = None, strong_team_price_cents = None\<rparr>"
    obtain r2 st2 where a: "call_add_order self ?args st1 = (r2, st2)"
      by (cases "call_add_order self ?args st1")
    note f2 = call_add_order_frame(1)[OF a]
    have "snd (place_take_profit_orders self tok m lbl p sz st) = st2"
      using c r a by (auto simp: place_take_profit_orders_def split: outcome.splits)
    then show ?thesis using f1 f2 by simp
  qed
qed

lemma place_tp_specs_Cons:
  "place_tp_specs self tok m (sp # specs) (st, tp) =
     place_tp_specs self tok m specs
       (case place_take_profit_orders self tok m (tp_label sp) (tp_price sp) (tp_size sp) st of
          (None, st1) \<Rightarrow> (st1, tp)
        | (Some tp_order_id, st1) \<Rightarrow> (st1, if tp_order_id = [] then tp else tp + 1))"
  by (simp add: place_tp_specs_def)

lemma place_tp_specs_frame:
  "\<exists>cs. calls (fst (place_tp_specs self tok m specs (st, tp))) = calls st @ cs
        \<and> filled_marks cs = []"
proof (induction specs arbitrary: st tp)
  case Nil
  show ?case by (simp add: place_tp_specs_def)
next
  case (Cons sp specs)
  obtain r st1 where p: "place_take_profit_orders self tok m (tp_label sp) (tp_price sp) (tp_size sp) st
      = (r, st1)"
    by (cases "place_take_profit_orders self tok m (tp_label sp) (tp_price sp) (tp_size sp) st")
  from place_take_profit_orders_frame[of self tok m "tp_label sp" "tp_price sp" "tp_size sp" st] p
  obtain cs where cs: "calls st1 = calls st @ cs" "filled_marks cs = []" by auto
  obtain tp1 where n: "(case (r, st1) of
          (None, st1) \<Rightarrow> (st1, tp)
        | (Some tp_order_id, st1) \<Rightarrow> (st1, if tp_order_id = [] then tp else tp + 1)) = (st1, tp1)"
    by (cases r) auto
  from Cons.IH[of st1 tp1]
  obtain cs' where cs': "calls (fst (place_tp_specs self tok m specs (st1, tp1))) = calls st1 @ cs'"
    "filled_marks cs' = []" by blast
  show ?case unfolding place_tp_specs_Cons p n using cs cs'
    by (intro exI[of _ "cs @ cs'"]) simp
qed

lemma py_prefix_nonneg: "0 \<le> k \<Longrightarrow> py_prefix k xs = take (nat k) xs"
  by (simp add: py_prefix_def)

lemma check_token_skipped:
  assumes "call_client (GetTokenBalance tok) (get_token_balance (client self) tok) st = (Returns b, st1)"
    "b \<le> 0 \<or> dec_sub b (existing_sell_size oo tok) \<le> 1 / 100"
  shows "check_token self oo m (tok, bo, sp) (st, tp) = (Returns tp, st1)"
  using assms by (auto simp: check_token_def Let_def)

lemma check_token_raises:
  assumes "call_client (GetTokenBalance tok) (get_token_balance (client self) tok) st = (Raises, st1)"
  shows "check_token self oo m (tok, bo, sp) (st, tp) = (Raises, st1)"
  using assms by (simp add: check_token_def Let_def)

lemma check_token_marking_raises:
  assumes "call_client (GetTokenBalance tok) (get_token_balance (client self) tok) st = (Returns b, st1)"
    "0 < b" "1 / 100 < dec_sub b (existing_sell_size oo tok)"
    "mark_filled_orders self (py_prefix (filled_entries_count bo oo tok) bo) st1 = (Raises, st2)"
  shows "check_token self oo m (tok, bo, sp) (st, tp) = (Raises, st2)"
  using assms by (simp add: check_token_def Let_def)

lemma check_token_processed:
  assumes "call_client (GetTokenBalance tok) (get_token_balance (client self) tok) st = (Returns b, st1)"
    "0 < b" "1 / 100 < dec_sub b (existing_sell_size oo tok)"
    "mark_filled_orders self (py_prefix (filled_entries_count bo oo tok) bo) st1 = (Returns u, st2)"
  shows "check_token self oo m (tok, bo, sp) (st, tp) =
     (case sp of
        None \<Rightarrow> (Returns tp, st2)
      | Some c \<Rightarrow>
          if c = 0 then (Returns tp, st2)
          else
            (Returns (snd (place_tp_specs self tok m
                 (calculate_take_profit_orders
                    (filled_entries_of (py_prefix (filled_entries_count bo oo tok) bo)) c
                    (dec_sub b (existing_sell_size oo tok)))
                 (st2, tp))),
             fst (place_tp_specs self tok m
                 (calculate_take_profit_orders
                    (filled_entries_of (py_prefix (filled_entries_count bo oo tok) bo)) c
                    (dec_sub b (existing_sell_size oo tok)))
                 (st2, tp))))"
  using assms by (simp add: check_token_def Let_def split: option.splits prod.splits)

lemma check_token_marks:
  assumes "call_client (GetTokenBalance tok) (get_token_balance (client self) tok) st = (Returns b, st1)"
    "0 < b" "1 / 100 < dec_sub b (existing_sell_size oo tok)"
    "mark_filled_orders self (py_prefix (filled_entries_count bo oo tok) bo) st1 = (Returns u, st2)"
  shows "\<exists>cs. calls (snd (check_token self oo m (tok, bo, sp) (st, tp))) = calls st @ cs
     \<and> filled_marks cs = map order_id (py_prefix (filled_entries_count bo oo tok) bo)"
    and "fst (check_token self oo m (tok, bo, sp) (st, tp)) \<noteq> Raises"
proof -
  let ?fo = "py_prefix (filled_entries_count bo oo tok) bo"
  have cS: "calls st2 = calls st @ [GetTokenBalance tok] @ map (\<lambda>od. MarkOrderFilled (order_id od)) ?fo"
    using call_client_frame(2)[OF assms(1)] mark_filled_orders_returns[OF assms(4)] by simp
  have m0: "filled_marks ([GetTokenBalance tok] @ map (\<lambda>od. MarkOrderFilled (order_id od)) ?fo)
      = map order_id ?fo" by simp
  show "fst (check_token self oo m (tok, bo, sp) (st, tp)) \<noteq> Raises"
    unfolding check_token_processed[OF assms] by (simp split: option.splits)
  show "\<exists>cs. calls (snd (check_token self oo m (tok, bo, sp) (st, tp))) = calls st @ cs
     \<and> filled_marks cs = map order_id (py_prefix (filled_entries_count bo oo tok) bo)"
  proof (cases "sp = None \<or> sp = Some 0")
    case True
    then have "snd (check_token self oo m (tok, bo, sp) (st, tp)) = st2"
      unfolding check_token_processed[OF assms] by auto
    then show ?thesis using cS m0 by metis
  next
    case False
    then obtain c where c: "sp = Some c" "c \<noteq> 0" by auto
    let ?specs = "calculate_take_profit_orders (filled_entries_of ?fo) c
                    (dec_sub b (existing_sell_size oo tok))"
    have e: "snd (check_token self oo m (tok, bo, sp) (st, tp)) =
        fst (place_tp_specs self tok m ?specs (st2, tp))"
      unfolding check_token_processed[OF assms] using c by simp
    from place_tp_specs_frame[of self tok m ?specs st2 tp]
    obtain cs where cs: "calls (fst (place_tp_specs self tok m ?specs (st2, tp))) = calls st2 @ cs"
      "filled_marks cs = []" by blast
    show ?thesis unfolding e using cs cS
      by (intro exI[of _ "[GetTokenBalance tok] @ map (\<lambda>od. MarkOrderFilled (order_id od)) ?fo @ cs"])
         simp
  qed
qed

lemma check_tokens_split:
  "check_tokens self oo m (gs @ g # gs') acc =
     (case check_tokens self oo m gs acc of
        (Raises, s) \<Rightarrow> (Raises, s)
      | (Returns tp, s) \<Rightarrow>
          (case check_token self oo m g (s, tp) of
             (Raises, s') \<Rightarrow> (Raises, s')
           | (Returns tp', s') \<Rightarrow> check_tokens self oo m gs' (s', tp')))"
  by (induction gs arbitrary: acc) (auto split: prod.splits outcome.splits)

lemma check_markets_split:
  "m \<notin> ap \<Longrightarrow>
   check_markets self ap oo (ms @ m # ms') acc =
     (case check_markets self ap oo ms acc of
        (Raises, s) \<Rightarrow> (Raises, s)
      | (Returns tp, s) \<Rightarrow>
          (case check_tokens self oo m
                  (tokens_in_market (get_active_orders_by_market (order_monitor self) m (ledger s)))
                  (s, tp) of
             (Raises, s') \<Rightarrow> (Raises, s')
           | (Returns tp', s') \<Rightarrow> check_markets self ap oo ms' (s', tp')))"
  by (induction ms arbitrary: acc) (auto split: prod.splits outcome.splits)

lemma tokens_in_market_snoc:
  "tokens_in_market (xs @ [x]) = add_buy_order x (tokens_in_market xs)"
  by (simp add: tokens_in_market_def)

lemma tokens_in_market_inv:
  "distinct (map fst (tokens_in_market xs))
   \<and> fst ` set (tokens_in_market xs) = token_id ` {od \<in> set xs. side od = ''BUY''}
   \<and> (\<forall>g \<in> set (tokens_in_market xs). group_ok xs g)"
proof (induction xs rule: rev_induct)
  case Nil
  show ?case by (simp add: tokens_in_market_def)
next
  case (snoc x xs)
  let ?T = "tokens_in_market xs"
  from snoc have d: "distinct (map fst ?T)"
    and f: "fst ` set ?T = token_id ` {od \<in> set xs. side od = ''BUY''}"
    and g: "\<forall>g \<in> set ?T. group_ok xs g" by auto
  show ?case
  proof (cases "side x = ''BUY''")
    case False
    then have e: "tokens_in_market (xs @ [x]) = ?T"
      by (simp add: tokens_in_market_snoc add_buy_order_def)
    have "\<forall>g \<in> set ?T. group_ok (xs @ [x]) g"
      using g False by (auto simp: group_ok_def)
    moreover have "token_id ` {od \<in> set (xs @ [x]). side od = ''BUY''}
        = token_id ` {od \<in> set xs. side od = ''BUY''}" using False by auto
    ultimately show ?thesis unfolding e using d f by simp
  next
    case True
    let ?tok = "token_id x"
    let ?T1 = "if ?tok \<notin> fst ` set ?T then ?T @ [(?tok, [], strong_team_price_cents x)] else ?T"
    let ?upd = "\<lambda>(tok, buy_orders, strong_price).
                   if tok = ?tok then (tok, buy_orders @ [x], strong_price)
                   else (tok, buy_orders, strong_price)"
    have e: "tokens_in_market (xs @ [x]) = map ?upd ?T1"
      using True by (simp add: tokens_in_market_snoc add_buy_order_def Let_def)
    have fst_upd: "map fst (map ?upd ?T1) = map fst ?T1"
      by (auto simp: case_prod_beta)
    have d1: "distinct (map fst ?T1)" using d by auto
    have f1: "fst ` set ?T1 = insert ?tok (fst ` set ?T)" by auto
    have s1: "fst ` set (map ?upd ?T1) = insert ?tok (fst ` set ?T)"
    proof -
      have "fst ` set (map ?upd ?T1) = set (map fst (map ?upd ?T1))" by (simp only: set_map)
      also have "\<dots> = set (map fst ?T1)" by (simp only: fst_upd)
      also have "\<dots> = fst ` set ?T1" by (simp only: set_map)
      finally show ?thesis using f1 by simp
    qed
    have s2: "token_id ` {od \<in> set (xs @ [x]). side od = ''BUY''}
        = insert ?tok (token_id ` {od \<in> set xs. side od = ''BUY''})" using True by auto
    have ok: "\<forall>h \<in> set ?T1. group_ok (xs @ [x]) (?upd h)"
    proof
      fix h assume h: "h \<in> set ?T1"
      obtain t bo sp where hh: "h = (t, bo, sp)" by (cases h) auto
      show "group_ok (xs @ [x]) (?upd h)"
      proof (cases "h \<in> set ?T")
        case True
        with g hh have k: "bo = filter (\<lambda>od. side od = ''BUY'' \<and> token_id od = t) xs" "bo \<noteq> []"
          "sp = strong_team_price_cents (hd bo)" by (auto simp: group_ok_def)
        show ?thesis using k \<open>side x = ''BUY''\<close> unfolding hh by (auto simp: group_ok_def)
      next
        case False
        with h have new: "?tok \<notin> fst ` set ?T" "h = (?tok, [], strong_team_price_cents x)"
          by (auto split: if_splits)
        from new(1) f have nin: "?tok \<notin> token_id ` {od \<in> set xs. side od = ''BUY''}" by simp
        have "filter (\<lambda>od. side od = ''BUY'' \<and> token_id od = ?tok) xs = []"
          unfolding filter_empty_conv
        proof
          fix od assume "od \<in> set xs"
          show "\<not> (side od = ''BUY'' \<and> token_id od = ?tok)"
          proof
            assume a: "side od = ''BUY'' \<and> token_id od = ?tok"
            with \<open>od \<in> set xs\<close> have "token_id od \<in> token_id ` {od \<in> set xs. side od = ''BUY''}"
              by blast
            with a nin show False by simp
          qed
        qed
        then show ?thesis using new(2) \<open>side x = ''BUY''\<close> by (simp add: group_ok_def)
      qed
    qed
    show ?thesis unfolding e
    proof (intro conjI)
      show "distinct (map fst (map ?upd ?T1))" unfolding fst_upd by (rule d1)
      show "fst ` set (map ?upd ?T1) = token_id ` {od \<in> set (xs @ [x]). side od = ''BUY''}"
        using s1 s2 f by (simp only:)
      show "\<forall>g \<in> set (map ?upd ?T1). group_ok (xs @ [x]) g" using ok by auto
    qed
  qed
qed


lemma tokens_in_market_group:
  assumes "(tok, bo, sp) \<in> set (tokens_in_market market_orders)"
  shows "bo = filter (\<lambda>od. side od = ''BUY'' \<and> token_id od = tok) market_orders"
    "bo \<noteq> []" "sp = strong_team_price_cents (hd bo)"
  using tokens_in_market_inv[of market_orders] assms by (auto simp: group_ok_def)

lemma check_token_no_price:
  assumes "sp = None \<or> sp = Some 0"
  shows "\<exists>cs. calls (snd (check_token self oo m (tok, bo, sp) (st, tp))) = calls st @ cs
           \<and> placements cs = []
           \<and> (fst (check_token self oo m (tok, bo, sp) (st, tp)) = Raises
              \<or> fst (check_token self oo m (tok, bo, sp) (st, tp)) = Returns tp)"
proof -
  obtain r st1 where bal: "call_client (GetTokenBalance tok) (get_token_balance (client self) tok) st
      = (r, st1)"
    by (cases "call_client (GetTokenBalance tok) (get_token_balance (client self) tok) st")
  note f1 = call_client_frame(2)[OF bal]
  show ?thesis
  proof (cases r)
    case Raises
    with check_token_raises[of tok self st st1 oo m bo sp tp] bal f1 show ?thesis by simp
  next
    case (Returns b)
    show ?thesis
    proof (cases "b \<le> 0 \<or> dec_sub b (existing_sell_size oo tok) \<le> 1 / 100")
      case True
      from check_token_skipped[OF bal[unfolded Returns] True, of m bo sp tp] f1
      show ?thesis by simp
    next
      case False
      then have p: "0 < b" "1 / 100 < dec_sub b (existing_sell_size oo tok)" by auto
      let ?fo = "py_prefix (filled_entries_count bo oo tok) bo"
      obtain r2 st2 where mk: "mark_filled_orders self ?fo st1 = (r2, st2)"
        by (cases "mark_filled_orders self ?fo st1")
      from mark_filled_orders_calls[of ?fo self st1] mk
      obtain j where j: "calls st2 = calls st1 @ map (\<lambda>od. MarkOrderFilled (order_id od)) (take j ?fo)"
        by auto
      show ?thesis
      proof (cases r2)
        case Raises
        from check_token_marking_raises[OF bal[unfolded Returns] p mk[unfolded Raises], of m sp tp]
        show ?thesis using f1 j by simp
      next
        case r2: (Returns u)
        have "check_token self oo m (tok, bo, sp) (st, tp) = (Returns tp, st2)"
          unfolding check_token_processed[OF bal[unfolded Returns] p mk[unfolded r2]]
          using assms by auto
        then show ?thesis using f1 j by simp
      qed
    qed
  qed
qed


lemma dec_sub_10_0 [simp]: "dec_sub 10 0 = 10"
  using dec_round_exact[of 10 0] by (simp add: dec_sub_def)

lemma dec_div_10_2' [simp]: "dec_div 10 2 = 5"
  using dec_half_exact[of 10 0] by simp

lemma dec_div_65_100' [simp]: "dec_div 65 100 = 13 / 20"
  using dec_div_100_exact[of 65] by simp

text \<open>
  Claim C8. In \<^verbatim>\<open>check_filled_positions_and_set_tp\<close>, a token group whose balance is at most
  0, or whose unsold position (balance minus the open SELL sizes) is at most 0.01, is
  skipped: the only call made for it is the balance query, the ledger is as before (no
  order is marked filled) and the count of take-profit orders is as before (none is
  placed). A market in the set of markets to skip is passed over without any call.
\<close>

theorem skipped_groups_untouched:
  "(call_client (GetTokenBalance tok) (get_token_balance (client self) tok) st = (Returns b, st1)
      \<and> (b \<le> 0 \<or> dec_sub b (existing_sell_size oo tok) \<le> 1 / 100) \<longrightarrow>
      check_token self oo m (tok, bo, sp) (st, tp) = (Returns tp, st1)
      \<and> ledger st1 = ledger st
      \<and> calls st1 = calls st @ [GetTokenBalance tok])
   \<and> (m \<in> already_profitable_markets \<longrightarrow>
        check_markets self already_profitable_markets oo (m # markets) acc =
          check_markets self already_profitable_markets oo markets acc)"
proof (intro conjI impI)
  assume a: "call_client (GetTokenBalance tok) (get_token_balance (client self) tok) st = (Returns b, st1)
      \<and> (b \<le> 0 \<or> dec_sub b (existing_sell_size oo tok) \<le> 1 / 100)"
  show "check_token self oo m (tok, bo, sp) (st, tp) = (Returns tp, st1)"
    by (rule check_token_skipped[OF conjunct1[OF a] conjunct2[OF a]])
  show "ledger st1 = ledger st" by (rule call_client_frame(1)[OF conjunct1[OF a]])
  show "calls st1 = calls st @ [GetTokenBalance tok]" by (rule call_client_frame(2)[OF conjunct1[OF a]])
next
  assume "m \<in> already_profitable_markets"
  then show "check_markets self already_profitable_markets oo (m # markets) acc =
          check_markets self already_profitable_markets oo markets acc"
    by simp
qed



theorem skipped_groups_untouched_witness:
  "check_token (scripted_executor [listed_buy ''o2''] (\<lambda>t. Returns 0) (\<lambda>i. Returns (OrderId ''tp'')) [])
      [listed_buy ''o2''] ''m''
      (''T'', [entry_order ''o1'' 1 (44 / 100) (Some 65), entry_order ''o2'' 2 (31 / 100) (Some 65)],
       Some 65)
      (start_state [tracked (entry_order ''o1'' 1 (44 / 100) (Some 65)) OPEN,
                    tracked (entry_order ''o2'' 2 (31 / 100) (Some 65)) OPEN], 0)
     = (Returns 0,
        \<lparr>ledger = [tracked (entry_order ''o1'' 1 (44 / 100) (Some 65)) OPEN,
                   tracked (entry_order ''o2'' 2 (31 / 100) (Some 65)) OPEN],
         world = 0, calls = [GetTokenBalance ''T'']\<rparr>)
   \<and> check_filled_positions_and_set_tp
        (scripted_executor [listed_buy ''o2''] (\<lambda>t. Returns 10) (\<lambda>i. Returns (OrderId ''tp'')) [])
        {''m''}
        (start_state [tracked (entry_order ''o1'' 1 (44 / 100) (Some 65)) OPEN,
                      tracked (entry_order ''o2'' 2 (31 / 100) (Some 65)) OPEN])
     = (Returns 0,
        \<lparr>ledger = [tracked (entry_order ''o1'' 1 (44 / 100) (Some 65)) OPEN,
                   tracked (entry_order ''o2'' 2 (31 / 100) (Some 65)) OPEN],
         world = 0, calls = [GetOpenOrders]\<rparr>)"
  using skipped_groups_untouched
          [where tok = "''T''"
             and self = "scripted_executor [listed_buy ''o2''] (\<lambda>t. Returns 0)
                            (\<lambda>i. Returns (OrderId ''tp'')) []"
             and st = "start_state [tracked (entry_order ''o1'' 1 (44 / 100) (Some 65)) OPEN,
                                    tracked (entry_order ''o2'' 2 (31 / 100) (Some 65)) OPEN]"
             and b = 0
             and ?st1.0 = "\<lparr>ledger = [tracked (entry_order ''o1'' 1 (44 / 100) (Some 65)) OPEN,
                                    tracked (entry_order ''o2'' 2 (31 / 100) (Some 65)) OPEN],
                            world = 0, calls = [GetTokenBalance ''T'']\<rparr>"
             and oo = "[listed_buy ''o2'']" and m = "''m''"
             and bo = "[entry_order ''o1'' 1 (44 / 100) (Some 65),
                        entry_order ''o2'' 2 (31 / 100) (Some 65)]"
             and sp = "Some 65" and tp = 0 and already_profitable_markets = "{}"
             and markets = "[]" and acc = "(start_state [], 0)"]
        skipped_groups_untouched
          [where m = "''m''" and already_profitable_markets = "{''m''}"
             and tok = "''T''" and b = 0 and st = "start_state []" and ?st1.0 = "start_state []"
             and bo = "[]" and sp = None and tp = 0
             and self = "scripted_executor [listed_buy ''o2''] (\<lambda>t. Returns 10)
                            (\<lambda>i. Returns (OrderId ''tp'')) []"
             and oo = "[listed_buy ''o2'']" and markets = "[]"
             and acc = "(\<lparr>ledger = [tracked (entry_order ''o1'' 1 (44 / 100) (Some 65)) OPEN,
                                    tracked (entry_order ''o2'' 2 (31 / 100) (Some 65)) OPEN],
                            world = 0, calls = [GetOpenOrders]\<rparr>, 0)"]
  by (simp add: run_defs check_filled_positions_and_set_tp_def)

lemmas fill_defs =
  check_filled_positions_and_set_tp_def check_token_def tokens_in_market_def add_buy_order_def
  filled_entries_count_def open_buy_count_def existing_sell_size_def filled_entries_of_def
  place_tp_specs_def place_take_profit_orders_def py_prefix_def
  calculate_take_profit_orders_def

text \<open>
  Claim C3, as stated, fails for a group that is skipped: with two tracked BUY orders, one
  of them listed open and a balance of 0, the inferred fill count is 1 and no order is
  marked filled.
\<close>

theorem fill_inference_counterexample:
  "tokens_in_market (ledger_get_active_orders_by_market ''m''
       [tracked (entry_order ''o1'' 1 (44 / 100) (Some 65)) OPEN,
        tracked (entry_order ''o2'' 2 (31 / 100) (Some 65)) OPEN])
     = [(''T'', [entry_order ''o1'' 1 (44 / 100) (Some 65),
                 entry_order ''o2'' 2 (31 / 100) (Some 65)], Some 65)]
   \<and> filled_entries_count
         [entry_order ''o1'' 1 (44 / 100) (Some 65), entry_order ''o2'' 2 (31 / 100) (Some 65)]
         [listed_buy ''o2''] ''T'' = 1
   \<and> check_filled_positions_and_set_tp
        (scripted_executor [listed_buy ''o2''] (\<lambda>t. Returns 0) (\<lambda>i. Returns (OrderId ''tp'')) [])
        {}
        (start_state [tracked (entry_order ''o1'' 1 (44 / 100) (Some 65)) OPEN,
                      tracked (entry_order ''o2'' 2 (31 / 100) (Some 65)) OPEN])
     = (Returns 0,
        \<lparr>ledger = [tracked (entry_order ''o1'' 1 (44 / 100) (Some 65)) OPEN,
                   tracked (entry_order ''o2'' 2 (31 / 100) (Some 65)) OPEN],
         world = 0, calls = [GetOpenOrders, GetTokenBalance ''T'']\<rparr>)"
  by (simp add: run_defs fill_defs Let_def)

text \<open>
  Claim C3, amended. \<^verbatim>\<open>check_filled_positions_and_set_tp\<close> fetches the open orders and goes
  through the markets with tracked orders; in every market outside the skip set it goes
  through the token groups of the market's tracked orders, each from the state the groups
  before it left. The inferred fill count of a group is the number of its tracked BUY orders
  minus the number of the token's BUY orders the exchange lists as open, and the group's
  orders are the market's tracked BUY orders of the token in the order the monitor lists
  them, which is the order of insertion for the ledger of the specification. For a group
  that is not skipped (balance above 0, unsold position above 0.01), whose fill count is
  not negative and whose marking calls return, the orders marked filled are exactly the
  first fill-count orders of the group, in order; with 2 tracked orders and 1 listed open
  the fill count is 1 and exactly the first order is marked.
\<close>

theorem fill_inference_marks_first_entries:
  "(call_client GetOpenOrders (get_open_orders (client self)) st0 = (Returns oo, sa) \<longrightarrow>
      check_filled_positions_and_set_tp self ap st0 =
        check_markets self ap oo (get_markets_with_orders (order_monitor self) (ledger sa)) (sa, 0))
   \<and> (m \<notin> ap \<longrightarrow>
        check_markets self ap oo (ms @ m # ms') acc =
          (case check_markets self ap oo ms acc of
             (Raises, s) \<Rightarrow> (Raises, s)
           | (Returns tp, s) \<Rightarrow>
               (case check_tokens self oo m
                       (tokens_in_market
                          (get_active_orders_by_market (order_monitor self) m (ledger s)))
                       (s, tp) of
                  (Raises, s') \<Rightarrow> (Raises, s')
                | (Returns tp', s') \<Rightarrow> check_markets self ap oo ms' (s', tp'))))
   \<and> check_tokens self oo m (gs @ (tok, bo, sp) # gs') acc =
        (case check_tokens self oo m gs acc of
           (Raises, s) \<Rightarrow> (Raises, s)
         | (Returns tp, s) \<Rightarrow>
             (case check_token self oo m (tok, bo, sp) (s, tp) of
                (Raises, s') \<Rightarrow> (Raises, s')
              | (Returns tp', s') \<Rightarrow> check_tokens self oo m gs' (s', tp')))
   \<and> filled_entries_count bo oo tok =
        int (length bo)
        - int (length (filter (\<lambda>order. oo_asset_id order = Some tok \<and> oo_side order = Some ''BUY'') oo))
   \<and> ((tok, bo, sp) \<in> set (tokens_in_market market_orders) \<longrightarrow>
        bo = filter (\<lambda>od. side od = ''BUY'' \<and> token_id od = tok) market_orders)
   \<and> ((tok, bo, sp) \<in> set (tokens_in_market (get_active_orders_by_market ledger_monitor m l)) \<longrightarrow>
        bo = map data
               (filter (\<lambda>t. market_slug (data t) = m
                            \<and> (status t = OPEN \<or> status t = DISAPPEARED)
                            \<and> side (data t) = ''BUY'' \<and> token_id (data t) = tok) l))
   \<and> (call_client (GetTokenBalance tok) (get_token_balance (client self) tok) st = (Returns b, st1)
       \<and> 0 < b \<and> 1 / 100 < dec_sub b (existing_sell_size oo tok)
       \<and> 0 \<le> filled_entries_count bo oo tok
       \<and> mark_filled_orders self (take (nat (filled_entries_count bo oo tok)) bo) st1
           = (Returns u, st2) \<longrightarrow>
        (\<exists>cs. calls (snd (check_token self oo m (tok, bo, sp) (st, tp))) = calls st @ cs
            \<and> filled_marks cs = map order_id (take (nat (filled_entries_count bo oo tok)) bo)
            \<and> (length bo = 2 \<and> open_buy_count oo tok = 1 \<longrightarrow>
                  filled_entries_count bo oo tok = 1 \<and> filled_marks cs = [order_id (hd bo)]))
      \<and> fst (check_token self oo m (tok, bo, sp) (st, tp)) \<noteq> Raises)"
proof (intro conjI impI)
  assume "call_client GetOpenOrders (get_open_orders (client self)) st0 = (Returns oo, sa)"
  then show "check_filled_positions_and_set_tp self ap st0 =
        check_markets self ap oo (get_markets_with_orders (order_monitor self) (ledger sa)) (sa, 0)"
    by (simp add: check_filled_positions_and_set_tp_def)
next
  assume "m \<notin> ap"
  then show "check_markets self ap oo (ms @ m # ms') acc =
          (case check_markets self ap oo ms acc of
             (Raises, s) \<Rightarrow> (Raises, s)
           | (Returns tp, s) \<Rightarrow>
               (case check_tokens self oo m
                       (tokens_in_market
                          (get_active_orders_by_market (order_monitor self) m (ledger s)))
                       (s, tp) of
                  (Raises, s') \<Rightarrow> (Raises, s')
                | (Returns tp', s') \<Rightarrow> check_markets self ap oo ms' (s', tp')))"
    by (rule check_markets_split)
next
  show "check_tokens self oo m (gs @ (tok, bo, sp) # gs') acc =
        (case check_tokens self oo m gs acc of
           (Raises, s) \<Rightarrow> (Raises, s)
         | (Returns tp, s) \<Rightarrow>
             (case check_token self oo m (tok, bo, sp) (s, tp) of
                (Raises, s') \<Rightarrow> (Raises, s')
              | (Returns tp', s') \<Rightarrow> check_tokens self oo m gs' (s', tp')))"
    by (rule check_tokens_split)
next
  show "filled_entries_count bo oo tok =
     int (length bo)
     - int (length (filter (\<lambda>order. oo_asset_id order = Some tok \<and> oo_side order = Some ''BUY'') oo))"
    by (simp add: filled_entries_count_def open_buy_count_def)
next
  assume "(tok, bo, sp) \<in> set (tokens_in_market market_orders)"
  then show "bo = filter (\<lambda>od. side od = ''BUY'' \<and> token_id od = tok) market_orders"
    by (rule tokens_in_market_group(1))
next
  assume "(tok, bo, sp) \<in> set (tokens_in_market (get_active_orders_by_market ledger_monitor m l))"
  from tokens_in_market_group(1)[OF this]
  show "bo = map data
               (filter (\<lambda>t. market_slug (data t) = m
                            \<and> (status t = OPEN \<or> status t = DISAPPEARED)
                            \<and> side (data t) = ''BUY'' \<and> token_id (data t) = tok) l)"
    by (simp add: ledger_monitor_def ledger_get_active_orders_by_market_def filter_map comp_def
        conj_commute conj_left_commute)
next
  assume a: "call_client (GetTokenBalance tok) (get_token_balance (client self) tok) st = (Returns b, st1)
       \<and> 0 < b \<and> 1 / 100 < dec_sub b (existing_sell_size oo tok)
       \<and> 0 \<le> filled_entries_count bo oo tok
       \<and> mark_filled_orders self (take (nat (filled_entries_count bo oo tok)) bo) st1
           = (Returns u, st2)"
  then have bal: "call_client (GetTokenBalance tok) (get_token_balance (client self) tok) st = (Returns b, st1)"
    and b: "0 < b" and un: "1 / 100 < dec_sub b (existing_sell_size oo tok)"
    and k: "0 \<le> filled_entries_count bo oo tok"
    and mk0: "mark_filled_orders self (take (nat (filled_entries_count bo oo tok)) bo) st1
           = (Returns u, st2)" by simp_all
  have mk: "mark_filled_orders self (py_prefix (filled_entries_count bo oo tok) bo) st1
           = (Returns u, st2)"
    using mk0 py_prefix_nonneg[OF k, of bo] by simp
  from check_token_marks(1)[OF bal b un mk, of m sp tp]
  obtain cs where cs: "calls (snd (check_token self oo m (tok, bo, sp) (st, tp))) = calls st @ cs"
    "filled_marks cs = map order_id (py_prefix (filled_entries_count bo oo tok) bo)" by blast
  have m: "filled_marks cs = map order_id (take (nat (filled_entries_count bo oo tok)) bo)"
    using cs(2) py_prefix_nonneg[OF k, of bo] by simp
  have two: "length bo = 2 \<and> open_buy_count oo tok = 1 \<longrightarrow>
                  filled_entries_count bo oo tok = 1 \<and> filled_marks cs = [order_id (hd bo)]"
  proof
    assume h: "length bo = 2 \<and> open_buy_count oo tok = 1"
    then have one: "filled_entries_count bo oo tok = 1" by (simp add: filled_entries_count_def)
    from h obtain x y where "bo = [x, y]"
      by (cases bo; cases "tl bo") auto
    then show "filled_entries_count bo oo tok = 1 \<and> filled_marks cs = [order_id (hd bo)]"
      using one m by simp
  qed
  show "\<exists>cs. calls (snd (check_token self oo m (tok, bo, sp) (st, tp))) = calls st @ cs
            \<and> filled_marks cs = map order_id (take (nat (filled_entries_count bo oo tok)) bo)
            \<and> (length bo = 2 \<and> open_buy_count oo tok = 1 \<longrightarrow>
                  filled_entries_count bo oo tok = 1 \<and> filled_marks cs = [order_id (hd bo)])"
    using cs(1) m two by blast
  show "fst (check_token self oo m (tok, bo, sp) (st, tp)) \<noteq> Raises"
    by (rule check_token_marks(2)[OF bal b un mk])
qed

theorem fill_inference_marks_first_entries_witness:
  "filled_entries_count
      [entry_order ''o1'' 1 (44 / 100) (Some 65), entry_order ''o2'' 2 (31 / 100) (Some 65)]
      [listed_buy ''o2''] ''T'' = 1
   \<and> filled_marks (calls (snd (check_filled_positions_and_set_tp
         (scripted_executor [listed_buy ''o2''] (\<lambda>t. Returns 10)
            (\<lambda>i. Returns (OrderId (if i = 0 then ''tp1'' else ''tp2''))) [])
         {}
         (start_state [tracked (entry_order ''o1'' 1 (44 / 100) (Some 65)) OPEN,
                       tracked (entry_order ''o2'' 2 (31 / 100) (Some 65)) OPEN]))))
     = [''o1'']"
proof -
  let ?ex = "scripted_executor [listed_buy ''o2''] (\<lambda>t. Returns 10)
            (\<lambda>i. Returns (OrderId (if i = 0 then ''tp1'' else ''tp2''))) []"
  let ?o1 = "entry_order ''o1'' 1 (44 / 100) (Some 65)"
  let ?o2 = "entry_order ''o2'' 2 (31 / 100) (Some 65)"
  let ?l = "[tracked ?o1 OPEN, tracked ?o2 OPEN]"
  let ?st = "start_state ?l"
  let ?sa = "\<lparr>ledger = ?l, world = 0::nat, calls = [GetOpenOrders]\<rparr>"
  let ?s1 = "\<lparr>ledger = ?l, world = 0::nat, calls = [GetOpenOrders, GetTokenBalance ''T'']\<rparr>"
  let ?s2 = "\<lparr>ledger = [tracked ?o1 FILLED, tracked ?o2 OPEN], world = 0::nat,
              calls = [GetOpenOrders, GetTokenBalance ''T'', MarkOrderFilled ''o1'']\<rparr>"
  let ?g = "(''T'', [?o1, ?o2], Some (65::rat))"
  note t = fill_inference_marks_first_entries
             [where self = ?ex and ?st0.0 = ?st and oo = "[listed_buy ''o2'']" and sa = ?sa
                and ap = "{}" and m = "''m''" and ms = "[]" and ms' = "[]" and acc = "(?sa, 0)"
                and gs = "[]" and gs' = "[]" and tok = "''T''" and bo = "[?o1, ?o2]"
                and sp = "Some 65" and market_orders = "[?o1, ?o2]" and l = ?l
                and st = ?sa and b = 10 and ?st1.0 = ?s1 and u = "()" and ?st2.0 = ?s2
                and tp = 0]
  have cnt: "filled_entries_count [?o1, ?o2] [listed_buy ''o2''] ''T'' = 1"
    using t by (simp add: listed_buy_def)
  have p1: "call_client GetOpenOrders (get_open_orders (client ?ex)) ?st
      = (Returns [listed_buy ''o2''], ?sa)"
    by (simp add: run_defs)
  have mk: "get_markets_with_orders (order_monitor ?ex) (ledger ?sa) = [''m'']"
    by (simp add: run_defs)
  have grp: "tokens_in_market (get_active_orders_by_market (order_monitor ?ex) ''m'' (ledger ?sa))
      = [?g]"
    by (simp add: run_defs tokens_in_market_def add_buy_order_def)
  have p2: "call_client (GetTokenBalance ''T'') (get_token_balance (client ?ex) ''T'') ?sa
        = (Returns 10, ?s1)
      \<and> (0::rat) < 10 \<and> 1 / 100 < dec_sub 10 (existing_sell_size [listed_buy ''o2''] ''T'')
      \<and> 0 \<le> filled_entries_count [?o1, ?o2] [listed_buy ''o2''] ''T''
      \<and> mark_filled_orders ?ex
           (take (nat (filled_entries_count [?o1, ?o2] [listed_buy ''o2''] ''T'')) [?o1, ?o2]) ?s1
         = (Returns (), ?s2)"
    unfolding cnt by (simp add: run_defs existing_sell_size_def)
  from t p2 obtain cs where cs:
    "calls (snd (check_token ?ex [listed_buy ''o2''] ''m'' ?g (?sa, 0))) = calls ?sa @ cs"
    "filled_marks cs
       = map order_id (take (nat (filled_entries_count [?o1, ?o2] [listed_buy ''o2''] ''T''))
                         [?o1, ?o2])"
    and nr: "fst (check_token ?ex [listed_buy ''o2''] ''m'' ?g (?sa, 0)) \<noteq> Raises"
    by blast
  obtain tp' s' where ct: "check_token ?ex [listed_buy ''o2''] ''m'' ?g (?sa, 0) = (Returns tp', s')"
    using nr by (cases "check_token ?ex [listed_buy ''o2''] ''m'' ?g (?sa, 0)";
                 cases "fst (check_token ?ex [listed_buy ''o2''] ''m'' ?g (?sa, 0))") auto
  from t have toks: "check_tokens ?ex [listed_buy ''o2''] ''m'' ([] @ ?g # []) (?sa, 0) =
        (case check_tokens ?ex [listed_buy ''o2''] ''m'' [] (?sa, 0) of
           (Raises, s) \<Rightarrow> (Raises, s)
         | (Returns tp, s) \<Rightarrow>
             (case check_token ?ex [listed_buy ''o2''] ''m'' ?g (s, tp) of
                (Raises, s') \<Rightarrow> (Raises, s')
              | (Returns tp', s') \<Rightarrow> check_tokens ?ex [listed_buy ''o2''] ''m'' [] (s', tp')))"
    by blast
  have toks': "check_tokens ?ex [listed_buy ''o2''] ''m'' [?g] (?sa, 0) = (Returns tp', s')"
    using toks ct by simp
  from t have mks: "''m'' \<notin> ({}::string set) \<longrightarrow>
        check_markets ?ex {} [listed_buy ''o2''] ([] @ ''m'' # []) (?sa, 0) =
          (case check_markets ?ex {} [listed_buy ''o2''] [] (?sa, 0) of
             (Raises, s) \<Rightarrow> (Raises, s)
           | (Returns tp, s) \<Rightarrow>
               (case check_tokens ?ex [listed_buy ''o2''] ''m''
                       (tokens_in_market
                          (get_active_orders_by_market (order_monitor ?ex) ''m'' (ledger s)))
                       (s, tp) of
                  (Raises, s') \<Rightarrow> (Raises, s')
                | (Returns tp', s') \<Rightarrow> check_markets ?ex {} [listed_buy ''o2''] [] (s', tp')))"
    by blast
  have mks': "check_markets ?ex {} [listed_buy ''o2''] [''m''] (?sa, 0) = (Returns tp', s')"
    using mks grp toks' by simp
  from t p1 have "check_filled_positions_and_set_tp ?ex {} ?st =
      check_markets ?ex {} [listed_buy ''o2'']
        (get_markets_with_orders (order_monitor ?ex) (ledger ?sa)) (?sa, 0)"
    by blast
  then have run: "check_filled_positions_and_set_tp ?ex {} ?st = (Returns tp', s')"
    using mk mks' by simp
  have "calls s' = [GetOpenOrders] @ cs" using cs(1) ct by simp
  moreover have "filled_marks cs = [''o1'']" using cs(2) cnt by (simp add: entry_order_def)
  ultimately have "filled_marks (calls (snd (check_filled_positions_and_set_tp ?ex {} ?st)))
      = [''o1'']"
    unfolding run by simp
  with cnt show ?thesis by simp
qed

text \<open>
  A negative fill count is not covered by the statement above. When the exchange lists more
  open BUY orders of the token than are tracked, \<^verbatim>\<open>buy_orders[:filled_entries_count]\<close>
  counts from the end: with 2 tracked orders and 3 listed open the fill count is -1 and the
  first tracked order is marked filled.
\<close>

lemma negative_fill_count_example:
  "filled_entries_count
      [entry_order ''o1'' 1 (44 / 100) (Some 65), entry_order ''o2'' 2 (31 / 100) (Some 65)]
      [listed_buy ''a'', listed_buy ''b'', listed_buy ''c''] ''T'' = - 1
   \<and> check_token
        (scripted_executor [listed_buy ''a'', listed_buy ''b'', listed_buy ''c'']
           (\<lambda>t. Returns 10) (\<lambda>i. Returns (OrderId ''tp'')) [])
        [listed_buy ''a'', listed_buy ''b'', listed_buy ''c''] ''m''
        (''T'', [entry_order ''o1'' 1 (44 / 100) (Some 65),
                 entry_order ''o2'' 2 (31 / 100) (Some 65)], None)
        (start_state [tracked (entry_order ''o1'' 1 (44 / 100) (Some 65)) OPEN,
                      tracked (entry_order ''o2'' 2 (31 / 100) (Some 65)) OPEN], 0)
     = (Returns 0,
        \<lparr>ledger = [tracked (entry_order ''o1'' 1 (44 / 100) (Some 65)) FILLED,
                   tracked (entry_order ''o2'' 2 (31 / 100) (Some 65)) OPEN],
         world = 0, calls = [GetTokenBalance ''T'', MarkOrderFilled ''o1'']\<rparr>)"
  by (simp add: run_defs fill_defs Let_def)

section \<open>Recreated entries and the take-profit gate\<close>

lemmas recreate_defs =
  check_and_recreate_orders_def recreate_disappeared_def recreate_loop_def recreate_order_def
  ended_markets_of_def open_order_ids_of_def unique_markets_of_def List.map_filter_def

text \<open>
  Claim C10, as stated, fails. Entries 1 and 2 are tracked with the favored start price 65;
  entry 1 disappears with no balance and is recreated as \<open>n0\<close>, tracked without a price.
  When \<open>n0\<close> then fills (balance 10, entry 2 still listed open), the token group is
  \<open>[o2, n0]\<close>, its price is that of its first order, 65, and two take-profit legs are
  computed and placed.
\<close>

theorem recreated_entry_take_profit_counterexample:
  "fst (check_and_recreate_orders
          (scripted_executor [listed_buy ''o2''] (\<lambda>t. Returns 0) (\<lambda>i. Returns (OrderId ''n0'')) [])
          (start_state [tracked (entry_order ''o1'' 1 (44 / 100) (Some 65)) OPEN,
                        tracked (entry_order ''o2'' 2 (31 / 100) (Some 65)) OPEN])) = Returns 1
   \<and> ledger (snd (check_and_recreate_orders
          (scripted_executor [listed_buy ''o2''] (\<lambda>t. Returns 0) (\<lambda>i. Returns (OrderId ''n0'')) [])
          (start_state [tracked (entry_order ''o1'' 1 (44 / 100) (Some 65)) OPEN,
                        tracked (entry_order ''o2'' 2 (31 / 100) (Some 65)) OPEN])))
       = [\<lparr>data = entry_order ''o1'' 1 (44 / 100) (Some 65), status = RECREATED,
           replaced_by = Some ''n0''\<rparr>,
          tracked (entry_order ''o2'' 2 (31 / 100) (Some 65)) OPEN,
          tracked (entry_order ''n0'' 1 (44 / 100) None) OPEN]
   \<and> fst (check_filled_positions_and_set_tp
          (scripted_executor [listed_buy ''o2''] (\<lambda>t. Returns 10)
             (\<lambda>i. Returns (OrderId (if i = 0 then ''tp1'' else ''tp2''))) [])
          {}
          (start_state
             [\<lparr>data = entry_order ''o1'' 1 (44 / 100) (Some 65), status = RECREATED,
               replaced_by = Some ''n0''\<rparr>,
              tracked (entry_order ''o2'' 2 (31 / 100) (Some 65)) OPEN,
              tracked (entry_order ''n0'' 1 (44 / 100) None) OPEN])) = Returns 2
   \<and> placements (calls (snd (check_filled_positions_and_set_tp
          (scripted_executor [listed_buy ''o2''] (\<lambda>t. Returns 10)
             (\<lambda>i. Returns (OrderId (if i = 0 then ''tp1'' else ''tp2''))) [])
          {}
          (start_state
             [\<lparr>data = entry_order ''o1'' 1 (44 / 100) (Some 65), status = RECREATED,
               replaced_by = Some ''n0''\<rparr>,
              tracked (entry_order ''o2'' 2 (31 / 100) (Some 65)) OPEN,
              tracked (entry_order ''n0'' 1 (44 / 100) None) OPEN]))))
       = [PlaceLimitSell ''T'' (65 / 100) 5, PlaceLimitSell ''T'' (96 / 100) 5]"
  by (simp add: run_defs fill_defs recreate_defs Let_def)


lemma recreate_order_tracks_replacement:
  assumes "market_slug od \<notin> set ended"
    "call_client (GetTokenBalance (token_id od)) (get_token_balance (client self) (token_id od)) st
       = (Returns b, st1)" "b \<le> 1 / 10"
    "resubmit_order self od st1 = (Returns (OrderId new_id), st2)"
  shows "\<exists>cs. calls (fst (recreate_order self ended od (st, n, k))) =
           calls st2 @ AddOrder (replacement_order od new_id) # cs"
proof (cases "add_order (order_monitor self) (replacement_order od new_id) (ledger st2)")
  case Raises
  from recreate_order_add_fails[OF assms Raises] show ?thesis by simp
next
  case (Returns l)
  show ?thesis
  proof (cases "mark_order_recreated (order_monitor self) (order_id od) new_id l")
    case Raises
    from recreate_order_link_raises[OF assms Returns Raises] show ?thesis by simp
  next
    case l': (Returns l')
    from recreate_order_recreated[OF assms Returns l'] show ?thesis by simp
  qed
qed

lemma place_entry_order_tracks_price:
  assumes "call_client (PlaceLimitBuy (spec_token_id os) (spec_price os) (amount_usd os))
             (place_limit_buy (client self) (spec_token_id os) (spec_price os) (amount_usd os)) st
           = (Returns (OrderId oid), st1)" "spec_price os \<noteq> 0"
  shows "\<exists>args. calls (snd (place_entry_order self strong_price os (ids, st))) =
            calls st1 @ [AddOrder args]
          \<and> order_id args = oid \<and> strong_team_price_cents args = strong_price"
  using assms
  by (auto simp: place_entry_order_def call_add_order_def call_monitor_def logged_def
        split: outcome.splits)

text \<open>
  Claim C10, amended. \<^verbatim>\<open>place_entry_orders\<close> tracks an entry with the favored start price
  it is given; the order that \<^verbatim>\<open>check_and_recreate_orders\<close> tracks for a recreated order
  has no favored start price, whatever the original carried. In
  \<^verbatim>\<open>check_filled_positions_and_set_tp\<close> a token group takes its price from the first tracked
  BUY order of the token; when that price is absent (or 0), so in particular when the
  recreated entry is the first tracked BUY order of its token, no take-profit order is
  placed for the group and the count is unchanged.
\<close>

theorem recreated_entry_has_no_start_price:
  "strong_team_price_cents (replacement_order od new_id) = None
   \<and> (call_client (PlaceLimitBuy (spec_token_id os) (spec_price os) (amount_usd os))
         (place_limit_buy (client self) (spec_token_id os) (spec_price os) (amount_usd os)) st0
        = (Returns (OrderId oid), st0') \<and> spec_price os \<noteq> 0 \<longrightarrow>
        (\<exists>args. calls (snd (place_entry_order self strong_price os (ids, st0))) =
            calls st0' @ [AddOrder args]
          \<and> order_id args = oid \<and> strong_team_price_cents args = strong_price))
   \<and> (market_slug od \<notin> set ended
       \<and> call_client (GetTokenBalance (token_id od))
           (get_token_balance (client self) (token_id od)) st = (Returns b, st1)
       \<and> b \<le> 1 / 10
       \<and> resubmit_order self od st1 = (Returns (OrderId new_id), st2) \<longrightarrow>
        (\<exists>cs. calls (fst (recreate_order self ended od (st, n, k))) =
           calls st2 @ AddOrder (replacement_order od new_id) # cs))
   \<and> ((tok, bo, sp) \<in> set (tokens_in_market market_orders) \<longrightarrow>
        bo = filter (\<lambda>od. side od = ''BUY'' \<and> token_id od = tok) market_orders
        \<and> bo \<noteq> [] \<and> sp = strong_team_price_cents (hd bo))
   \<and> (sp = None \<or> sp = Some 0 \<longrightarrow>
        (\<exists>cs. calls (snd (check_token self oo m (tok, bo, sp) (st', tp))) = calls st' @ cs
            \<and> placements cs = []
            \<and> (fst (check_token self oo m (tok, bo, sp) (st', tp)) = Raises
               \<or> fst (check_token self oo m (tok, bo, sp) (st', tp)) = Returns tp)))"
proof (intro conjI impI)
  show "strong_team_price_cents (replacement_order od new_id) = None"
    by (simp add: replacement_order_def)
next
  assume a: "call_client (PlaceLimitBuy (spec_token_id os) (spec_price os) (amount_usd os))
         (place_limit_buy (client self) (spec_token_id os) (spec_price os) (amount_usd os)) st0
        = (Returns (OrderId oid), st0') \<and> spec_price os \<noteq> 0"
  show "\<exists>args. calls (snd (place_entry_order self strong_price os (ids, st0))) =
            calls st0' @ [AddOrder args]
          \<and> order_id args = oid \<and> strong_team_price_cents args = strong_price"
    by (rule place_entry_order_tracks_price[OF conjunct1[OF a] conjunct2[OF a]])
next
  assume a: "market_slug od \<notin> set ended
       \<and> call_client (GetTokenBalance (token_id od))
           (get_token_balance (client self) (token_id od)) st = (Returns b, st1)
       \<and> b \<le> 1 / 10
       \<and> resubmit_order self od st1 = (Returns (OrderId new_id), st2)"
  then have 1: "market_slug od \<notin> set ended"
    and 2: "call_client (GetTokenBalance (token_id od))
           (get_token_balance (client self) (token_id od)) st = (Returns b, st1)"
    and 3: "b \<le> 1 / 10"
    and 4: "resubmit_order self od st1 = (Returns (OrderId new_id), st2)" by simp_all
  show "\<exists>cs. calls (fst (recreate_order self ended od (st, n, k))) =
           calls st2 @ AddOrder (replacement_order od new_id) # cs"
    by (rule recreate_order_tracks_replacement[OF 1 2 3 4])
next
  assume g: "(tok, bo, sp) \<in> set (tokens_in_market market_orders)"
  show "bo = filter (\<lambda>od. side od = ''BUY'' \<and> token_id od = tok) market_orders"
    by (rule tokens_in_market_group(1)[OF g])
  show "bo \<noteq> []" by (rule tokens_in_market_group(2)[OF g])
  show "sp = strong_team_price_cents (hd bo)" by (rule tokens_in_market_group(3)[OF g])
next
  assume "sp = None \<or> sp = Some 0"
  then show "\<exists>cs. calls (snd (check_token self oo m (tok, bo, sp) (st', tp))) = calls st' @ cs
            \<and> placements cs = []
            \<and> (fst (check_token self oo m (tok, bo, sp) (st', tp)) = Raises
               \<or> fst (check_token self oo m (tok, bo, sp) (st', tp)) = Returns tp)"
    by (rule check_token_no_price)
qed

theorem recreated_entry_has_no_start_price_witness:
  "strong_team_price_cents (replacement_order (entry_order ''o1'' 1 (44 / 100) (Some 65)) ''n0'') = None
   \<and> tokens_in_market [entry_order ''n0'' 1 (44 / 100) None]
       = [(''T'', [entry_order ''n0'' 1 (44 / 100) None], None)]
   \<and> placements (calls (snd (check_token
        (scripted_executor [] (\<lambda>t. Returns 10) (\<lambda>i. Returns (OrderId ''tp'')) [])
        [] ''m'' (''T'', [entry_order ''n0'' 1 (44 / 100) None], None)
        (start_state [tracked (entry_order ''n0'' 1 (44 / 100) None) OPEN], 0)))) = []
   \<and> fst (check_token
        (scripted_executor [] (\<lambda>t. Returns 10) (\<lambda>i. Returns (OrderId ''tp'')) [])
        [] ''m'' (''T'', [entry_order ''n0'' 1 (44 / 100) None], None)
        (start_state [tracked (entry_order ''n0'' 1 (44 / 100) None) OPEN], 0)) = Returns 0"
proof -
  let ?x = "check_token
        (scripted_executor [] (\<lambda>t. Returns 10) (\<lambda>i. Returns (OrderId ''tp'')) [])
        [] ''m'' (''T'', [entry_order ''n0'' 1 (44 / 100) None], None)
        (start_state [tracked (entry_order ''n0'' 1 (44 / 100) None) OPEN], 0)"
  note t = recreated_entry_has_no_start_price
          [where od = "entry_order ''o1'' 1 (44 / 100) (Some 65)" and new_id = "''n0''"
             and self = "scripted_executor [] (\<lambda>t. Returns 10) (\<lambda>i. Returns (OrderId ''tp'')) []"
             and os = "\<lparr>order_type = ''limit_buy'', spec_token_id = ''T'', spec_team_name = ''S'',
                        spec_price = 44 / 100, spec_price_cents = 44, amount_usd = 5,
                        spec_entry_number = 1, market_question = ''q'', spec_market_slug = ''m''\<rparr>"
             and ?st0.0 = "start_state []" and ?st0'.0 = "start_state []" and oid = "''x''"
             and strong_price = "Some 65" and ids = "[]" and ended = "[]"
             and st = "start_state []" and b = 0 and ?st1.0 = "start_state []"
             and ?st2.0 = "start_state []" and n = 0 and k = 0
             and tok = "''T''" and bo = "[entry_order ''n0'' 1 (44 / 100) None]" and sp = None
             and market_orders = "[entry_order ''n0'' 1 (44 / 100) None]"
             and oo = "[]" and m = "''m''"
             and st' = "start_state [tracked (entry_order ''n0'' 1 (44 / 100) None) OPEN]"
             and tp = 0]
  have g: "tokens_in_market [entry_order ''n0'' 1 (44 / 100) None]
       = [(''T'', [entry_order ''n0'' 1 (44 / 100) None], None)]"
    by (simp add: tokens_in_market_def add_buy_order_def entry_order_def)
  from t obtain cs where cs: "calls (snd ?x) = calls (start_state [tracked (entry_order ''n0'' 1 (44 / 100) None) OPEN]) @ cs"
      "placements cs = []" "fst ?x = Raises \<or> fst ?x = Returns 0" by auto
  have "fst ?x \<noteq> Raises"
    by (simp add: run_defs fill_defs Let_def)
  with cs(3) have "fst ?x = Returns 0" by simp
  moreover have "placements (calls (snd ?x)) = []" using cs(1,2) by (simp add: start_state_def)
  ultimately show ?thesis using t g by simp
qed



end
